theory Spec2Isabelle
  imports Main "HOL-Library.Word" "HOL-Library.Char_ord" "HOL-Library.List_Lexorder"
begin

section \<open>Strings and the helpers of the Go standard library\<close>

text \<open>
  A Go string is a sequence of bytes; it is modelled as a \<^typ>\<open>string\<close> (a list of 8-bit
  characters), so \<open>len\<close> is \<^const>\<open>length\<close> and the slice \<open>s[n:]\<close> is \<open>drop n s\<close>.

  The patterns of \<open>stmt.go\<close> are compiled with the flags \<open>(?im)\<close>. Under \<open>i\<close> the class
  \<open>\w\<close> is closed under simple case folding, which adds two runes beyond ASCII: U+017F
  (bytes C5 BF, folds to s) and U+212A (bytes E2 84 AA, folds to k). The class \<open>\s\<close> is
  \<open>[\t\n\f\r ]\<close>. Every other byte or byte sequence is outside the classes used here.
\<close>

definition isSpace :: "char \<Rightarrow> bool" where
  "isSpace c \<longleftrightarrow> c = CHR 0x09 \<or> c = CHR 0x0A \<or> c = CHR 0x0C \<or> c = CHR 0x0D \<or> c = CHR 0x20"

definition isDigit :: "char \<Rightarrow> bool" where
  "isDigit c \<longleftrightarrow> (let n = (of_char c :: nat) in 48 \<le> n \<and> n \<le> 57)"

definition isLower :: "char \<Rightarrow> bool" where
  "isLower c \<longleftrightarrow> (let n = (of_char c :: nat) in 97 \<le> n \<and> n \<le> 122)"

definition isUpper :: "char \<Rightarrow> bool" where
  "isUpper c \<longleftrightarrow> (let n = (of_char c :: nat) in 65 \<le> n \<and> n \<le> 90)"

definition isWordByte :: "char \<Rightarrow> bool" where
  "isWordByte c \<longleftrightarrow> isDigit c \<or> isLower c \<or> isUpper c \<or> c = CHR ''_''"

text \<open>The number of bytes of the leading rune when it is in \<open>(?i)\w\<close>, and 0 otherwise.\<close>

fun wordRune :: "string \<Rightarrow> nat" where
  "wordRune [] = 0"
| "wordRune (c # cs) =
     (if isWordByte c then 1
      else if c = CHR 0xC5 \<and> take 1 cs = [CHR 0xBF] then 2
      else if c = CHR 0xE2 \<and> take 2 cs = [CHR 0x84, CHR 0xAA] then 3
      else 0)"

text \<open>The class \<open>field = [\w\-]\<close> of a key.\<close>

fun fieldRune :: "string \<Rightarrow> nat" where
  "fieldRune [] = 0"
| "fieldRune (c # cs) = (if c = CHR ''-'' then 1 else wordRune (c # cs))"

text \<open>The class \<open>[\w/\.\*,;:'"-]\<close> of a value.\<close>

definition isValuePunct :: "char \<Rightarrow> bool" where
  "isValuePunct c \<longleftrightarrow> c \<in> set [CHR ''/'', CHR ''.'', CHR ''*'', CHR '','', CHR '';'', CHR '':'',
     CHR 0x27, CHR 0x22, CHR ''-'']"

fun valueRune :: "string \<Rightarrow> nat" where
  "valueRune [] = 0"
| "valueRune (c # cs) = (if isValuePunct c then 1 else wordRune (c # cs))"

text \<open>
  A greedy repetition \<open>[class]+\<close> or \<open>[class]*\<close>: the number of bytes of the longest
  leading run of runes of the class.
\<close>

function runLen :: "(string \<Rightarrow> nat) \<Rightarrow> string \<Rightarrow> nat" where
  "runLen cls s =
     (let n = cls s in
      if n = 0 \<or> s = [] then 0 else n + runLen cls (drop n s))"
  by pat_completeness auto
termination
  by (relation "measure (\<lambda>(cls, s). length s)") auto

declare runLen.simps [simp del]

definition spaces :: "string \<Rightarrow> nat" where
  "spaces s = length (takeWhile isSpace s)"

text \<open>\<open>strings.ToUpper\<close>, on one ASCII byte and on a string. The string version is the Go
  function on strings made of the runes of the two classes above (the only strings it is
  applied to): ASCII letters are upper-cased, U+017F becomes \<open>S\<close>, and U+212A is its own
  upper case.\<close>

definition upperByte :: "char \<Rightarrow> char" where
  "upperByte c = (if isLower c then char_of (of_char c - (32::nat)) else c)"

fun ToUpper :: "string \<Rightarrow> string" where
  "ToUpper [] = []"
| "ToUpper [c] = [upperByte c]"
| "ToUpper (c1 # c2 # cs) =
     (if c1 = CHR 0xC5 \<and> c2 = CHR 0xBF then CHR ''S'' # ToUpper cs
      else upperByte c1 # ToUpper (c2 # cs))"

text \<open>\<open>strings.TrimSpace\<close> removes leading and trailing white space; its ASCII white space
  is \<open>\t \n \v \f \r\<close> and the blank. The strings it is applied to are pieces of text
  that the patterns matched, whose white space is ASCII (\<open>\s\<close>) and whose other runes are
  those of the two classes above, so no other white space can occur.\<close>

definition isTrimSpace :: "char \<Rightarrow> bool" where
  "isTrimSpace c \<longleftrightarrow> isSpace c \<or> c = CHR 0x0B"

definition TrimSpace :: "string \<Rightarrow> string" where
  "TrimSpace s = rev (dropWhile isTrimSpace (rev (dropWhile isTrimSpace s)))"

text \<open>\<open>strings.TrimSuffix(s, ",")\<close>.\<close>

definition TrimSuffixComma :: "string \<Rightarrow> string" where
  "TrimSuffixComma s = (if s \<noteq> [] \<and> last s = CHR '','' then butlast s else s)"

text \<open>\<open>strings.SplitN(s, ":", n)\<close> for \<open>n \<ge> 0\<close>: at most \<open>n\<close> pieces, the last one unsplit.\<close>

primrec SplitN :: "nat \<Rightarrow> string \<Rightarrow> string list" where
  "SplitN 0 s = []"
| "SplitN (Suc k) s =
     (if k = 0 \<or> CHR '':'' \<notin> set s then [s]
      else takeWhile (\<lambda>c. c \<noteq> CHR '':'') s # SplitN k (tl (dropWhile (\<lambda>c. c \<noteq> CHR '':'') s)))"

text \<open>\<open>strconv.ParseInt(s, 10, 64)\<close>: \<open>None\<close> stands for every error (syntax or range).\<close>

definition digitVal :: "char \<Rightarrow> int" where
  "digitVal c = int (of_char c - (48::nat))"

definition ParseInt :: "string \<Rightarrow> int option" where
  "ParseInt s =
     (let neg = (take 1 s = ''-'');
          ds = (if take 1 s = ''+'' \<or> take 1 s = ''-'' then drop 1 s else s)
      in if ds = [] \<or> \<not> list_all isDigit ds then None
         else let n = foldl (\<lambda>a c. 10 * a + digitVal c) 0 ds;
                  v = (if neg then - n else n)
              in if v < - (2 ^ 63) \<or> 2 ^ 63 - 1 < v then None else Some v)"

subsection \<open>Whether \<open>strconv.ParseFloat\<close> accepts a text\<close>

text \<open>
  The value decoder calls \<open>strconv.ParseFloat(s, 64)\<close> on the text of a number and fails when
  it returns an error; only that is modelled here: \<open>ParseFloatOk s\<close> holds when the error is
  \<open>nil\<close>. The function accepts the special values, and the decimal and hexadecimal
  floating-point literals of Go, and it must consume the whole text. It refuses a text that
  is not well formed (\<open>ErrSyntax\<close>) and a number that rounds to an infinity (\<open>ErrRange\<close>); a
  number that rounds to zero is accepted.

  \<open>special\<close>: an optional sign before \<open>inf\<close> or \<open>infinity\<close>, or \<open>nan\<close>, in any letter case; the
  result is the number of bytes consumed.
\<close>

definition lowerAZ :: "char \<Rightarrow> char" where
  "lowerAZ c = (if isUpper c then char_of (of_char c + (32::nat)) else c)"

fun commonPrefixLenIgnoreCase :: "string \<Rightarrow> string \<Rightarrow> nat" where
  "commonPrefixLenIgnoreCase (c # s) (d # prefix) =
     (if lowerAZ c = d then Suc (commonPrefixLenIgnoreCase s prefix) else 0)"
| "commonPrefixLenIgnoreCase s prefix = 0"

definition special :: "string \<Rightarrow> nat option" where
  "special s =
     (case s of
        [] \<Rightarrow> None
      | c # cs \<Rightarrow>
          if c = CHR ''+'' \<or> c = CHR ''-'' \<or> c = CHR ''i'' \<or> c = CHR ''I'' then
            (let signed = (c = CHR ''+'' \<or> c = CHR ''-'');
                 n0 = commonPrefixLenIgnoreCase (if signed then cs else s) ''infinity'';
                 n = (if 3 < n0 \<and> n0 < 8 then 3 else n0)
             in if n = 3 \<or> n = 8 then Some ((if signed then 1 else 0) + n) else None)
          else if c = CHR ''n'' \<or> c = CHR ''N'' then
            (if commonPrefixLenIgnoreCase s ''nan'' = 3 then Some 3 else None)
          else None)"

text \<open>
  The digits of the mantissa, as the loop of \<open>readFloat\<close> reads them: underscores are skipped
  and remembered, one dot is allowed, zeros before the first other digit only move the
  decimal point, and at most \<open>cap\<close> digits are kept in \<open>sc_mant\<close> (\<open>sc_kept\<close> counts them,
  \<open>sc_nd\<close> counts all). The test \<open>lower(c)\<close> of the source, \<open>c | 0x20\<close>, holds for a letter in
  either case. The slow path of the decimal conversion (\<open>decimal.set\<close>) reads the same text
  again with a buffer of 800 digits and sets its decimal point from the number of digits
  kept: \<open>sc_dp\<close> is the decimal point of \<open>readFloat\<close>, \<open>sc_dpk\<close> that of \<open>decimal.set\<close>.
\<close>

definition isHexLetter :: "char \<Rightarrow> bool" where
  "isHexLetter c \<longleftrightarrow> (let n = (of_char c :: nat) in (65 \<le> n \<and> n \<le> 70) \<or> (97 \<le> n \<and> n \<le> 102))"

definition hexLetterVal :: "char \<Rightarrow> int" where
  "hexLetterVal c = (let n = (of_char c :: nat) in if 97 \<le> n then int (n - 87) else int (n - 55))"

record scan =
  sc_mant :: int
  sc_kept :: nat
  sc_nd :: nat
  sc_dp :: int
  sc_dpk :: int
  sc_dot :: bool
  sc_digits :: bool
  sc_under :: bool

definition scan0 :: scan where
  "scan0 = \<lparr>sc_mant = 0, sc_kept = 0, sc_nd = 0, sc_dp = 0, sc_dpk = 0,
            sc_dot = False, sc_digits = False, sc_under = False\<rparr>"

definition keepDigit :: "int \<Rightarrow> nat \<Rightarrow> int \<Rightarrow> scan \<Rightarrow> scan" where
  "keepDigit base cap v st =
     (if sc_kept st < cap
      then st\<lparr>sc_digits := True, sc_nd := sc_nd st + 1,
              sc_mant := sc_mant st * base + v, sc_kept := sc_kept st + 1\<rparr>
      else st\<lparr>sc_digits := True, sc_nd := sc_nd st + 1\<rparr>)"

fun mantissaLoop :: "bool \<Rightarrow> nat \<Rightarrow> scan \<Rightarrow> string \<Rightarrow> scan \<times> string" where
  "mantissaLoop hex cap st [] = (st, [])"
| "mantissaLoop hex cap st (c # cs) =
     (if c = CHR ''_'' then mantissaLoop hex cap (st\<lparr>sc_under := True\<rparr>) cs
      else if c = CHR ''.'' then
        (if sc_dot st then (st, c # cs)
         else mantissaLoop hex cap
                (st\<lparr>sc_dot := True, sc_dp := int (sc_nd st), sc_dpk := int (sc_kept st)\<rparr>) cs)
      else if isDigit c then
        (if c = CHR ''0'' \<and> sc_nd st = 0
         then mantissaLoop hex cap
                (st\<lparr>sc_digits := True, sc_dp := sc_dp st - 1, sc_dpk := sc_dpk st - 1\<rparr>) cs
         else mantissaLoop hex cap
                (keepDigit (if hex then 16 else 10) cap (digitVal c) st) cs)
      else if hex \<and> isHexLetter c then
        mantissaLoop hex cap (keepDigit 16 cap (hexLetterVal c) st) cs
      else (st, c # cs))"

text \<open>The exponent after its letter: an optional sign, then a digit, then digits and
  underscores; the value stops growing once it has reached 10000. The result is the signed
  exponent, whether an underscore was seen, and the text left.\<close>

definition readExp :: "string \<Rightarrow> (int \<times> bool \<times> string) option" where
  "readExp s =
     (if s = [] then None
      else let esign = (if hd s = CHR ''-'' then - 1 else 1);
               ds = (if hd s = CHR ''+'' \<or> hd s = CHR ''-'' then tl s else s)
           in if ds = [] \<or> \<not> isDigit (hd ds) then None
              else let run = takeWhile (\<lambda>c. isDigit c \<or> c = CHR ''_'') ds;
                       e = foldl (\<lambda>e c. if c = CHR ''_'' then e
                                          else if e < 10000 then e * 10 + digitVal c else e) 0 run
                   in Some (esign * e, CHR ''_'' \<in> set run,
                            dropWhile (\<lambda>c. isDigit c \<or> c = CHR ''_'') ds))"

text \<open>\<open>underscoreOK\<close>: an underscore must stand between two digits, or between a base prefix
  and a digit.\<close>

fun underscoreLoop :: "bool \<Rightarrow> char \<Rightarrow> string \<Rightarrow> bool" where
  "underscoreLoop hex saw [] = (saw \<noteq> CHR ''_'')"
| "underscoreLoop hex saw (c # cs) =
     (if isDigit c \<or> (hex \<and> isHexLetter c) then underscoreLoop hex (CHR ''0'') cs
      else if c = CHR ''_'' then (if saw \<noteq> CHR ''0'' then False else underscoreLoop hex (CHR ''_'') cs)
      else if saw = CHR ''_'' then False
      else underscoreLoop hex (CHR ''!'') cs)"

definition underscoreOK :: "string \<Rightarrow> bool" where
  "underscoreOK s =
     (let s1 = (if take 1 s = ''-'' \<or> take 1 s = ''+'' then drop 1 s else s);
          pre = (2 \<le> length s1 \<and> hd s1 = CHR ''0'' \<and>
                 s1 ! 1 \<in> set [CHR ''b'', CHR ''B'', CHR ''o'', CHR ''O'', CHR ''x'', CHR ''X'']);
          hex = (pre \<and> (s1 ! 1 = CHR ''x'' \<or> s1 ! 1 = CHR ''X''))
      in underscoreLoop hex (if pre then CHR ''0'' else CHR ''^'') (if pre then drop 2 s1 else s1))"

text \<open>\<open>readFloat\<close>: an optional sign, the prefix \<open>0x\<close> of a hexadecimal mantissa (only when
  something follows it), the mantissa with at least one digit, and the exponent, which a
  hexadecimal mantissa must have. The result is whether the number is hexadecimal, the
  digits read, the exponent and the text left.\<close>

definition readFloat :: "string \<Rightarrow> (bool \<times> scan \<times> int \<times> string) option" where
  "readFloat s =
     (if s = [] then None
      else let s1 = (if hd s = CHR ''+'' \<or> hd s = CHR ''-'' then tl s else s);
               hex = (2 < length s1 \<and> hd s1 = CHR ''0'' \<and> (s1 ! 1 = CHR ''x'' \<or> s1 ! 1 = CHR ''X''));
               r = mantissaLoop hex (if hex then 16 else 800) scan0 (if hex then drop 2 s1 else s1);
               st = (if sc_dot (fst r) then fst r
                     else (fst r)\<lparr>sc_dp := int (sc_nd (fst r)), sc_dpk := int (sc_kept (fst r))\<rparr>);
               s3 = snd r
           in if \<not> sc_digits st then None
              else if s3 \<noteq> [] \<and> (if hex then hd s3 = CHR ''p'' \<or> hd s3 = CHR ''P''
                                  else hd s3 = CHR ''e'' \<or> hd s3 = CHR ''E'') then
                (case readExp (tl s3) of
                   None \<Rightarrow> None
                 | Some (e, u, s4) \<Rightarrow>
                     if (sc_under st \<or> u) \<and> \<not> underscoreOK (take (length s - length s4) s) then None
                     else Some (hex, st, e, s4))
              else if hex then None
              else if sc_under st \<and> \<not> underscoreOK (take (length s - length s3) s) then None
              else Some (hex, st, 0, s3))"

text \<open>
  A finite \<open>float64\<close> is below \<open>2 ^ 1024\<close>, and rounding to nearest (ties to even) reaches
  \<open>2 ^ 1024\<close> from the midpoint \<open>2 ^ 1024 - 2 ^ 970\<close> on. A hexadecimal number is the mantissa
  kept (up to 16 digits) times a power of two. A decimal number overflows only on the slow
  path, where \<open>floatBits\<close> sees the digits kept by \<open>decimal.set\<close> and their decimal point: it
  answers at once beyond \<open>310\<close> and below \<open>-330\<close>, and rounds the exact value in between. The
  fast paths never return an error and do not answer for a number that overflows.
\<close>

definition overflowBound :: int where
  "overflowBound = 2 ^ 1024 - 2 ^ 970"

definition hexOverflow :: "scan \<Rightarrow> int \<Rightarrow> bool" where
  "hexOverflow st e =
     (let exp = sc_dp st * 4 + e - int (sc_kept st) * 4
      in sc_mant st \<noteq> 0 \<and> 0 \<le> exp \<and> (1024 < exp \<or> overflowBound \<le> sc_mant st * 2 ^ nat exp))"

definition decimalOverflow :: "scan \<Rightarrow> int \<Rightarrow> bool" where
  "decimalOverflow st e =
     (let dp = sc_dpk st + e; k = int (sc_kept st)
      in if sc_kept st = 0 then False
         else if 310 < dp then True
         else if dp < - 330 then False
         else if k \<le> dp then overflowBound \<le> sc_mant st * 10 ^ nat (dp - k)
         else overflowBound * 10 ^ nat (k - dp) \<le> sc_mant st)"

definition ParseFloatOk :: "string \<Rightarrow> bool" where
  "ParseFloatOk s =
     (case special s of
        Some n \<Rightarrow> n = length s
      | None \<Rightarrow>
          (case readFloat s of
             None \<Rightarrow> False
           | Some (hex, st, e, rest) \<Rightarrow>
               rest = [] \<and> \<not> (if hex then hexOverflow st e else decimalOverflow st e)))"

section \<open>The WITH-clause options (\<open>stmt.go\<close>)\<close>

text \<open>\<open>OptStrings\<close> and the map \<open>withOpts\<close> of a statement.\<close>

type_synonym OptStrings = "string list"

type_synonym withOpts = "string \<rightharpoonup> OptStrings"

definition StringAt :: "OptStrings \<Rightarrow> nat \<Rightarrow> string" where
  "StringAt s i = (if i < length s then s ! i else [])"

definition FirstString :: "OptStrings \<Rightarrow> string" where
  "FirstString s = StringAt s 0"

text \<open>Indexing the map, \<open>s.withOpts[k]\<close>: a missing key reads as the nil slice.\<close>

definition opt :: "withOpts \<Rightarrow> string \<Rightarrow> OptStrings" where
  "opt m k = (case m k of None \<Rightarrow> [] | Some vs \<Rightarrow> vs)"

text \<open>
  The pattern \<open>reWithOpts\<close>, matched where its anchor \<open>^\<close> holds:

  \<^verbatim>\<open>(\s+|\s*,\s+|\s+,\s*)WITH\s+([\w\-]+)\s*=\s*([\w/\.\*,;:'"-]+)\<close>

  Each piece of the pattern is a function from the text to the text left after it (or
  \<open>None\<close> when the piece does not match). The three alternatives of the separator are
  white space around at most one comma, with at least one white-space character; every
  piece after it is a greedy run over a class disjoint from what follows, so no shorter
  run can match and the match is unique.
\<close>

definition matchSep :: "string \<Rightarrow> string option" where
  "matchSep s =
     (let w1 = spaces s; s1 = drop w1 s;
          comma = (take 1 s1 = '','');
          s2 = (if comma then drop 1 s1 else s1);
          w2 = (if comma then spaces s2 else 0)
      in if w1 = 0 \<and> w2 = 0 then None else Some (drop w2 s2))"

definition matchWITH :: "string \<Rightarrow> string option" where
  "matchWITH s = (if map upperByte (take 4 s) = ''WITH'' then Some (drop 4 s) else None)"

definition matchSpaces1 :: "string \<Rightarrow> string option" where
  "matchSpaces1 s = (if spaces s = 0 then None else Some (drop (spaces s) s))"

definition skipSpaces :: "string \<Rightarrow> string" where
  "skipSpaces s = drop (spaces s) s"

definition matchRun :: "(string \<Rightarrow> nat) \<Rightarrow> string \<Rightarrow> (string \<times> string) option" where
  "matchRun cls s = (let n = runLen cls s in if n = 0 then None else Some (take n s, drop n s))"

definition matchEq :: "string \<Rightarrow> string option" where
  "matchEq s = (if take 1 s = ''='' then Some (drop 1 s) else None)"

text \<open>The whole pattern: \<open>len(matches[0])\<close>, \<open>matches[2]\<close> and \<open>matches[3]\<close>.\<close>

definition matchWith :: "string \<Rightarrow> (nat \<times> string \<times> string) option" where
  "matchWith s =
     (case matchSep s of None \<Rightarrow> None | Some s1 \<Rightarrow>
      case matchWITH s1 of None \<Rightarrow> None | Some s2 \<Rightarrow>
      case matchSpaces1 s2 of None \<Rightarrow> None | Some s3 \<Rightarrow>
      case matchRun fieldRune s3 of None \<Rightarrow> None | Some (key, s4) \<Rightarrow>
      case matchEq (skipSpaces s4) of None \<Rightarrow> None | Some s5 \<Rightarrow>
      case matchRun valueRune (skipSpaces s5) of None \<Rightarrow> None | Some (val, s6) \<Rightarrow>
        Some (length s - length s6, key, val))"

text \<open>
  \<open>reWithOpts.FindStringSubmatch\<close>: the leftmost match. With the flag \<open>m\<close> the anchor
  \<open>^\<close> holds at the start of the text and after every line feed, so the candidates are
  tried from left to right at those positions. The flag says whether \<open>^\<close> holds here.
\<close>

fun findFrom :: "bool \<Rightarrow> string \<Rightarrow> (nat \<times> string \<times> string) option" where
  "findFrom lineStart [] = None"
| "findFrom lineStart (c # cs) =
     (case (if lineStart then matchWith (c # cs) else None) of
        Some m \<Rightarrow> Some m
      | None \<Rightarrow> findFrom (c = CHR 0x0A) cs)"

definition FindStringSubmatch :: "string \<Rightarrow> (nat \<times> string \<times> string) option" where
  "FindStringSubmatch s = findFrom True s"

lemma matchSep_shorter: "matchSep s = Some r \<Longrightarrow> length r < length s"
  by (cases s) (auto simp: matchSep_def spaces_def Let_def split: if_splits)

lemma matchWITH_le: "matchWITH s = Some r \<Longrightarrow> length r \<le> length s"
  by (auto simp: matchWITH_def split: if_splits)

lemma matchSpaces1_le: "matchSpaces1 s = Some r \<Longrightarrow> length r \<le> length s"
  by (auto simp: matchSpaces1_def split: if_splits)

lemma matchRun_le: "matchRun cls s = Some (a, r) \<Longrightarrow> length r \<le> length s"
  by (auto simp: matchRun_def Let_def split: if_splits)

lemma matchEq_le: "matchEq s = Some r \<Longrightarrow> length r \<le> length s"
  by (auto simp: matchEq_def split: if_splits)

lemma skipSpaces_le: "length (skipSpaces s) \<le> length s"
  by (simp add: skipSpaces_def)

lemma matchWith_pos:
  assumes "matchWith s = Some (n, k, v)"
  shows "0 < n \<and> s \<noteq> []"
proof -
  from assms obtain s1 s2 s3 s4 s5 s6 where
    st: "matchSep s = Some s1" "matchWITH s1 = Some s2" "matchSpaces1 s2 = Some s3"
      "matchRun fieldRune s3 = Some (k, s4)" "matchEq (skipSpaces s4) = Some s5"
      "matchRun valueRune (skipSpaces s5) = Some (v, s6)" and n: "n = length s - length s6"
    by (auto simp: matchWith_def split: option.splits)
  have "length s6 \<le> length s5"
    using matchRun_le [OF st(6)] skipSpaces_le [of s5] by linarith
  also have "\<dots> \<le> length s4"
    using matchEq_le [OF st(5)] skipSpaces_le [of s4] by linarith
  also have "\<dots> \<le> length s1"
    using matchRun_le [OF st(4)] matchSpaces1_le [OF st(3)] matchWITH_le [OF st(2)] by linarith
  also have "\<dots> < length s" by (rule matchSep_shorter [OF st(1)])
  finally show ?thesis using n by auto
qed

lemma findFrom_shrinks: "findFrom b s = Some (n, k, v) \<Longrightarrow> 0 < n \<and> s \<noteq> []"
proof (induction b s rule: findFrom.induct)
  case (1 lineStart)
  then show ?case by simp
next
  case (2 lineStart c cs)
  show ?case
  proof (cases "(if lineStart then matchWith (c # cs) else None)")
    case None
    with 2 show ?thesis by simp
  next
    case (Some m)
    with "2.prems" have "matchWith (c # cs) = Some (n, k, v)" by (simp split: if_splits)
    then show ?thesis using matchWith_pos by blast
  qed
qed

text \<open>
  The map update \<open>s.withOpts[k] = append(s.withOpts[k], v)\<close> and the loop of
  \<open>parseWithOpts\<close>; the slice \<open>withOptsStr[len(matches[0]):]\<close> drops that many bytes from
  the start of the text, wherever the match was found.
\<close>

definition appendOpt :: "withOpts \<Rightarrow> string \<Rightarrow> string \<Rightarrow> withOpts" where
  "appendOpt m k v = m(k \<mapsto> opt m k @ [v])"

function parseLoop :: "string \<Rightarrow> withOpts \<Rightarrow> withOpts" where
  "parseLoop withOptsStr m =
     (case FindStringSubmatch withOptsStr of
        None \<Rightarrow> m
      | Some (n, key, val) \<Rightarrow>
          parseLoop (drop n withOptsStr)
            (appendOpt m (TrimSpace (ToUpper key)) (TrimSuffixComma (TrimSpace val))))"
  by pat_completeness auto
termination
proof (relation "measure (\<lambda>(s, m). length s)")
  show "wf (measure (\<lambda>(s, m). length s))" by simp
next
  fix withOptsStr :: string and m :: withOpts and x2 n y key val
  assume "FindStringSubmatch withOptsStr = Some x2" "(n, y) = x2" "(key, val) = y"
  then have "findFrom True withOptsStr = Some (n, key, val)"
    by (simp add: FindStringSubmatch_def)
  then have "0 < n \<and> withOptsStr \<noteq> []" by (rule findFrom_shrinks)
  then show "((drop n withOptsStr,
        appendOpt m (TrimSpace (ToUpper key)) (TrimSuffixComma (TrimSpace val))), withOptsStr, m)
      \<in> measure (\<lambda>(s, m). length s)"
    by simp
qed

text \<open>\<open>Stmt.parseWithOpts\<close> starts from the empty map and has one return, \<open>nil\<close>:
  the result is the error (never set) and the map left in \<open>s.withOpts\<close>. The errors are
  those that \<open>parse\<close> and \<open>validate\<close> of a \<open>CREATE TABLE\<close> statement build.\<close>

datatype parse_error =
    NoPartitionKey
  | InvalidPKType string
  | InvalidSKType string
  | LSIEmptyFieldName string
  | InvalidLSIType string string
  | InvalidRCU OptStrings
  | InvalidWCU OptStrings
  | TableNameMissing

declare parseLoop.simps [simp del]

definition parseWithOpts :: "string \<Rightarrow> parse_error option \<times> withOpts" where
  "parseWithOpts withOptsStr = (None, parseLoop withOptsStr Map.empty)"

subsection \<open>The contract of the option parser, in the words of the specification\<close>

text \<open>
  The specification describes the parser as one that repeatedly matches the \<^emph>\<open>leading\<close>
  \<open>WITH key=value\<close> token, upper-cases the key, strips a trailing comma from the value,
  appends the value to that key's sequence and advances past the matched prefix, until no
  further match exists. \<open>spec_tokens\<close> is the sequence of (key, value) pairs so read,
  \<open>spec_rest\<close> the unmatched trailing text, and \<open>multimap_of\<close> the ordered multimap of a
  sequence of pairs: the values of a key, in the order of the sequence.
\<close>

function spec_tokens :: "string \<Rightarrow> (string \<times> string) list" where
  "spec_tokens s =
     (case matchWith s of
        None \<Rightarrow> []
      | Some (n, key, val) \<Rightarrow> (ToUpper key, TrimSuffixComma val) # spec_tokens (drop n s))"
  by pat_completeness auto
termination
proof (relation "measure length")
  show "wf (measure length)" by simp
next
  fix s :: string and x2 n y key val
  assume "matchWith s = Some x2" "(n, y) = x2" "(key, val) = y"
  then have "matchWith s = Some (n, key, val)" by simp
  then have "0 < n \<and> s \<noteq> []" by (rule matchWith_pos)
  then show "(drop n s, s) \<in> measure length" by simp
qed

function spec_rest :: "string \<Rightarrow> string" where
  "spec_rest s =
     (case matchWith s of
        None \<Rightarrow> s
      | Some (n, key, val) \<Rightarrow> spec_rest (drop n s))"
  by pat_completeness auto
termination
proof (relation "measure length")
  show "wf (measure length)" by simp
next
  fix s :: string and x2 n y key val
  assume "matchWith s = Some x2" "(n, y) = x2" "(key, val) = y"
  then have "matchWith s = Some (n, key, val)" by simp
  then have "0 < n \<and> s \<noteq> []" by (rule matchWith_pos)
  then show "(drop n s, s) \<in> measure length" by simp
qed

declare spec_tokens.simps [simp del] spec_rest.simps [simp del]

definition multimap_of :: "(string \<times> string) list \<Rightarrow> withOpts" where
  "multimap_of kvs k =
     (let vs = map snd (filter (\<lambda>kv. fst kv = k) kvs) in if vs = [] then None else Some vs)"


text \<open>The map after appending a sequence of pairs one by one, as the loop does.\<close>

definition addTokens :: "withOpts \<Rightarrow> (string \<times> string) list \<Rightarrow> withOpts" where
  "addTokens m kvs = foldl (\<lambda>m kv. appendOpt m (fst kv) (snd kv)) m kvs"


text \<open>A string without white space (in the sense of \<open>strings.TrimSpace\<close>).\<close>

definition spaceFree :: "string \<Rightarrow> bool" where
  "spaceFree s \<longleftrightarrow> (\<forall>c \<in> set s. \<not> isTrimSpace c)"

section \<open>CREATE TABLE (\<open>stmt_table.go\<close>)\<close>

record lsiDef =
  indexName :: string
  fieldName :: string
  fieldType :: string
  projectedFields :: string

text \<open>
  \<open>StmtCreateTable\<close> with the fields of the embedded \<open>Stmt\<close> that the statement uses
  (\<open>query\<close>, \<open>withOpts\<close>). \<open>rcu\<close> and \<open>wcu\<close> are \<open>int64\<close>; the only values stored are
  results of \<open>strconv.ParseInt\<close>, which are in range, and no arithmetic is done on them.
\<close>

record StmtCreateTable =
  query :: string
  withOpts :: withOpts
  tableName :: string
  ifNotExists :: bool
  pkName :: string
  pkType :: string
  skName :: string
  skType :: string
  rcu :: int
  wcu :: int
  lsi :: "lsiDef list"
  withOptsStr :: string

text \<open>
  The statement as \<open>parseQuery\<close> builds it from the groups of \<open>reCreateTable\<close>
  (\<open>groups[0][1]\<close>, \<open>groups[0][2]\<close>, \<open>groups[0][3]\<close>); every other field has its zero value.
\<close>

definition newStmtCreateTable :: "string \<Rightarrow> string \<Rightarrow> string \<Rightarrow> string \<Rightarrow> StmtCreateTable" where
  "newStmtCreateTable q g1 g2 g3 =
     \<lparr>query = q, withOpts = Map.empty, tableName = TrimSpace g2,
      ifNotExists = (TrimSpace g1 \<noteq> []),
      pkName = [], pkType = [], skName = [], skType = [], rcu = 0, wcu = 0, lsi = [],
      withOptsStr = '' '' @ TrimSpace g3\<rparr>"

text \<open>
  The package-level tables \<open>dataTypes\<close> (type tag to \<open>ScalarAttributeType\<close>) and \<open>keyTypes\<close>
  (name to \<open>KeyType\<close>) are declared outside the files at hand; \<open>parse\<close> and \<open>Exec\<close> take them
  as a parameter. Both value types are string types, and indexing with a missing key reads
  the empty string.
\<close>

record tables =
  dataTypes :: "string \<rightharpoonup> string"
  keyTypes :: "string \<rightharpoonup> string"

definition lookup :: "(string \<rightharpoonup> string) \<Rightarrow> string \<Rightarrow> string" where
  "lookup m k = (case m k of None \<Rightarrow> [] | Some v \<Rightarrow> v)"

text \<open>Modelled from the spec: the contents of the \<open>dataTypes\<close> and \<open>keyTypes\<close> tables, which
  are not in the files at hand. The specification names three scalar kinds, binary, number
  and string (the error messages of \<open>parse\<close> list \<open>BINARY\<close>, \<open>NUMBER\<close> and \<open>STRING\<close>), and
  writes them in its statements by the one-letter tag of the store as well (\<open>PK=id:S\<close>,
  \<open>LSI=idx2:f2:N:*\<close>): the table holds each kind under both spellings, with the
  \<open>ScalarAttributeType\<close> of the store (\<open>B\<close>, \<open>N\<close>, \<open>S\<close>) as its value. A key is a partition
  (\<open>HASH\<close>) or a sort (\<open>RANGE\<close>) key.\<close>

definition specTables :: tables where
  "specTables =
     \<lparr>dataTypes = [''BINARY'' \<mapsto> ''B'', ''B'' \<mapsto> ''B'', ''NUMBER'' \<mapsto> ''N'', ''N'' \<mapsto> ''N'',
                   ''STRING'' \<mapsto> ''S'', ''S'' \<mapsto> ''S''],
      keyTypes = [''HASH'' \<mapsto> ''HASH'', ''RANGE'' \<mapsto> ''RANGE'']\<rparr>"

subsection \<open>\<open>StmtCreateTable.parse\<close>\<close>

text \<open>The partition key: \<open>pkTokens\<close>, the two assignments and the two checks.
  \<open>SplitN\<close> with a positive count gives at least one piece, so \<open>pkTokens[0]\<close> is in range.\<close>

definition parsePK :: "tables \<Rightarrow> StmtCreateTable \<Rightarrow> parse_error + StmtCreateTable" where
  "parsePK T s =
     (let pkTokens = SplitN 2 (FirstString (opt (withOpts s) ''PK''));
          s1 = s\<lparr>pkName := TrimSpace (pkTokens ! 0)\<rparr>;
          s2 = (if 1 < length pkTokens
                then s1\<lparr>pkType := TrimSpace (ToUpper (pkTokens ! 1))\<rparr> else s1)
      in if pkName s2 = [] then Inl NoPartitionKey
         else if dataTypes T (pkType s2) = None then Inl (InvalidPKType (pkType s2))
         else Inr s2)"

text \<open>The sort key: the type is checked only when the name is not empty.\<close>

definition parseSK :: "tables \<Rightarrow> StmtCreateTable \<Rightarrow> parse_error + StmtCreateTable" where
  "parseSK T s =
     (let skTokens = SplitN 2 (FirstString (opt (withOpts s) ''SK''));
          s1 = s\<lparr>skName := TrimSpace (skTokens ! 0)\<rparr>;
          s2 = (if 1 < length skTokens
                then s1\<lparr>skType := TrimSpace (ToUpper (skTokens ! 1))\<rparr> else s1)
      in if dataTypes T (skType s2) = None \<and> skName s2 \<noteq> [] then Inl (InvalidSKType (skType s2))
         else Inr s2)"

text \<open>One definition of a local secondary index, as the body of the loop builds it from
  \<open>lsiStr\<close>, and the loop over \<open>s.withOpts["LSI"]\<close>, which appends to \<open>s.lsi\<close>.\<close>

definition lsiOf :: "string \<Rightarrow> lsiDef" where
  "lsiOf lsiStr =
     (let lsiTokens = SplitN 4 lsiStr;
          d0 = \<lparr>indexName = TrimSpace (lsiTokens ! 0), fieldName = [], fieldType = [],
                projectedFields = []\<rparr>;
          d1 = (if 1 < length lsiTokens then d0\<lparr>fieldName := TrimSpace (lsiTokens ! 1)\<rparr> else d0);
          d2 = (if 2 < length lsiTokens
                then d1\<lparr>fieldType := TrimSpace (ToUpper (lsiTokens ! 2))\<rparr> else d1)
      in if 3 < length lsiTokens then d2\<lparr>projectedFields := TrimSpace (lsiTokens ! 3)\<rparr> else d2)"

fun parseLSI :: "tables \<Rightarrow> string list \<Rightarrow> lsiDef list \<Rightarrow> parse_error + lsiDef list" where
  "parseLSI T [] acc = Inr acc"
| "parseLSI T (lsiStr # rest) acc =
     (let d = lsiOf lsiStr
      in if indexName d \<noteq> [] \<and> fieldName d = [] then Inl (LSIEmptyFieldName (indexName d))
         else if indexName d \<noteq> [] \<and> dataTypes T (fieldType d) = None
           then Inl (InvalidLSIType (fieldType d) (indexName d))
         else parseLSI T rest (acc @ [d]))"

text \<open>The read and the write capacity units.\<close>

definition parseRCU :: "StmtCreateTable \<Rightarrow> parse_error + StmtCreateTable" where
  "parseRCU s =
     (case withOpts s ''RCU'' of
        None \<Rightarrow> Inr s
      | Some vs \<Rightarrow>
          (case ParseInt (FirstString vs) of
             None \<Rightarrow> Inl (InvalidRCU vs)
           | Some n \<Rightarrow> if n \<le> 0 then Inl (InvalidRCU vs) else Inr (s\<lparr>rcu := n\<rparr>)))"

definition parseWCU :: "StmtCreateTable \<Rightarrow> parse_error + StmtCreateTable" where
  "parseWCU s =
     (case withOpts s ''WCU'' of
        None \<Rightarrow> Inr s
      | Some vs \<Rightarrow>
          (case ParseInt (FirstString vs) of
             None \<Rightarrow> Inl (InvalidWCU vs)
           | Some n \<Rightarrow> if n \<le> 0 then Inl (InvalidWCU vs) else Inr (s\<lparr>wcu := n\<rparr>)))"

text \<open>\<open>parse\<close>: the blocks in the order of the source; the first error returns.\<close>

definition parse :: "tables \<Rightarrow> StmtCreateTable \<Rightarrow> parse_error + StmtCreateTable" where
  "parse T s =
     (case parseWithOpts (withOptsStr s) of
        (Some err, m) \<Rightarrow> Inl err
      | (None, m) \<Rightarrow>
          (case parsePK T (s\<lparr>withOpts := m\<rparr>) of Inl e \<Rightarrow> Inl e | Inr s1 \<Rightarrow>
           case parseSK T s1 of Inl e \<Rightarrow> Inl e | Inr s2 \<Rightarrow>
           case parseLSI T (opt (withOpts s2) ''LSI'') (lsi s2) of Inl e \<Rightarrow> Inl e | Inr l \<Rightarrow>
           case parseRCU (s2\<lparr>lsi := l\<rparr>) of Inl e \<Rightarrow> Inl e | Inr s3 \<Rightarrow>
           parseWCU s3))"

text \<open>\<open>validate\<close>, and the branch of \<open>parseQuery\<close> for a text that \<open>reCreateTable\<close> matches, with
  the groups \<open>groups[0][1]\<close>, \<open>groups[0][2]\<close> and \<open>groups[0][3]\<close> of the match: no statement is
  returned when \<open>parse\<close> fails; otherwise the statement is returned with the error of
  \<open>validate\<close>. A prepared statement is one returned without an error.\<close>

definition validate :: "StmtCreateTable \<Rightarrow> parse_error option" where
  "validate s = (if tableName s = [] then Some TableNameMissing else None)"

definition prepareCreateTable ::
  "tables \<Rightarrow> string \<Rightarrow> string \<Rightarrow> string \<Rightarrow> string
     \<Rightarrow> StmtCreateTable option \<times> parse_error option" where
  "prepareCreateTable T q g1 g2 g3 =
     (case parse T (newStmtCreateTable q g1 g2 g3) of
        Inl err \<Rightarrow> (None, Some err)
      | Inr stmt \<Rightarrow> (Some stmt, validate stmt))"

subsection \<open>\<open>StmtCreateTable.Exec\<close>\<close>

record AttributeDefinition =
  AttributeName :: string
  AttributeType :: string

record KeySchemaElement =
  KeyAttributeName :: string
  KeyType :: string

datatype ProjectionType = ProjectionTypeKeysOnly | ProjectionTypeAll | ProjectionTypeInclude

record Projection =
  ProjectionType :: ProjectionType
  NonKeyAttributes :: "string list"

record LocalSecondaryIndex =
  IndexName :: string
  IndexKeySchema :: "KeySchemaElement list"
  Projection :: Projection

datatype BillingMode = BillingModePayPerRequest | BillingModeProvisioned

record ProvisionedThroughput =
  ReadCapacityUnits :: int
  WriteCapacityUnits :: int

text \<open>\<open>dynamodb.CreateTableInput\<close>: a billing mode or a throughput that is not set is \<open>None\<close>.\<close>

record CreateTableInput =
  TableName :: string
  AttributeDefinitions :: "AttributeDefinition list"
  KeySchema :: "KeySchemaElement list"
  LocalSecondaryIndexes :: "LocalSecondaryIndex list"
  BillingMode :: "BillingMode option"
  ProvisionedThroughput :: "ProvisionedThroughput option"

text \<open>\<open>strings.Split(s, ",")\<close>.\<close>

fun Split :: "string \<Rightarrow> string list" where
  "Split [] = [[]]"
| "Split (c # cs) =
     (if c = CHR '','' then [] # Split cs
      else (case Split cs of [] \<Rightarrow> [[c]] | p # ps \<Rightarrow> (c # p) # ps))"

text \<open>The index built for \<open>s.lsi[i]\<close> in the loop of \<open>Exec\<close>.\<close>

definition lsiIndex :: "tables \<Rightarrow> StmtCreateTable \<Rightarrow> lsiDef \<Rightarrow> LocalSecondaryIndex" where
  "lsiIndex T s d =
     \<lparr>IndexName = indexName d,
      IndexKeySchema =
        [\<lparr>KeyAttributeName = pkName s, KeyType = lookup (keyTypes T) ''HASH''\<rparr>,
         \<lparr>KeyAttributeName = fieldName d, KeyType = lookup (keyTypes T) ''RANGE''\<rparr>],
      Projection =
        (if projectedFields d = ''*''
         then \<lparr>ProjectionType = ProjectionTypeAll, NonKeyAttributes = []\<rparr>
         else if projectedFields d \<noteq> []
         then \<lparr>ProjectionType = ProjectionTypeInclude, NonKeyAttributes = Split (projectedFields d)\<rparr>
         else \<lparr>ProjectionType = ProjectionTypeKeysOnly, NonKeyAttributes = []\<rparr>)\<rparr>"

text \<open>The request \<open>input\<close> that \<open>Exec\<close> builds before the remote call.\<close>

definition createTableInput :: "tables \<Rightarrow> StmtCreateTable \<Rightarrow> CreateTableInput" where
  "createTableInput T s =
     \<lparr>TableName = tableName s,
      AttributeDefinitions =
        [\<lparr>AttributeName = pkName s, AttributeType = lookup (dataTypes T) (pkType s)\<rparr>]
        @ (if skName s \<noteq> []
           then [\<lparr>AttributeName = skName s, AttributeType = lookup (dataTypes T) (skType s)\<rparr>]
           else [])
        @ map (\<lambda>d. \<lparr>AttributeName = fieldName d,
                      AttributeType = lookup (dataTypes T) (fieldType d)\<rparr>) (lsi s),
      KeySchema =
        [\<lparr>KeyAttributeName = pkName s, KeyType = lookup (keyTypes T) ''HASH''\<rparr>]
        @ (if skName s \<noteq> []
           then [\<lparr>KeyAttributeName = skName s, KeyType = lookup (keyTypes T) ''RANGE''\<rparr>]
           else []),
      LocalSecondaryIndexes = map (lsiIndex T s) (lsi s),
      BillingMode = (if rcu s = 0 \<and> wcu s = 0 then Some BillingModePayPerRequest else None),
      ProvisionedThroughput =
        (if rcu s = 0 \<and> wcu s = 0 then None
         else Some \<lparr>ReadCapacityUnits = rcu s, WriteCapacityUnits = wcu s\<rparr>)\<rparr>"

text \<open>An error of the remote service: an AWS error with its code, or any other failure.\<close>

datatype remote_error = AwsError string | OtherError string

text \<open>Modelled from the spec: \<open>IsAwsError\<close>, which is not in the files at hand. It holds when
  the call failed with the named remote error condition.\<close>

definition IsAwsError :: "remote_error option \<Rightarrow> string \<Rightarrow> bool" where
  "IsAwsError err awsErrCode = (case err of Some (AwsError c) \<Rightarrow> c = awsErrCode | _ \<Rightarrow> False)"

record ResultCreateTable =
  Successful :: bool

definition RowsAffected :: "ResultCreateTable \<Rightarrow> int \<times> remote_error option" where
  "RowsAffected r = (if Successful r then (1, None) else (0, None))"

text \<open>\<open>Exec\<close>: \<open>client\<close> is the remote call \<open>s.conn.client.CreateTable\<close>, a function from the
  request to its error (\<open>None\<close> is \<open>nil\<close>). The result is computed from the error of the
  call before the error is masked.\<close>

definition Exec ::
  "tables \<Rightarrow> (CreateTableInput \<Rightarrow> remote_error option) \<Rightarrow> StmtCreateTable
     \<Rightarrow> ResultCreateTable \<times> remote_error option" where
  "Exec T client s =
     (let input = createTableInput T s;
          err = client input;
          result = \<lparr>Successful = (err = None)\<rparr>;
          err' = (if ifNotExists s \<and> IsAwsError err ''ResourceInUseException'' then None else err)
      in (result, err'))"


text \<open>An example remote service that holds the tables named: creating one of them again fails
  with \<open>ResourceInUseException\<close>.\<close>

definition demoTables :: "string list \<Rightarrow> CreateTableInput \<Rightarrow> remote_error option" where
  "demoTables existing input =
     (if TableName input \<in> set existing then Some (AwsError ''ResourceInUseException'') else None)"

subsection \<open>What the text of a statement asks for\<close>

text \<open>
  The options of a statement as \<open>parse\<close> reads them from \<open>withOptsStr\<close>; the name and the
  type tag of a key option (the text before the first colon, and the upper-cased text after
  it); the values of the \<open>LSI\<close> options in the order of declaration.
\<close>

definition optsOf :: "StmtCreateTable \<Rightarrow> withOpts" where
  "optsOf s = snd (parseWithOpts (withOptsStr s))"

definition keyOf :: "string \<Rightarrow> string \<times> string" where
  "keyOf v =
     (let ts = SplitN 2 v
      in (TrimSpace (ts ! 0), if 1 < length ts then TrimSpace (ToUpper (ts ! 1)) else []))"

definition pkOpt :: "StmtCreateTable \<Rightarrow> string \<times> string" where
  "pkOpt s = keyOf (FirstString (opt (optsOf s) ''PK''))"

definition skOpt :: "StmtCreateTable \<Rightarrow> string \<times> string" where
  "skOpt s = keyOf (FirstString (opt (optsOf s) ''SK''))"

definition lsiOpts :: "StmtCreateTable \<Rightarrow> string list" where
  "lsiOpts s = opt (optsOf s) ''LSI''"

text \<open>The capacity \<open>n\<close> that the option \<open>k\<close> gives: 0 when the option is absent, the
  integer of its first value otherwise.\<close>

definition given :: "withOpts \<Rightarrow> string \<Rightarrow> int \<Rightarrow> bool" where
  "given m k n = (case m k of None \<Rightarrow> n = 0 | Some vs \<Rightarrow> ParseInt (FirstString vs) = Some n)"

text \<open>The checks of the loop over the \<open>LSI\<close> options, and of a capacity option.\<close>

definition lsiOk :: "tables \<Rightarrow> string \<Rightarrow> bool" where
  "lsiOk T v \<longleftrightarrow> indexName (lsiOf v) = [] \<or>
     (fieldName (lsiOf v) \<noteq> [] \<and> dataTypes T (fieldType (lsiOf v)) \<noteq> None)"

definition capOk :: "withOpts \<Rightarrow> string \<Rightarrow> bool" where
  "capOk m k \<longleftrightarrow> (case m k of None \<Rightarrow> True
     | Some vs \<Rightarrow> (case ParseInt (FirstString vs) of None \<Rightarrow> False | Some n \<Rightarrow> 0 < n))"

section \<open>The connection and its transaction (\<open>Conn\<close>)\<close>

datatype txMode = txNone | txStarted | txCommitting | txRollingBack

text \<open>The native attribute values of the store, and an item: a map from attribute names to
  values, written as the list of its entries (each key once).\<close>

datatype AttributeValue =
    AttributeValueMemberB string
  | AttributeValueMemberBOOL bool
  | AttributeValueMemberBS "string list"
  | AttributeValueMemberL "AttributeValue list"
  | AttributeValueMemberM "(string \<times> AttributeValue) list"
  | AttributeValueMemberN string
  | AttributeValueMemberNS "string list"
  | AttributeValueMemberNULL bool
  | AttributeValueMemberS string
  | AttributeValueMemberSS "string list"

type_synonym Item = "(string \<times> AttributeValue) list"

text \<open>The records of the remote interface that the code reads or writes. A capacity record
  and the metadata of a response are opaque to the code.\<close>

datatype ConsumedCapacity = Capacity string

datatype Metadata = Metadata string

record ExecuteStatementOutput =
  ConsumedCapacity :: "ConsumedCapacity option"
  Items :: "Item list"
  NextToken :: "string option"
  ResultMetadata :: Metadata

record ItemResponse =
  Item :: Item

record ExecuteTransactionOutput =
  TxConsumedCapacity :: "ConsumedCapacity list"
  Responses :: "ItemResponse list"
  TxResultMetadata :: Metadata

record ParameterizedStatement =
  Statement :: string
  Parameters :: "AttributeValue list"

record ExecuteTransactionInput =
  TransactStatements :: "ParameterizedStatement list"
  ReturnConsumedCapacity :: string

text \<open>The errors of the connection: the five package errors, the wrapped error of the value
  codec (ordinal of the parameter, statement text, message) and an error of the remote call.\<close>

datatype conn_error =
    ErrInTx
  | ErrInvalidTxStage
  | ErrNoTx
  | ErrTxCommitting
  | ErrTxRollingBack
  | ErrMarshal nat string string
  | ErrRemote remote_error

text \<open>
  \<open>txStmt\<close>: the statement (its query text), the bound values and the output (the fields
  \<open>stmt\<close>, \<open>values\<close> and \<open>output\<close>). The queue
  \<open>txStmtList\<close> holds pointers to such objects, and the wrapper that \<open>executeContext\<close> returns
  reads the same object later; so the objects live in a heap, addressed by numbers, and the
  queue is a list of addresses. \<open>'v\<close> is the type of a bound value (\<open>driver.Value\<close>).
\<close>

type_synonym addr = nat

record 'v txStmt =
  stmt_query :: string
  stmt_values :: "'v list"
  stmt_output :: "ExecuteStatementOutput option"

datatype Tx = Tx

record Conn =
  tx :: "Tx option"
  txMode :: txMode
  txStmtList :: "addr list"

text \<open>The state that the methods of a connection act on: the connection, the heap of
  statement objects with the next free address, and the log of the requests sent to
  \<open>ExecuteTransaction\<close> (the remote calls made so far).\<close>

record 'v world =
  conn :: Conn
  heap :: "addr \<Rightarrow> 'v txStmt"
  nextAddr :: addr
  calls :: "ExecuteTransactionInput list"

text \<open>A connection that has just been opened: no transaction, nothing allocated, no call made.\<close>

definition newWorld :: "'v world" where
  "newWorld =
     \<lparr>conn = \<lparr>tx = None, txMode = txNone, txStmtList = []\<rparr>,
      heap = (\<lambda>a. \<lparr>stmt_query = [], stmt_values = [], stmt_output = None\<rparr>),
      nextAddr = 0, calls = []\<rparr>"

text \<open>\<open>BeginTx\<close>: the transaction handle returned and the error.\<close>

definition BeginTx :: "'v world \<Rightarrow> (Tx option \<times> conn_error option) \<times> 'v world" where
  "BeginTx w =
     (if tx (conn w) = None
      then ((Some Tx, None),
            w\<lparr>conn := (conn w)\<lparr>tx := Some Tx, txMode := txStarted, txStmtList := []\<rparr>\<rparr>)
      else ((tx (conn w), Some ErrInTx), w))"

text \<open>
  \<open>executeContext\<close>. With a started transaction it allocates a \<open>txStmt\<close>, appends its
  address to the queue and returns the wrapper (here the address it will read) together
  with \<open>ErrInTx\<close>; while committing or rolling back it fails. The rest of the function, the
  direct execution outside a transaction, is the parameter \<open>direct\<close>.
\<close>

definition executeContext ::
  "(string \<Rightarrow> 'v list \<Rightarrow> 'v world \<Rightarrow> (addr option \<times> conn_error option) \<times> 'v world)
     \<Rightarrow> string \<Rightarrow> 'v list \<Rightarrow> 'v world \<Rightarrow> (addr option \<times> conn_error option) \<times> 'v world" where
  "executeContext direct q vs w =
     (if txMode (conn w) = txStarted
      then let a = nextAddr w
           in ((Some a, Some ErrInTx),
               w\<lparr>heap := (heap w)(a := \<lparr>stmt_query = q, stmt_values = vs, stmt_output = None\<rparr>),
                  nextAddr := Suc a,
                  conn := (conn w)\<lparr>txStmtList := txStmtList (conn w) @ [a]\<rparr>\<rparr>)
      else if txMode (conn w) \<noteq> txNone then ((None, Some ErrInvalidTxStage), w)
      else direct q vs w)"

text \<open>
  \<open>commit\<close>. \<open>codec\<close> is \<open>ToAttributeValue\<close> (\<open>Inl\<close> its error), \<open>remote\<close> the call
  \<open>c.client.ExecuteTransaction\<close>. First the inner loop over the values of one statement, with
  the index \<open>j\<close>; then the loop over the queue.
\<close>

fun marshalParams ::
  "('v \<Rightarrow> string + AttributeValue) \<Rightarrow> nat \<Rightarrow> 'v list \<Rightarrow> (nat \<times> string) + AttributeValue list" where
  "marshalParams codec j [] = Inr []"
| "marshalParams codec j (v # vs) =
     (case codec v of
        Inl e \<Rightarrow> Inl (j + 1, e)
      | Inr a \<Rightarrow> (case marshalParams codec (j + 1) vs of Inl x \<Rightarrow> Inl x | Inr as \<Rightarrow> Inr (a # as)))"

fun txStatements ::
  "('v \<Rightarrow> string + AttributeValue) \<Rightarrow> 'v txStmt list \<Rightarrow> conn_error + ParameterizedStatement list" where
  "txStatements codec [] = Inr []"
| "txStatements codec (t # ts) =
     (case marshalParams codec 0 (stmt_values t) of
        Inl (j, e) \<Rightarrow> Inl (ErrMarshal j (stmt_query t) e)
      | Inr params \<Rightarrow>
          (case txStatements codec ts of
             Inl x \<Rightarrow> Inl x
           | Inr ps \<Rightarrow> Inr (\<lparr>Statement = stmt_query t, Parameters = params\<rparr> # ps)))"

text \<open>The output that the statement at position \<open>i\<close> of the queue receives, and the loop that
  writes the outputs into the statement objects.\<close>

definition outputAt :: "ExecuteTransactionOutput \<Rightarrow> nat \<Rightarrow> ExecuteStatementOutput" where
  "outputAt out i =
     \<lparr>ConsumedCapacity =
        (if i < length (TxConsumedCapacity out) then Some (TxConsumedCapacity out ! i) else None),
      Items = (if i < length (Responses out) then [Item (Responses out ! i)] else []),
      NextToken = None,
      ResultMetadata = TxResultMetadata out\<rparr>"

fun distribute ::
  "ExecuteTransactionOutput \<Rightarrow> nat \<Rightarrow> addr list \<Rightarrow> (addr \<Rightarrow> 'v txStmt) \<Rightarrow> (addr \<Rightarrow> 'v txStmt)" where
  "distribute out i [] h = h"
| "distribute out i (a # as) h =
     distribute out (Suc i) as (h(a := (h a)\<lparr>stmt_output := Some (outputAt out i)\<rparr>))"

text \<open>The body of \<open>commit\<close> after the deferred reset is registered; then \<open>commit\<close> with its
  three guards and the deferred reset, which runs on every path of the body.\<close>

definition commitBody ::
  "('v \<Rightarrow> string + AttributeValue)
     \<Rightarrow> (ExecuteTransactionInput \<Rightarrow> remote_error + ExecuteTransactionOutput)
     \<Rightarrow> 'v world \<Rightarrow> conn_error option \<times> 'v world" where
  "commitBody codec remote w =
     (if txStmtList (conn w) = [] then (None, w)
      else
        (case txStatements codec (map (heap w) (txStmtList (conn w))) of
           Inl e \<Rightarrow> (Some e, w)
         | Inr txStmts \<Rightarrow>
             (let input = \<lparr>TransactStatements = txStmts, ReturnConsumedCapacity = ''TOTAL''\<rparr>;
                  w1 = w\<lparr>calls := calls w @ [input]\<rparr>
              in case remote input of
                   Inl e \<Rightarrow> (Some (ErrRemote e), w1)
                 | Inr out \<Rightarrow>
                     (None, w1\<lparr>heap := distribute out 0 (txStmtList (conn w1)) (heap w1)\<rparr>))))"

definition commit ::
  "('v \<Rightarrow> string + AttributeValue)
     \<Rightarrow> (ExecuteTransactionInput \<Rightarrow> remote_error + ExecuteTransactionOutput)
     \<Rightarrow> 'v world \<Rightarrow> conn_error option \<times> 'v world" where
  "commit codec remote w =
     (if tx (conn w) = None then (Some ErrNoTx, w)
      else if txMode (conn w) = txRollingBack then (Some ErrTxRollingBack, w)
      else if txMode (conn w) \<noteq> txStarted \<and> txMode (conn w) \<noteq> txCommitting
        then (Some ErrInvalidTxStage, w)
      else
        (let (err, w') = commitBody codec remote (w\<lparr>conn := (conn w)\<lparr>txMode := txCommitting\<rparr>\<rparr>)
         in (err, w'\<lparr>conn := (conn w')\<lparr>tx := None, txMode := txNone, txStmtList := []\<rparr>\<rparr>)))"

text \<open>\<open>rollback\<close>: it has no remote client to call.\<close>

definition rollback :: "'v world \<Rightarrow> conn_error option \<times> 'v world" where
  "rollback w =
     (if tx (conn w) = None then (Some ErrNoTx, w)
      else if txMode (conn w) = txCommitting then (Some ErrTxCommitting, w)
      else if txMode (conn w) \<noteq> txStarted \<and> txMode (conn w) \<noteq> txRollingBack
        then (Some ErrInvalidTxStage, w)
      else (None, w\<lparr>conn := (conn w)\<lparr>tx := None, txMode := txNone, txStmtList := []\<rparr>\<rparr>))"


section \<open>The result cursor (\<open>stmt.go\<close>)\<close>

text \<open>
  \<open>statement\<close>, as the wrapper of \<open>executeContext\<close> builds it: \<open>limit\<close> is an \<open>int32\<close>;
  \<open>input\<close> and \<open>output\<close> (here \<open>st_input\<close>, \<open>st_output\<close>) are pointers, \<open>nil\<close> for a
  statement of a transaction (\<open>input\<close>) or before the commit (\<open>output\<close>). The client that \<open>fetchNext\<close> calls is a parameter of the
  model; the code sets \<open>input\<close> and \<open>client\<close> together, so a missing \<open>input\<close> stands for
  both.
\<close>

record ExecuteStatementInput =
  InStatement :: string
  InParameters :: "AttributeValue list"
  InNextToken :: "string option"

record statement =
  limit :: "32 word"
  st_input :: "ExecuteStatementInput option"
  st_output :: "ExecuteStatementOutput option"

text \<open>The error of a cursor: \<open>io.EOF\<close>, or an error that the connection returned.\<close>

datatype rows_error = io_EOF | RowsError conn_error

text \<open>
  \<open>ResultResultSet\<close>. \<open>'t\<close> is \<open>reflect.Type\<close>; a column without an entry in \<open>columnTypes\<close>
  and one whose entry is \<open>nil\<close> read the same, \<open>None\<close>. \<open>read\<close> is an \<open>int32\<close>. The mutex
  serialises the calls and is not modelled.
\<close>

record 't ResultResultSet =
  err :: "rows_error option"
  columnList :: "string list"
  columnTypes :: "string \<rightharpoonup> 't"
  columnSourceTypes :: "string \<rightharpoonup> string"
  stmt :: "statement option"
  read :: "32 word"
  items :: "Item list"

text \<open>A call either returns or panics on a \<open>nil\<close> pointer.\<close>

datatype 'x outcome = Panic | Done 'x

text \<open>
  \<open>fetchNext\<close>. \<open>remote\<close> is \<open>r.stmt.client.ExecuteStatement\<close>: it returns the output
  pointer and the error. The state is the cursor and the log of the requests sent (the
  remote fetches made so far).
\<close>

type_synonym 't rows_state = "'t ResultResultSet \<times> ExecuteStatementInput list"

definition fetchNext ::
  "(ExecuteStatementInput \<Rightarrow> ExecuteStatementOutput option \<times> remote_error option)
     \<Rightarrow> 't rows_state \<Rightarrow> rows_error option outcome \<times> 't rows_state" where
  "fetchNext remote s =
     (let (r, log) = s in
      case stmt r of
        None \<Rightarrow> (Panic, s)
      | Some st \<Rightarrow>
          (case st_output st of
             None \<Rightarrow> (Panic, s)
           | Some out \<Rightarrow>
               if NextToken out = None then (Done (Some io_EOF), s)
               else
                 (case st_input st of
                    None \<Rightarrow> (Panic, s)
                  | Some inp \<Rightarrow>
                      (let inp' = inp\<lparr>InNextToken := NextToken out\<rparr>;
                           (out', e) = remote inp';
                           st' = st\<lparr>st_input := Some inp', st_output := out'\<rparr>;
                           r' = r\<lparr>stmt := Some st'\<rparr>;
                           r'' = (case (e, out') of
                                    (None, Some o') \<Rightarrow> r'\<lparr>items := Items o'\<rparr>
                                  | _ \<Rightarrow> r')
                       in (Done (map_option (\<lambda>x. RowsError (ErrRemote x)) e), (r'', log @ [inp']))))))"

text \<open>
  \<open>Next\<close>. The result is a panic, the error returned, or \<open>nil\<close> with the row written to
  \<open>dest\<close>: one value per column, \<open>unmarshal\<close> of the attribute of that name (\<open>None\<close> when the
  item has none); \<open>dest\<close> has a slot for every column, as \<open>database/sql\<close> provides it. The
  limit test compares signed 32-bit integers and \<open>r.read++\<close> wraps. \<open>Next\<close> calls itself
  after a fetch without error, so it may not return: the value is then \<open>None\<close>.
\<close>

datatype 'a next_result = NextPanic | NextError rows_error | NextRow "'a list"

partial_function (option) Next ::
  "(ExecuteStatementInput \<Rightarrow> ExecuteStatementOutput option \<times> remote_error option)
     \<Rightarrow> (AttributeValue option \<Rightarrow> 'a)
     \<Rightarrow> 't rows_state \<Rightarrow> ('a next_result \<times> 't rows_state) option" where
  "Next remote unmarshal s =
     (let (r, log) = s in
      case err r of
        Some e \<Rightarrow> Some (NextError e, s)
      | None \<Rightarrow>
          (case stmt r of
             None \<Rightarrow> Some (NextPanic, s)
           | Some st \<Rightarrow>
               if 0 < sint (limit st) \<and> sint (limit st) \<le> sint (read r)
               then Some (NextError io_EOF, s)
               else if items r = [] then
                 (case fetchNext remote s of
                    (Panic, s') \<Rightarrow> Some (NextPanic, s')
                  | (Done e, (r', log')) \<Rightarrow>
                      (case e of
                         Some x \<Rightarrow> Some (NextError x, (r'\<lparr>err := e\<rparr>, log'))
                       | None \<Rightarrow> Next remote unmarshal (r'\<lparr>err := e\<rparr>, log')))
               else
                 (let rowData = hd (items r);
                      r1 = r\<lparr>items := tl (items r), read := read r + 1\<rparr>
                  in Some (NextRow (map (\<lambda>colName. unmarshal (map_of rowData colName)) (columnList r1)),
                           (r1, log)))))"

text \<open>A sequence of \<open>n\<close> calls of \<open>Next\<close>, with the results in order; \<open>None\<close> when one of the
  calls does not return. \<open>rowsOf\<close> counts the rows that a sequence of results yielded.\<close>

fun NextN ::
  "(ExecuteStatementInput \<Rightarrow> ExecuteStatementOutput option \<times> remote_error option)
     \<Rightarrow> (AttributeValue option \<Rightarrow> 'a)
     \<Rightarrow> nat \<Rightarrow> 't rows_state \<Rightarrow> ('a next_result list \<times> 't rows_state) option" where
  "NextN remote unmarshal 0 s = Some ([], s)"
| "NextN remote unmarshal (Suc n) s =
     (case Next remote unmarshal s of
        None \<Rightarrow> None
      | Some (x, s') \<Rightarrow>
          (case NextN remote unmarshal n s' of
             None \<Rightarrow> None
           | Some (xs, s'') \<Rightarrow> Some (x # xs, s'')))"

fun isRow :: "'a next_result \<Rightarrow> bool" where
  "isRow (NextRow d) = True"
| "isRow x = False"

definition rowsOf :: "'a next_result list \<Rightarrow> nat" where
  "rowsOf xs = length (filter isRow xs)"


subsection \<open>\<open>ResultResultSet.init\<close>\<close>

text \<open>
  \<open>typeOf\<close> stands for \<open>reflect.TypeOf\<close> of the value that \<open>attributevalue.Unmarshal\<close> decodes
  (\<open>None\<close> is the \<open>nil\<close> type, that of a \<open>nil\<close> value), \<open>nameOf\<close> for
  \<open>nameFromAttributeValue\<close>; both are outside the files at hand and are parameters.

  The inner loop visits the entries of one item: a column whose entry in \<open>columnTypes\<close> is
  \<open>nil\<close> gets the type and the tag of the value. The order in which Go visits the entries
  of a map is not fixed; with each key once in an item, the result does not depend on it.
\<close>

fun initItem ::
  "(AttributeValue \<Rightarrow> 't option) \<Rightarrow> (AttributeValue \<Rightarrow> string) \<Rightarrow> Item
     \<Rightarrow> (string \<rightharpoonup> 't) \<times> (string \<rightharpoonup> string) \<Rightarrow> (string \<rightharpoonup> 't) \<times> (string \<rightharpoonup> string)" where
  "initItem typeOf nameOf [] m = m"
| "initItem typeOf nameOf ((col, av) # rest) (ct, cs) =
     initItem typeOf nameOf rest
       (if ct col = None then (ct(col := typeOf av), cs(col \<mapsto> nameOf av)) else (ct, cs))"

definition init ::
  "(AttributeValue \<Rightarrow> 't option) \<Rightarrow> (AttributeValue \<Rightarrow> string) \<Rightarrow> 't ResultResultSet
     \<Rightarrow> 't ResultResultSet" where
  "init typeOf nameOf r =
     (case stmt r of
        None \<Rightarrow> r
      | Some st \<Rightarrow>
          (case st_output st of
             None \<Rightarrow> r
           | Some out \<Rightarrow>
               (let (ct, cs) = foldl (\<lambda>m item. initItem typeOf nameOf item m)
                                 (columnTypes r, columnSourceTypes r) (Items out);
                    r1 = r\<lparr>items := Items out, columnTypes := ct, columnSourceTypes := cs\<rparr>
                in if columnList r \<noteq> [] then r1
                   else r1\<lparr>columnList := sort (remdups (concat (map (map fst) (Items out))))\<rparr>)))"

text \<open>The values of a column in a page, in the order of the items (one value for each item
  that has the column).\<close>

definition colValues :: "string \<Rightarrow> Item list \<Rightarrow> AttributeValue list" where
  "colValues col page = map snd (filter (\<lambda>e. fst e = col) (concat page))"

text \<open>Modelled from the spec: \<open>nameFromAttributeValue\<close>, which is not in the files at hand; it
  gives the native source-type tag of a value, one of \<open>B\<close>, \<open>BOOL\<close>, \<open>BS\<close>, \<open>L\<close>, \<open>M\<close>, \<open>N\<close>,
  \<open>NS\<close>, \<open>NULL\<close>, \<open>S\<close>, \<open>SS\<close>.\<close>

fun nameFromAttributeValue :: "AttributeValue \<Rightarrow> string" where
  "nameFromAttributeValue (AttributeValueMemberB x) = ''B''"
| "nameFromAttributeValue (AttributeValueMemberBOOL x) = ''BOOL''"
| "nameFromAttributeValue (AttributeValueMemberBS x) = ''BS''"
| "nameFromAttributeValue (AttributeValueMemberL x) = ''L''"
| "nameFromAttributeValue (AttributeValueMemberM x) = ''M''"
| "nameFromAttributeValue (AttributeValueMemberN x) = ''N''"
| "nameFromAttributeValue (AttributeValueMemberNS x) = ''NS''"
| "nameFromAttributeValue (AttributeValueMemberNULL x) = ''NULL''"
| "nameFromAttributeValue (AttributeValueMemberS x) = ''S''"
| "nameFromAttributeValue (AttributeValueMemberSS x) = ''SS''"

text \<open>
  The decoder \<open>attributevalue.Unmarshal(av, &value)\<close> with \<open>value\<close> an empty interface, as
  \<open>init\<close> calls it: \<open>init\<close> drops the error and takes \<open>reflect.TypeOf(value)\<close>, the \<open>nil\<close> type
  when nothing was stored. \<open>decodes\<close> holds when the decoder returns no error: a number must
  be accepted by \<open>strconv.ParseFloat\<close>, and a list or a map decodes when all its members do.
\<close>

fun decodes :: "AttributeValue \<Rightarrow> bool" where
  "decodes (AttributeValueMemberL avs) = list_all decodes avs"
| "decodes (AttributeValueMemberM kvs) = list_all (\<lambda>kv. decodes (snd kv)) kvs"
| "decodes (AttributeValueMemberN n) = ParseFloatOk n"
| "decodes (AttributeValueMemberNS ns) = list_all ParseFloatOk ns"
| "decodes av = True"

text \<open>
  The Go type, by name, of the value stored (\<open>None\<close> is the \<open>nil\<close> type). A \<open>NULL\<close> attribute
  stores \<open>nil\<close>. A number is stored as a \<open>float64\<close>, a number set as a slice of them and a
  list as a slice of decoded members, each only after the decoding has succeeded, so a
  refused number leaves \<open>nil\<close>. A map is stored empty before its entries are decoded, so the
  value is a map even when an entry fails.
\<close>

fun scanType :: "AttributeValue \<Rightarrow> string option" where
  "scanType (AttributeValueMemberB b) = Some ''[]uint8''"
| "scanType (AttributeValueMemberBOOL b) = Some ''bool''"
| "scanType (AttributeValueMemberBS bs) = Some ''[][]uint8''"
| "scanType (AttributeValueMemberL avs) =
     (if list_all decodes avs then Some ''[]interface {}'' else None)"
| "scanType (AttributeValueMemberM kvs) = Some ''map[string]interface {}''"
| "scanType (AttributeValueMemberN n) = (if ParseFloatOk n then Some ''float64'' else None)"
| "scanType (AttributeValueMemberNS ns) =
     (if list_all ParseFloatOk ns then Some ''[]float64'' else None)"
| "scanType (AttributeValueMemberNULL b) = None"
| "scanType (AttributeValueMemberS x) = Some ''string''"
| "scanType (AttributeValueMemberSS ss) = Some ''[]string''"

subsection \<open>An example connection\<close>

text \<open>A value codec that refuses the empty string, a remote service that refuses batches of
  more than two statements and otherwise returns two capacity records and one response
  item, and the connection after \<open>BeginTx\<close> and the given statements.\<close>

definition demoCodec :: "string \<Rightarrow> string + AttributeValue" where
  "demoCodec v = (if v = [] then Inl ''unsupported value'' else Inr (AttributeValueMemberS v))"

definition demoRemote :: "ExecuteTransactionInput \<Rightarrow> remote_error + ExecuteTransactionOutput" where
  "demoRemote input =
     (if length (TransactStatements input) > 2 then Inl (AwsError ''TransactionCanceledException'')
      else Inr \<lparr>TxConsumedCapacity = [Capacity ''c0'', Capacity ''c1''],
                Responses = [\<lparr>Item = [(''k'', AttributeValueMemberS ''v'')]\<rparr>],
                TxResultMetadata = Metadata ''m''\<rparr>)"

definition demoDirect ::
  "string \<Rightarrow> string list \<Rightarrow> string world \<Rightarrow> (addr option \<times> conn_error option) \<times> string world" where
  "demoDirect q vs w = ((None, None), w)"

definition demoQueue :: "(string \<times> string list) list \<Rightarrow> string world" where
  "demoQueue qs = foldl (\<lambda>w (q, vs). snd (executeContext demoDirect q vs w)) (snd (BeginTx newWorld)) qs"

subsection \<open>Invariants used in the proofs\<close>

text \<open>
  The invariant of a cursor with limit \<open>L\<close> that has yielded \<open>k\<close> rows: the statement is
  there with that limit, \<open>read\<close> is \<open>k\<close>, at most \<open>L\<close>, and an error is stored only before the
  limit is reached. \<open>stepOk\<close> is what one returning call of \<open>Next\<close> keeps: the invariant,
  with one more row when it yields a row, and the exhaustion signal once it was given.
\<close>

definition cursorInv :: "32 word \<Rightarrow> nat \<Rightarrow> 't rows_state \<Rightarrow> bool" where
  "cursorInv L k s \<longleftrightarrow>
     (\<exists>st. stmt (fst s) = Some st \<and> limit st = L) \<and>
     sint (read (fst s)) = int k \<and> int k \<le> sint L \<and>
     (err (fst s) \<noteq> None \<longrightarrow> int k < sint L)"

definition stepOk ::
  "(ExecuteStatementInput \<Rightarrow> ExecuteStatementOutput option \<times> remote_error option)
     \<Rightarrow> (AttributeValue option \<Rightarrow> 'a) \<Rightarrow> 32 word
     \<Rightarrow> 't rows_state \<Rightarrow> 'a next_result \<times> 't rows_state \<Rightarrow> bool" where
  "stepOk remote um L s y \<longleftrightarrow>
     (\<forall>k. cursorInv L k s \<and> 0 < sint L \<longrightarrow>
        cursorInv L (k + (if isRow (fst y) then 1 else 0)) (snd y)) \<and>
     (fst y = NextError io_EOF \<longrightarrow> Next remote um (snd y) = Some (NextError io_EOF, snd y))"

text \<open>The effect of one value of a column on the type and the tag recorded for it.\<close>

definition colStep ::
  "(AttributeValue \<Rightarrow> 't option) \<Rightarrow> (AttributeValue \<Rightarrow> string)
     \<Rightarrow> 't option \<times> string option \<Rightarrow> AttributeValue \<Rightarrow> 't option \<times> string option" where
  "colStep typeOf nameOf ts av = (if fst ts = None then (typeOf av, Some (nameOf av)) else ts)"

subsection \<open>Example cursors\<close>

text \<open>A cursor with the limit 2 over a first page of three items, with more pages on the
  remote side; a remote service that returns a last page; and a fresh result set over a
  given first page.\<close>

definition demoStatement :: statement where
  "demoStatement =
     \<lparr>limit = 2,
      st_input = Some \<lparr>InStatement = ''SELECT * FROM t'', InParameters = [], InNextToken = None\<rparr>,
      st_output = Some \<lparr>ConsumedCapacity = None,
                        Items = [[(''a'', AttributeValueMemberN ''1'')],
                                 [(''a'', AttributeValueMemberN ''2'')],
                                 [(''a'', AttributeValueMemberN ''3'')]],
                        NextToken = Some ''t1'', ResultMetadata = Metadata ''m''\<rparr>\<rparr>"

definition demoRows :: "string ResultResultSet" where
  "demoRows =
     \<lparr>err = None, columnList = [''a''], columnTypes = Map.empty, columnSourceTypes = Map.empty,
      stmt = Some demoStatement, read = 0,
      items = [[(''a'', AttributeValueMemberN ''1'')],
               [(''a'', AttributeValueMemberN ''2'')],
               [(''a'', AttributeValueMemberN ''3'')]]\<rparr>"

definition demoFetch :: "ExecuteStatementInput \<Rightarrow> ExecuteStatementOutput option \<times> remote_error option" where
  "demoFetch inp =
     (Some \<lparr>ConsumedCapacity = None, Items = [[(''a'', AttributeValueMemberN ''4'')]],
            NextToken = None, ResultMetadata = Metadata ''m''\<rparr>, None)"

definition demoPage :: "Item list \<Rightarrow> string ResultResultSet" where
  "demoPage page =
     \<lparr>err = None, columnList = [], columnTypes = Map.empty, columnSourceTypes = Map.empty,
      stmt = Some \<lparr>limit = 0, st_input = None,
                   st_output = Some \<lparr>ConsumedCapacity = None, Items = page, NextToken = None,
                                     ResultMetadata = Metadata ''m''\<rparr>\<rparr>,
      read = 0, items = []\<rparr>"

section \<open>Properties of the option parser\<close>

lemma isWordByte_not_space: "isWordByte c \<Longrightarrow> \<not> isTrimSpace c"
  by (auto simp: isWordByte_def isTrimSpace_def isSpace_def isDigit_def isLower_def isUpper_def Let_def)

lemma wordRune_spaceFree: "spaceFree (take (wordRune s) s)"
proof (cases s)
  case Nil
  then show ?thesis by (simp add: spaceFree_def)
next
  case (Cons c cs)
  show ?thesis
  proof (cases "isWordByte c")
    case True
    then show ?thesis using Cons isWordByte_not_space by (simp add: spaceFree_def)
  next
    case False
    then show ?thesis using Cons
      by (cases cs; cases "tl cs") (auto simp: spaceFree_def isTrimSpace_def isSpace_def)
  qed
qed

lemma fieldRune_spaceFree: "spaceFree (take (fieldRune s) s)"
  using wordRune_spaceFree [of s]
  by (cases s) (auto simp: spaceFree_def isTrimSpace_def isSpace_def)

lemma valueRune_spaceFree: "spaceFree (take (valueRune s) s)"
  using wordRune_spaceFree [of s]
  by (cases s) (auto simp: spaceFree_def isTrimSpace_def isSpace_def isValuePunct_def)

lemma spaceFree_append: "spaceFree (a @ b) \<longleftrightarrow> spaceFree a \<and> spaceFree b"
  by (auto simp: spaceFree_def)

lemma runLen_spaceFree:
  "(\<And>t. spaceFree (take (cls t) t)) \<Longrightarrow> spaceFree (take (runLen cls s) s)"
proof (induction cls s rule: runLen.induct)
  case (1 cls s)
  show ?case
  proof (cases "cls s = 0 \<or> s = []")
    case True
    then show ?thesis by (subst runLen.simps) (auto simp: spaceFree_def)
  next
    case False
    then have eq: "runLen cls s = cls s + runLen cls (drop (cls s) s)"
      by (subst runLen.simps) (simp add: Let_def)
    have "spaceFree (take (runLen cls (drop (cls s) s)) (drop (cls s) s))"
      using "1.IH" False "1.prems" by simp
    then show ?thesis
      using "1.prems" [of s] by (simp add: eq take_add spaceFree_append)
  qed
qed

lemma isTrimSpace_code: "isTrimSpace c \<Longrightarrow> (of_char c :: nat) \<le> 32"
  by (auto simp: isTrimSpace_def isSpace_def)

lemma upperByte_space: "isTrimSpace (upperByte c) \<Longrightarrow> isTrimSpace c"
proof (cases "isLower c")
  case True
  assume "isTrimSpace (upperByte c)"
  then have "isTrimSpace (char_of (of_char c - (32::nat)))"
    using True by (simp add: upperByte_def)
  then have "(of_char (char_of (of_char c - (32::nat)) :: char) :: nat) \<le> 32"
    by (rule isTrimSpace_code)
  moreover have "(of_char c :: nat) \<le> 122"
    using True by (simp add: isLower_def Let_def)
  then have "(of_char c - (32::nat)) mod 256 = of_char c - 32"
    by (intro mod_less) linarith
  ultimately have "(of_char c :: nat) - 32 \<le> 32" by simp
  moreover have "97 \<le> (of_char c :: nat)" using True by (simp add: isLower_def Let_def)
  ultimately have False by linarith
  then show ?thesis ..
next
  case False
  assume "isTrimSpace (upperByte c)"
  then show ?thesis using False by (simp add: upperByte_def)
qed

lemma spaceFree_Cons: "spaceFree (c # cs) \<longleftrightarrow> \<not> isTrimSpace c \<and> spaceFree cs"
  by (simp add: spaceFree_def)

lemma S_not_space: "\<not> isTrimSpace CHR ''S''"
  by (simp add: isTrimSpace_def isSpace_def)

lemma ToUpper_spaceFree: "spaceFree s \<Longrightarrow> spaceFree (ToUpper s)"
proof (induction s rule: ToUpper.induct)
  case 1
  then show ?case by simp
next
  case (2 c)
  then show ?case using upperByte_space by (auto simp: spaceFree_Cons)
next
  case (3 c1 c2 cs)
  show ?case
  proof (cases "c1 = CHR 0xC5 \<and> c2 = CHR 0xBF")
    case True
    then have "spaceFree (ToUpper cs)" using 3 by (simp add: spaceFree_Cons)
    then show ?thesis using True S_not_space by (simp add: spaceFree_Cons)
  next
    case False
    then have "spaceFree (ToUpper (c2 # cs))" using 3 by (simp add: spaceFree_Cons)
    moreover have "\<not> isTrimSpace (upperByte c1)"
      using "3.prems" upperByte_space by (auto simp: spaceFree_Cons)
    ultimately show ?thesis using False by (auto simp: spaceFree_Cons)
  qed
qed

lemma TrimSpace_spaceFree: "spaceFree s \<Longrightarrow> TrimSpace s = s"
proof -
  assume a: "spaceFree s"
  have d: "\<And>t. spaceFree t \<Longrightarrow> dropWhile isTrimSpace t = t"
    by (case_tac t) (auto simp: spaceFree_def)
  have "spaceFree (rev s)" using a by (simp add: spaceFree_def)
  then show ?thesis using a by (simp add: TrimSpace_def d)
qed

lemma matchRun_spaceFree:
  "(\<And>t. spaceFree (take (cls t) t)) \<Longrightarrow> matchRun cls s = Some (a, r) \<Longrightarrow> spaceFree a"
  using runLen_spaceFree [of cls s] by (auto simp: matchRun_def Let_def split: if_splits)

lemma matchWith_spaceFree:
  assumes "matchWith s = Some (n, k, v)"
  shows "spaceFree k \<and> spaceFree v"
proof -
  from assms obtain s3 s4 s5 s6 where
    "matchRun fieldRune s3 = Some (k, s4)" "matchRun valueRune (skipSpaces s5) = Some (v, s6)"
    by (auto simp: matchWith_def split: option.splits)
  then show ?thesis
    using matchRun_spaceFree [of fieldRune] matchRun_spaceFree [of valueRune]
      fieldRune_spaceFree valueRune_spaceFree by blast
qed

lemma spaceFree_Nil: "spaceFree []" by (simp add: spaceFree_def)

lemma matchWith_Nil: "matchWith [] = None"
  by (simp add: matchWith_def matchSep_def spaces_def)

lemma find_leading: "matchWith s = Some x \<Longrightarrow> FindStringSubmatch s = Some x"
  by (cases s) (auto simp: FindStringSubmatch_def matchWith_Nil)

lemma findFrom_no_newline: "CHR 0x0A \<notin> set s \<Longrightarrow> findFrom False s = None"
  by (induction s) auto

lemma find_none: "matchWith s = None \<Longrightarrow> CHR 0x0A \<notin> set s \<Longrightarrow> FindStringSubmatch s = None"
  by (cases s) (auto simp: FindStringSubmatch_def findFrom_no_newline)

lemma parseLoop_spec:
  "FindStringSubmatch (spec_rest s) = None \<Longrightarrow> parseLoop s m = addTokens m (spec_tokens s)"
proof (induction s arbitrary: m rule: spec_tokens.induct)
  case (1 s)
  show ?case
  proof (cases "matchWith s")
    case None
    then have "spec_rest s = s" by (subst spec_rest.simps) simp
    with "1.prems" have "FindStringSubmatch s = None" by simp
    then have "parseLoop s m = m" by (subst parseLoop.simps) simp
    moreover have "spec_tokens s = []" using None by (subst spec_tokens.simps) simp
    ultimately show ?thesis by (simp add: addTokens_def)
  next
    case (Some x)
    obtain n k v where x: "x = (n, k, v)" by (cases x)
    have mw: "matchWith s = Some (n, k, v)" using Some x by simp
    have sf: "spaceFree k" "spaceFree v" using matchWith_spaceFree [OF mw] by simp_all
    have f: "FindStringSubmatch s = Some (n, k, v)" by (rule find_leading [OF mw])
    have r: "spec_rest s = spec_rest (drop n s)" using mw by (subst spec_rest.simps) simp
    have t: "spec_tokens s = (ToUpper k, TrimSuffixComma v) # spec_tokens (drop n s)"
      using mw by (subst spec_tokens.simps) simp
    have "parseLoop s m = parseLoop (drop n s) (appendOpt m (ToUpper k) (TrimSuffixComma v))"
      using f sf by (subst parseLoop.simps) (simp add: TrimSpace_spaceFree ToUpper_spaceFree)
    also have "\<dots> = addTokens (appendOpt m (ToUpper k) (TrimSuffixComma v)) (spec_tokens (drop n s))"
      using "1.IH" [OF mw [symmetric, THEN sym] refl refl] "1.prems" r by simp
    finally show ?thesis by (simp add: t addTokens_def)
  qed
qed

lemma opt_appendOpt: "opt (appendOpt m k v) k' = (if k' = k then opt m k @ [v] else opt m k')"
  by (simp add: opt_def appendOpt_def)

lemma opt_addTokens: "opt (addTokens m kvs) k = opt m k @ map snd (filter (\<lambda>kv. fst kv = k) kvs)"
  by (induction kvs arbitrary: m) (auto simp: addTokens_def opt_appendOpt)

lemma addTokens_empty: "addTokens Map.empty kvs = multimap_of kvs"
proof (induction kvs rule: rev_induct)
  case Nil
  then show ?case by (auto simp: addTokens_def multimap_of_def)
next
  case (snoc kv kvs)
  have "addTokens Map.empty (kvs @ [kv]) = appendOpt (multimap_of kvs) (fst kv) (snd kv)"
    using snoc by (simp add: addTokens_def)
  also have "\<dots> = multimap_of (kvs @ [kv])"
    by (rule ext) (auto simp: appendOpt_def multimap_of_def opt_def Let_def)
  finally show ?case .
qed

lemma spec_rest_unmatched: "matchWith (spec_rest s) = None"
proof (induction s rule: spec_rest.induct)
  case (1 s)
  show ?case
  proof (cases "matchWith s")
    case None
    then show ?thesis by (subst spec_rest.simps) simp
  next
    case (Some x)
    obtain n k v where x: "x = (n, k, v)" by (cases x)
    have mw: "matchWith s = Some (n, k, v)" using Some x by simp
    have "spec_rest s = spec_rest (drop n s)" using mw by (subst spec_rest.simps) simp
    then show ?thesis using "1.IH" [OF mw [symmetric, THEN sym] refl refl] by simp
  qed
qed

text \<open>
  What \<open>parseWithOpts\<close> keeps of its contract. It never fails: it returns for every text,
  and the error it returns is \<open>nil\<close>. The unmatched trailing text starts with no token; when
  no token stands further on in it either (the pattern finds none, which is so whenever the
  trailing text holds no line feed), the map left is the ordered multimap of the leading
  \<open>WITH key=value\<close> tokens: each key upper-cased, each value without its trailing comma, the
  values of a repeated key in the order of declaration.
\<close>

theorem parseWithOpts_leading_tokens:
  "fst (parseWithOpts s) = None \<and>
   matchWith (spec_rest s) = None \<and>
   (FindStringSubmatch (spec_rest s) = None \<longrightarrow>
      snd (parseWithOpts s) = multimap_of (spec_tokens s)) \<and>
   (CHR 0x0A \<notin> set (spec_rest s) \<longrightarrow> FindStringSubmatch (spec_rest s) = None)"
  by (simp add: parseWithOpts_def parseLoop_spec addTokens_empty spec_rest_unmatched find_none)

text \<open>An instance: three tokens, one key repeated, followed by unmatched text.\<close>

theorem parseWithOpts_leading_tokens_witness:
  "FindStringSubmatch (spec_rest '' WITH PK=id:STRING, WITH lsi=i1:f1:N WITH LSI=i2:f2:S:*  garbage'') = None \<and>
   fst (parseWithOpts '' WITH PK=id:STRING, WITH lsi=i1:f1:N WITH LSI=i2:f2:S:*  garbage'') = None \<and>
   snd (parseWithOpts '' WITH PK=id:STRING, WITH lsi=i1:f1:N WITH LSI=i2:f2:S:*  garbage'') =
     multimap_of [(''PK'', ''id:STRING''), (''LSI'', ''i1:f1:N''), (''LSI'', ''i2:f2:S:*'')]"
proof -
  have h: "FindStringSubmatch (spec_rest '' WITH PK=id:STRING, WITH lsi=i1:f1:N WITH LSI=i2:f2:S:*  garbage'') = None"
    by code_simp
  have t: "spec_tokens '' WITH PK=id:STRING, WITH lsi=i1:f1:N WITH LSI=i2:f2:S:*  garbage'' =
      [(''PK'', ''id:STRING''), (''LSI'', ''i1:f1:N''), (''LSI'', ''i2:f2:S:*'')]"
    by code_simp
  show ?thesis
    using parseWithOpts_leading_tokens [of "'' WITH PK=id:STRING, WITH lsi=i1:f1:N WITH LSI=i2:f2:S:*  garbage''"] h t by simp
qed


section \<open>Properties of CREATE TABLE\<close>

lemma parsePK_Inr:
  "pkType s = [] \<Longrightarrow>
   parsePK T s = Inr s' \<longleftrightarrow>
     (let k = keyOf (FirstString (opt (withOpts s) ''PK''))
      in fst k \<noteq> [] \<and> dataTypes T (snd k) \<noteq> None \<and> s' = s\<lparr>pkName := fst k, pkType := snd k\<rparr>)"
  by (auto simp: parsePK_def keyOf_def Let_def)

lemma parseSK_Inr:
  "skType s = [] \<Longrightarrow>
   parseSK T s = Inr s' \<longleftrightarrow>
     (let k = keyOf (FirstString (opt (withOpts s) ''SK''))
      in (fst k \<noteq> [] \<longrightarrow> dataTypes T (snd k) \<noteq> None) \<and> s' = s\<lparr>skName := fst k, skType := snd k\<rparr>)"
  by (auto simp: parseSK_def keyOf_def Let_def)

lemma parseLSI_Inr:
  "parseLSI T vs acc = Inr l \<longleftrightarrow> (\<forall>v \<in> set vs. lsiOk T v) \<and> l = acc @ map lsiOf vs"
  by (induction vs arbitrary: acc) (auto simp: Let_def lsiOk_def)

lemma parseRCU_Inr:
  "parseRCU s = Inr s' \<longleftrightarrow>
     capOk (withOpts s) ''RCU'' \<and>
     (\<exists>n. given (withOpts s) ''RCU'' n \<and> s' = (if withOpts s ''RCU'' = None then s else s\<lparr>rcu := n\<rparr>))"
  by (auto simp: parseRCU_def capOk_def given_def split: option.splits)

lemma parseWCU_Inr:
  "parseWCU s = Inr s' \<longleftrightarrow>
     capOk (withOpts s) ''WCU'' \<and>
     (\<exists>n. given (withOpts s) ''WCU'' n \<and> s' = (if withOpts s ''WCU'' = None then s else s\<lparr>wcu := n\<rparr>))"
  by (auto simp: parseWCU_def capOk_def given_def split: option.splits)

lemma given_zero: "m k = None \<Longrightarrow> given m k n \<longleftrightarrow> n = 0"
  by (simp add: given_def)

lemma parse_Inr:
  assumes fresh: "s0 = newStmtCreateTable q ine tn w"
  shows "parse T s0 = Inr s \<longleftrightarrow>
     fst (pkOpt s0) \<noteq> [] \<and> dataTypes T (snd (pkOpt s0)) \<noteq> None \<and>
     (fst (skOpt s0) \<noteq> [] \<longrightarrow> dataTypes T (snd (skOpt s0)) \<noteq> None) \<and>
     (\<forall>v \<in> set (lsiOpts s0). lsiOk T v) \<and>
     capOk (optsOf s0) ''RCU'' \<and> capOk (optsOf s0) ''WCU'' \<and>
     (\<exists>r w. given (optsOf s0) ''RCU'' r \<and> given (optsOf s0) ''WCU'' w \<and>
        s = s0\<lparr>withOpts := optsOf s0, pkName := fst (pkOpt s0), pkType := snd (pkOpt s0),
               skName := fst (skOpt s0), skType := snd (skOpt s0),
               lsi := map lsiOf (lsiOpts s0), rcu := r, wcu := w\<rparr>)"
    (is "?L \<longleftrightarrow> ?R")
proof -
  define m where "m = optsOf s0"
  define pk where "pk = keyOf (FirstString (opt m ''PK''))"
  define sk where "sk = keyOf (FirstString (opt m ''SK''))"
  define a where "a = s0\<lparr>withOpts := m\<rparr>"
  define b where "b = a\<lparr>pkName := fst pk, pkType := snd pk\<rparr>"
  define c where "c = b\<lparr>skName := fst sk, skType := snd sk\<rparr>"
  define d where "d = c\<lparr>lsi := map lsiOf (opt m ''LSI'')\<rparr>"
  have fa: "pkType a = []" "withOpts a = m"
    by (simp_all add: a_def fresh newStmtCreateTable_def)
  have fb: "skType b = []" "withOpts b = m"
    by (simp_all add: b_def a_def fresh newStmtCreateTable_def)
  have fc: "lsi c = []" "withOpts c = m"
    by (simp_all add: c_def b_def a_def fresh newStmtCreateTable_def)
  have fd: "rcu d = 0" "wcu d = 0" "withOpts d = m"
    by (simp_all add: d_def c_def b_def a_def fresh newStmtCreateTable_def)
  have p: "parse T s0 =
      (case parsePK T a of Inl e \<Rightarrow> Inl e | Inr s1 \<Rightarrow>
       case parseSK T s1 of Inl e \<Rightarrow> Inl e | Inr s2 \<Rightarrow>
       case parseLSI T (opt (withOpts s2) ''LSI'') (lsi s2) of Inl e \<Rightarrow> Inl e | Inr l \<Rightarrow>
       case parseRCU (s2\<lparr>lsi := l\<rparr>) of Inl e \<Rightarrow> Inl e | Inr s3 \<Rightarrow> parseWCU s3)"
    by (simp add: parse_def parseWithOpts_def a_def m_def optsOf_def)
  have pk: "\<And>s1. parsePK T a = Inr s1 \<longleftrightarrow> fst pk \<noteq> [] \<and> dataTypes T (snd pk) \<noteq> None \<and> s1 = b"
    using parsePK_Inr [OF fa(1), of T] by (simp add: fa Let_def pk_def b_def)
  have sk: "\<And>s2. parseSK T b = Inr s2 \<longleftrightarrow> (fst sk \<noteq> [] \<longrightarrow> dataTypes T (snd sk) \<noteq> None) \<and> s2 = c"
    using parseSK_Inr [OF fb(1), of T] by (simp add: fb Let_def sk_def c_def)
  have ls: "\<And>l. parseLSI T (opt (withOpts c) ''LSI'') (lsi c) = Inr l \<longleftrightarrow>
      (\<forall>v \<in> set (opt m ''LSI''). lsiOk T v) \<and> l = map lsiOf (opt m ''LSI'')"
    by (simp add: parseLSI_Inr fc)
  have rc: "\<And>s3. parseRCU d = Inr s3 \<longleftrightarrow> capOk m ''RCU'' \<and> (\<exists>r. given m ''RCU'' r \<and> s3 = d\<lparr>rcu := r\<rparr>)"
    using fd by (auto simp: parseRCU_Inr given_zero)
  have wc: "\<And>r s4. parseWCU (d\<lparr>rcu := r\<rparr>) = Inr s4 \<longleftrightarrow>
      capOk m ''WCU'' \<and> (\<exists>w. given m ''WCU'' w \<and> s4 = d\<lparr>rcu := r, wcu := w\<rparr>)"
    using fd by (auto simp: parseWCU_Inr given_zero)
  have "?L \<longleftrightarrow> fst pk \<noteq> [] \<and> dataTypes T (snd pk) \<noteq> None \<and>
         (fst sk \<noteq> [] \<longrightarrow> dataTypes T (snd sk) \<noteq> None) \<and>
         (\<forall>v \<in> set (opt m ''LSI''). lsiOk T v) \<and>
         capOk m ''RCU'' \<and> capOk m ''WCU'' \<and>
         (\<exists>r w. given m ''RCU'' r \<and> given m ''WCU'' w \<and> s = d\<lparr>rcu := r, wcu := w\<rparr>)"
  proof
    assume l: ?L
    from l p obtain s1 where s1: "parsePK T a = Inr s1" by (auto split: sum.splits)
    then have s1b: "s1 = b" and c1: "fst pk \<noteq> []" "dataTypes T (snd pk) \<noteq> None" using pk by auto
    from l p s1 s1b obtain s2 where s2: "parseSK T b = Inr s2" by (auto split: sum.splits)
    then have s2c: "s2 = c" and c2: "fst sk \<noteq> [] \<longrightarrow> dataTypes T (snd sk) \<noteq> None" using sk by auto
    from l p s1 s1b s2 s2c obtain l' where l': "parseLSI T (opt (withOpts c) ''LSI'') (lsi c) = Inr l'"
      by (auto split: sum.splits)
    then have l'd: "l' = map lsiOf (opt m ''LSI'')" and c3: "\<forall>v \<in> set (opt m ''LSI''). lsiOk T v"
      using ls by auto
    from l p s1 s1b s2 s2c l' l'd obtain s3 where s3: "parseRCU d = Inr s3" and s4: "parseWCU s3 = Inr s"
      by (auto simp: d_def split: sum.splits)
    from s3 rc obtain r where r: "capOk m ''RCU''" "given m ''RCU'' r" "s3 = d\<lparr>rcu := r\<rparr>" by auto
    from s4 r wc obtain w where w: "capOk m ''WCU''" "given m ''WCU'' w" "s = d\<lparr>rcu := r, wcu := w\<rparr>"
      by auto
    show "fst pk \<noteq> [] \<and> dataTypes T (snd pk) \<noteq> None \<and>
         (fst sk \<noteq> [] \<longrightarrow> dataTypes T (snd sk) \<noteq> None) \<and>
         (\<forall>v \<in> set (opt m ''LSI''). lsiOk T v) \<and>
         capOk m ''RCU'' \<and> capOk m ''WCU'' \<and>
         (\<exists>r w. given m ''RCU'' r \<and> given m ''WCU'' w \<and> s = d\<lparr>rcu := r, wcu := w\<rparr>)"
      using c1 c2 c3 r w by blast
  next
    assume rhs: "fst pk \<noteq> [] \<and> dataTypes T (snd pk) \<noteq> None \<and>
         (fst sk \<noteq> [] \<longrightarrow> dataTypes T (snd sk) \<noteq> None) \<and>
         (\<forall>v \<in> set (opt m ''LSI''). lsiOk T v) \<and>
         capOk m ''RCU'' \<and> capOk m ''WCU'' \<and>
         (\<exists>r w. given m ''RCU'' r \<and> given m ''WCU'' w \<and> s = d\<lparr>rcu := r, wcu := w\<rparr>)"
    then obtain r w where rw: "given m ''RCU'' r" "given m ''WCU'' w" "s = d\<lparr>rcu := r, wcu := w\<rparr>"
      by blast
    have 1: "parsePK T a = Inr b" using rhs pk by simp
    have 2: "parseSK T b = Inr c" using rhs sk by simp
    have 3: "parseLSI T (opt (withOpts c) ''LSI'') (lsi c) = Inr (map lsiOf (opt m ''LSI''))"
      using rhs ls by simp
    have 4: "parseRCU d = Inr (d\<lparr>rcu := r\<rparr>)" using rhs rw rc by blast
    have 5: "parseWCU (d\<lparr>rcu := r\<rparr>) = Inr s" using rhs rw wc by blast
    show ?L using p 1 2 3 4 5 by (simp add: d_def)
  qed
  also have "\<dots> \<longleftrightarrow> ?R"
    by (simp add: m_def pk_def sk_def pkOpt_def skOpt_def lsiOpts_def d_def c_def b_def a_def)
  finally show ?thesis .
qed

lemma parsePK_Inl:
  "pkType s = [] \<Longrightarrow>
   parsePK T s = Inl e \<longleftrightarrow>
     (let k = keyOf (FirstString (opt (withOpts s) ''PK''))
      in if fst k = [] then e = NoPartitionKey
         else dataTypes T (snd k) = None \<and> e = InvalidPKType (snd k))"
  by (auto simp: parsePK_def keyOf_def Let_def)

lemma parseSK_Inl:
  "skType s = [] \<Longrightarrow>
   parseSK T s = Inl e \<longleftrightarrow>
     (let k = keyOf (FirstString (opt (withOpts s) ''SK''))
      in fst k \<noteq> [] \<and> dataTypes T (snd k) = None \<and> e = InvalidSKType (snd k))"
  by (auto simp: parseSK_def keyOf_def Let_def)

lemma parseLSI_Inl:
  "parseLSI T vs acc = Inl e \<Longrightarrow>
     \<exists>v \<in> set vs. indexName (lsiOf v) \<noteq> [] \<and>
       (if fieldName (lsiOf v) = [] then e = LSIEmptyFieldName (indexName (lsiOf v))
        else dataTypes T (fieldType (lsiOf v)) = None \<and>
             e = InvalidLSIType (fieldType (lsiOf v)) (indexName (lsiOf v)))"
proof (induction vs arbitrary: acc)
  case Nil
  then show ?case by simp
next
  case (Cons v vs)
  show ?case
  proof (cases "lsiOk T v")
    case True
    then have "parseLSI T vs (acc @ [lsiOf v]) = Inl e"
      using Cons.prems by (auto simp: lsiOk_def Let_def split: if_splits)
    from Cons.IH [OF this] show ?thesis by auto
  next
    case False
    then have "indexName (lsiOf v) \<noteq> [] \<and>
       (if fieldName (lsiOf v) = [] then e = LSIEmptyFieldName (indexName (lsiOf v))
        else dataTypes T (fieldType (lsiOf v)) = None \<and>
             e = InvalidLSIType (fieldType (lsiOf v)) (indexName (lsiOf v)))"
      using Cons.prems by (auto simp: lsiOk_def Let_def split: if_splits)
    then show ?thesis by (intro bexI [of _ v]) simp_all
  qed
qed

lemma parseRCU_Inl: "parseRCU s = Inl e \<Longrightarrow> \<exists>vs. withOpts s ''RCU'' = Some vs \<and> e = InvalidRCU vs"
  by (auto simp: parseRCU_def split: option.splits if_splits)

lemma parseWCU_Inl: "parseWCU s = Inl e \<Longrightarrow> \<exists>vs. withOpts s ''WCU'' = Some vs \<and> e = InvalidWCU vs"
  by (auto simp: parseWCU_def split: option.splits if_splits)

lemma parseRCU_withOpts: "parseRCU s = Inr s' \<Longrightarrow> withOpts s' = withOpts s"
  by (auto simp: parseRCU_def split: option.splits if_splits)

lemma parse_Inl:
  assumes fresh: "s0 = newStmtCreateTable q ine tn w"
    and fail: "parse T s0 = Inl e"
  shows "if fst (pkOpt s0) = [] then e = NoPartitionKey
         else if dataTypes T (snd (pkOpt s0)) = None then e = InvalidPKType (snd (pkOpt s0))
         else if fst (skOpt s0) \<noteq> [] \<and> dataTypes T (snd (skOpt s0)) = None
           then e = InvalidSKType (snd (skOpt s0))
         else (\<exists>v \<in> set (lsiOpts s0). indexName (lsiOf v) \<noteq> [] \<and>
                (if fieldName (lsiOf v) = [] then e = LSIEmptyFieldName (indexName (lsiOf v))
                 else dataTypes T (fieldType (lsiOf v)) = None \<and>
                      e = InvalidLSIType (fieldType (lsiOf v)) (indexName (lsiOf v))))
              \<or> (\<exists>vs. optsOf s0 ''RCU'' = Some vs \<and> e = InvalidRCU vs)
              \<or> (\<exists>vs. optsOf s0 ''WCU'' = Some vs \<and> e = InvalidWCU vs)"
proof -
  define m where "m = optsOf s0"
  define pk where "pk = keyOf (FirstString (opt m ''PK''))"
  define sk where "sk = keyOf (FirstString (opt m ''SK''))"
  define a where "a = s0\<lparr>withOpts := m\<rparr>"
  define b where "b = a\<lparr>pkName := fst pk, pkType := snd pk\<rparr>"
  define c where "c = b\<lparr>skName := fst sk, skType := snd sk\<rparr>"
  have fa: "pkType a = []" "withOpts a = m"
    by (simp_all add: a_def fresh newStmtCreateTable_def)
  have fb: "skType b = []" "withOpts b = m"
    by (simp_all add: b_def a_def fresh newStmtCreateTable_def)
  have fc: "lsi c = []" "withOpts c = m"
    by (simp_all add: c_def b_def a_def fresh newStmtCreateTable_def)
  have p: "parse T s0 =
      (case parsePK T a of Inl e \<Rightarrow> Inl e | Inr s1 \<Rightarrow>
       case parseSK T s1 of Inl e \<Rightarrow> Inl e | Inr s2 \<Rightarrow>
       case parseLSI T (opt (withOpts s2) ''LSI'') (lsi s2) of Inl e \<Rightarrow> Inl e | Inr l \<Rightarrow>
       case parseRCU (s2\<lparr>lsi := l\<rparr>) of Inl e \<Rightarrow> Inl e | Inr s3 \<Rightarrow> parseWCU s3)"
    by (simp add: parse_def parseWithOpts_def a_def m_def optsOf_def)
  have pkr: "\<And>s1. parsePK T a = Inr s1 \<longleftrightarrow> fst pk \<noteq> [] \<and> dataTypes T (snd pk) \<noteq> None \<and> s1 = b"
    using parsePK_Inr [OF fa(1), of T] by (simp add: fa Let_def pk_def b_def)
  have skr: "\<And>s2. parseSK T b = Inr s2 \<longleftrightarrow> (fst sk \<noteq> [] \<longrightarrow> dataTypes T (snd sk) \<noteq> None) \<and> s2 = c"
    using parseSK_Inr [OF fb(1), of T] by (simp add: fb Let_def sk_def c_def)
  have pkl: "\<And>e. parsePK T a = Inl e \<longleftrightarrow>
      (if fst pk = [] then e = NoPartitionKey
       else dataTypes T (snd pk) = None \<and> e = InvalidPKType (snd pk))"
    using parsePK_Inl [OF fa(1), of T] by (simp add: fa Let_def pk_def)
  have skl: "\<And>e. parseSK T b = Inl e \<longleftrightarrow>
      fst sk \<noteq> [] \<and> dataTypes T (snd sk) = None \<and> e = InvalidSKType (snd sk)"
    using parseSK_Inl [OF fb(1), of T] by (simp add: fb Let_def sk_def)
  have goal: "if fst pk = [] then e = NoPartitionKey
         else if dataTypes T (snd pk) = None then e = InvalidPKType (snd pk)
         else if fst sk \<noteq> [] \<and> dataTypes T (snd sk) = None then e = InvalidSKType (snd sk)
         else (\<exists>v \<in> set (opt m ''LSI''). indexName (lsiOf v) \<noteq> [] \<and>
                (if fieldName (lsiOf v) = [] then e = LSIEmptyFieldName (indexName (lsiOf v))
                 else dataTypes T (fieldType (lsiOf v)) = None \<and>
                      e = InvalidLSIType (fieldType (lsiOf v)) (indexName (lsiOf v))))
              \<or> (\<exists>vs. m ''RCU'' = Some vs \<and> e = InvalidRCU vs)
              \<or> (\<exists>vs. m ''WCU'' = Some vs \<and> e = InvalidWCU vs)"
  proof (cases "parsePK T a")
    case (Inl e1)
    then have "e = e1" using fail p by simp
    then show ?thesis using Inl pkl by (auto split: if_splits)
  next
    case (Inr s1)
    then have s1: "s1 = b" "fst pk \<noteq> []" "dataTypes T (snd pk) \<noteq> None" using pkr by auto
    show ?thesis
    proof (cases "parseSK T b")
      case (Inl e2)
      then have "e = e2" using fail p Inr s1 by simp
      then show ?thesis using Inl skl s1 by auto
    next
      case (Inr s2)
      then have s2: "s2 = c" "fst sk \<noteq> [] \<longrightarrow> dataTypes T (snd sk) \<noteq> None" using skr by auto
      show ?thesis
      proof (cases "parseLSI T (opt m ''LSI'') []")
        case (Inl e3)
        then have "e = e3" using fail p \<open>parsePK T a = Inr s1\<close> s1 Inr s2 fc by simp
        then show ?thesis using parseLSI_Inl [OF Inl] s1 s2 by auto
      next
        case ll: (Inr l)
        show ?thesis
        proof (cases "parseRCU (c\<lparr>lsi := l\<rparr>)")
          case (Inl e4)
          then have "e = e4" using fail p \<open>parsePK T a = Inr s1\<close> s1 Inr s2 fc ll by simp
          then show ?thesis using parseRCU_Inl [OF Inl] s1 s2 fc by auto
        next
          case rr: (Inr s3)
          then have "parseWCU s3 = Inl e"
            using fail p \<open>parsePK T a = Inr s1\<close> s1 Inr s2 fc ll by simp
          then show ?thesis
            using parseWCU_Inl [of s3 e] parseRCU_withOpts [OF rr] s1 s2 fc by auto
        qed
      qed
    qed
  qed
  then show ?thesis
    unfolding pkOpt_def skOpt_def lsiOpts_def pk_def sk_def m_def .
qed

lemma given_unique: "given m k n \<Longrightarrow> given m k n' \<Longrightarrow> n = n'"
  by (auto simp: given_def split: option.splits)




lemma parse_Inr_fields:
  assumes "s0 = newStmtCreateTable q ine tn w" and "parse T s0 = Inr s"
  shows "pkName s = fst (pkOpt s0)" "pkType s = snd (pkOpt s0)"
    "skName s = fst (skOpt s0)" "skType s = snd (skOpt s0)"
    "lsi s = map lsiOf (lsiOpts s0)" "given (optsOf s0) ''RCU'' (rcu s)"
    "given (optsOf s0) ''WCU'' (wcu s)" "withOpts s = optsOf s0"
    "tableName s = tableName s0" "ifNotExists s = ifNotExists s0"
proof -
  from parse_Inr [OF assms(1), of T s] assms(2) obtain r w where
    "given (optsOf s0) ''RCU'' r" "given (optsOf s0) ''WCU'' w"
    "s = s0\<lparr>withOpts := optsOf s0, pkName := fst (pkOpt s0), pkType := snd (pkOpt s0),
               skName := fst (skOpt s0), skType := snd (skOpt s0),
               lsi := map lsiOf (lsiOpts s0), rcu := r, wcu := w\<rparr>"
    by blast
  then show "pkName s = fst (pkOpt s0)" "pkType s = snd (pkOpt s0)"
    "skName s = fst (skOpt s0)" "skType s = snd (skOpt s0)"
    "lsi s = map lsiOf (lsiOpts s0)" "given (optsOf s0) ''RCU'' (rcu s)"
    "given (optsOf s0) ''WCU'' (wcu s)" "withOpts s = optsOf s0"
    "tableName s = tableName s0" "ifNotExists s = ifNotExists s0"
    by simp_all
qed

lemma parse_Inr_checks:
  assumes "s0 = newStmtCreateTable q ine tn w" and "parse T s0 = Inr s"
  shows "fst (pkOpt s0) \<noteq> []" "dataTypes T (snd (pkOpt s0)) \<noteq> None"
    "fst (skOpt s0) \<noteq> [] \<longrightarrow> dataTypes T (snd (skOpt s0)) \<noteq> None"
    "\<forall>v \<in> set (lsiOpts s0). lsiOk T v"
    "capOk (optsOf s0) ''RCU''" "capOk (optsOf s0) ''WCU''"
  using parse_Inr [OF assms(1), of T s] assms(2) by blast+




lemma SplitN_nonempty: "0 < n \<Longrightarrow> SplitN n s \<noteq> []"
  by (cases n) auto

lemma capOk_given: "capOk m k \<Longrightarrow> \<exists>n. given m k n"
  by (auto simp: capOk_def given_def split: option.splits)

lemma lsiOf_empty_prefix: "takeWhile (\<lambda>c. c \<noteq> CHR '':'') v = [] \<Longrightarrow> indexName (lsiOf v) = []"
proof -
  assume a: "takeWhile (\<lambda>c. c \<noteq> CHR '':'') v = []"
  have "SplitN 4 v ! 0 = []"
  proof (cases "CHR '':'' \<in> set v")
    case True
    then show ?thesis using a by (simp add: numeral_nat)
  next
    case False
    then have "takeWhile (\<lambda>c. c \<noteq> CHR '':'') v = v" by (intro takeWhile_eq_all_conv [THEN iffD2]) auto
    with a have "v = []" by simp
    then show ?thesis by (simp add: numeral_nat)
  qed
  then show ?thesis by (simp add: lsiOf_def Let_def TrimSpace_def)
qed

text \<open>
  Claim C10. An \<open>LSI\<close> value whose text before the first colon is empty gives a definition
  with an empty index name; the loop of \<open>parse\<close> appends it without looking at its field
  name or type; \<open>parse\<close> succeeds exactly when the other checks pass: a definition with an
  empty index name adds no condition. When \<open>parse\<close> succeeds every \<open>LSI\<close> value is in
  \<open>s.lsi\<close>, in order, and the request that \<open>Exec\<close> builds holds each of them, whatever its
  index name: one index per value, in order, with the index name, the key schema of the
  partition key and of the field of the definition, and its projection; and one attribute
  definition per value, after those of the keys, with the field and the attribute type that
  the table gives for the tag (the empty type for a tag outside the table). \<open>Exec\<close> hands
  this request to the remote call and returns what the call returns (but for the error
  that \<open>IF NOT EXISTS\<close> masks): no error is raised before the call.
\<close>

theorem parse_lsi_empty_index_name:
  assumes "s0 = newStmtCreateTable q ine tn w"
  shows "(takeWhile (\<lambda>c. c \<noteq> CHR '':'') v = [] \<longrightarrow> indexName (lsiOf v) = []) \<and>
         (indexName (lsiOf v) = [] \<longrightarrow> parseLSI T (v # vs) acc = parseLSI T vs (acc @ [lsiOf v])) \<and>
         (parse T s0 = Inr s \<longrightarrow>
            lsi s = map lsiOf (lsiOpts s0) \<and>
            LocalSecondaryIndexes (createTableInput T s) =
              map (\<lambda>v. \<lparr>IndexName = indexName (lsiOf v),
                        IndexKeySchema =
                          [\<lparr>KeyAttributeName = fst (pkOpt s0), KeyType = lookup (keyTypes T) ''HASH''\<rparr>,
                           \<lparr>KeyAttributeName = fieldName (lsiOf v),
                            KeyType = lookup (keyTypes T) ''RANGE''\<rparr>],
                        Projection =
                          (if projectedFields (lsiOf v) = ''*''
                           then \<lparr>ProjectionType = ProjectionTypeAll, NonKeyAttributes = []\<rparr>
                           else if projectedFields (lsiOf v) \<noteq> []
                           then \<lparr>ProjectionType = ProjectionTypeInclude,
                                 NonKeyAttributes = Split (projectedFields (lsiOf v))\<rparr>
                           else \<lparr>ProjectionType = ProjectionTypeKeysOnly, NonKeyAttributes = []\<rparr>)\<rparr>)
                (lsiOpts s0) \<and>
            AttributeDefinitions (createTableInput T s) =
              [\<lparr>AttributeName = fst (pkOpt s0),
                AttributeType = lookup (dataTypes T) (snd (pkOpt s0))\<rparr>]
              @ (if fst (skOpt s0) \<noteq> []
                 then [\<lparr>AttributeName = fst (skOpt s0),
                        AttributeType = lookup (dataTypes T) (snd (skOpt s0))\<rparr>]
                 else [])
              @ map (\<lambda>v. \<lparr>AttributeName = fieldName (lsiOf v),
                          AttributeType = lookup (dataTypes T) (fieldType (lsiOf v))\<rparr>)
                  (lsiOpts s0) \<and>
            fst (Exec T client s) = \<lparr>Successful = (client (createTableInput T s) = None)\<rparr> \<and>
            (\<not> (ifNotExists s \<and>
                 IsAwsError (client (createTableInput T s)) ''ResourceInUseException'') \<longrightarrow>
               snd (Exec T client s) = client (createTableInput T s))) \<and>
         ((\<exists>s'. parse T s0 = Inr s') \<longleftrightarrow>
            fst (pkOpt s0) \<noteq> [] \<and> dataTypes T (snd (pkOpt s0)) \<noteq> None \<and>
            (fst (skOpt s0) \<noteq> [] \<longrightarrow> dataTypes T (snd (skOpt s0)) \<noteq> None) \<and>
            (\<forall>v \<in> set (lsiOpts s0).
               indexName (lsiOf v) = [] \<or>
               fieldName (lsiOf v) \<noteq> [] \<and> dataTypes T (fieldType (lsiOf v)) \<noteq> None) \<and>
            capOk (optsOf s0) ''RCU'' \<and> capOk (optsOf s0) ''WCU'')"
proof -
  have 1: "takeWhile (\<lambda>c. c \<noteq> CHR '':'') v = [] \<longrightarrow> indexName (lsiOf v) = []"
    using lsiOf_empty_prefix by blast
  have 2: "indexName (lsiOf v) = [] \<longrightarrow> parseLSI T (v # vs) acc = parseLSI T vs (acc @ [lsiOf v])"
    by (simp add: Let_def)
  have 3: "parse T s0 = Inr s \<longrightarrow>
            lsi s = map lsiOf (lsiOpts s0) \<and>
            LocalSecondaryIndexes (createTableInput T s) =
              map (\<lambda>v. \<lparr>IndexName = indexName (lsiOf v),
                        IndexKeySchema =
                          [\<lparr>KeyAttributeName = fst (pkOpt s0), KeyType = lookup (keyTypes T) ''HASH''\<rparr>,
                           \<lparr>KeyAttributeName = fieldName (lsiOf v),
                            KeyType = lookup (keyTypes T) ''RANGE''\<rparr>],
                        Projection =
                          (if projectedFields (lsiOf v) = ''*''
                           then \<lparr>ProjectionType = ProjectionTypeAll, NonKeyAttributes = []\<rparr>
                           else if projectedFields (lsiOf v) \<noteq> []
                           then \<lparr>ProjectionType = ProjectionTypeInclude,
                                 NonKeyAttributes = Split (projectedFields (lsiOf v))\<rparr>
                           else \<lparr>ProjectionType = ProjectionTypeKeysOnly, NonKeyAttributes = []\<rparr>)\<rparr>)
                (lsiOpts s0) \<and>
            AttributeDefinitions (createTableInput T s) =
              [\<lparr>AttributeName = fst (pkOpt s0),
                AttributeType = lookup (dataTypes T) (snd (pkOpt s0))\<rparr>]
              @ (if fst (skOpt s0) \<noteq> []
                 then [\<lparr>AttributeName = fst (skOpt s0),
                        AttributeType = lookup (dataTypes T) (snd (skOpt s0))\<rparr>]
                 else [])
              @ map (\<lambda>v. \<lparr>AttributeName = fieldName (lsiOf v),
                          AttributeType = lookup (dataTypes T) (fieldType (lsiOf v))\<rparr>)
                  (lsiOpts s0) \<and>
            fst (Exec T client s) = \<lparr>Successful = (client (createTableInput T s) = None)\<rparr> \<and>
            (\<not> (ifNotExists s \<and>
                 IsAwsError (client (createTableInput T s)) ''ResourceInUseException'') \<longrightarrow>
               snd (Exec T client s) = client (createTableInput T s))"
  proof
    assume p: "parse T s0 = Inr s"
    note f = parse_Inr_fields [OF assms p]
    have a: "LocalSecondaryIndexes (createTableInput T s) =
              map (\<lambda>v. \<lparr>IndexName = indexName (lsiOf v),
                        IndexKeySchema =
                          [\<lparr>KeyAttributeName = fst (pkOpt s0), KeyType = lookup (keyTypes T) ''HASH''\<rparr>,
                           \<lparr>KeyAttributeName = fieldName (lsiOf v),
                            KeyType = lookup (keyTypes T) ''RANGE''\<rparr>],
                        Projection =
                          (if projectedFields (lsiOf v) = ''*''
                           then \<lparr>ProjectionType = ProjectionTypeAll, NonKeyAttributes = []\<rparr>
                           else if projectedFields (lsiOf v) \<noteq> []
                           then \<lparr>ProjectionType = ProjectionTypeInclude,
                                 NonKeyAttributes = Split (projectedFields (lsiOf v))\<rparr>
                           else \<lparr>ProjectionType = ProjectionTypeKeysOnly, NonKeyAttributes = []\<rparr>)\<rparr>)
                (lsiOpts s0)"
      by (simp add: createTableInput_def lsiIndex_def f(1,5) comp_def)
    have b: "AttributeDefinitions (createTableInput T s) =
              [\<lparr>AttributeName = fst (pkOpt s0),
                AttributeType = lookup (dataTypes T) (snd (pkOpt s0))\<rparr>]
              @ (if fst (skOpt s0) \<noteq> []
                 then [\<lparr>AttributeName = fst (skOpt s0),
                        AttributeType = lookup (dataTypes T) (snd (skOpt s0))\<rparr>]
                 else [])
              @ map (\<lambda>v. \<lparr>AttributeName = fieldName (lsiOf v),
                          AttributeType = lookup (dataTypes T) (fieldType (lsiOf v))\<rparr>)
                  (lsiOpts s0)"
      by (simp add: createTableInput_def f(1,2,3,4,5) comp_def)
    have c: "fst (Exec T client s) = \<lparr>Successful = (client (createTableInput T s) = None)\<rparr>"
      by (simp add: Exec_def Let_def)
    have d: "\<not> (ifNotExists s \<and>
                 IsAwsError (client (createTableInput T s)) ''ResourceInUseException'') \<longrightarrow>
               snd (Exec T client s) = client (createTableInput T s)"
      by (simp add: Exec_def Let_def)
    from f(5) a b c d show "lsi s = map lsiOf (lsiOpts s0) \<and>
            LocalSecondaryIndexes (createTableInput T s) =
              map (\<lambda>v. \<lparr>IndexName = indexName (lsiOf v),
                        IndexKeySchema =
                          [\<lparr>KeyAttributeName = fst (pkOpt s0), KeyType = lookup (keyTypes T) ''HASH''\<rparr>,
                           \<lparr>KeyAttributeName = fieldName (lsiOf v),
                            KeyType = lookup (keyTypes T) ''RANGE''\<rparr>],
                        Projection =
                          (if projectedFields (lsiOf v) = ''*''
                           then \<lparr>ProjectionType = ProjectionTypeAll, NonKeyAttributes = []\<rparr>
                           else if projectedFields (lsiOf v) \<noteq> []
                           then \<lparr>ProjectionType = ProjectionTypeInclude,
                                 NonKeyAttributes = Split (projectedFields (lsiOf v))\<rparr>
                           else \<lparr>ProjectionType = ProjectionTypeKeysOnly, NonKeyAttributes = []\<rparr>)\<rparr>)
                (lsiOpts s0) \<and>
            AttributeDefinitions (createTableInput T s) =
              [\<lparr>AttributeName = fst (pkOpt s0),
                AttributeType = lookup (dataTypes T) (snd (pkOpt s0))\<rparr>]
              @ (if fst (skOpt s0) \<noteq> []
                 then [\<lparr>AttributeName = fst (skOpt s0),
                        AttributeType = lookup (dataTypes T) (snd (skOpt s0))\<rparr>]
                 else [])
              @ map (\<lambda>v. \<lparr>AttributeName = fieldName (lsiOf v),
                          AttributeType = lookup (dataTypes T) (fieldType (lsiOf v))\<rparr>)
                  (lsiOpts s0) \<and>
            fst (Exec T client s) = \<lparr>Successful = (client (createTableInput T s) = None)\<rparr> \<and>
            (\<not> (ifNotExists s \<and>
                 IsAwsError (client (createTableInput T s)) ''ResourceInUseException'') \<longrightarrow>
               snd (Exec T client s) = client (createTableInput T s))"
      by (intro conjI)
  qed
  have 4: "(\<exists>s'. parse T s0 = Inr s') \<longleftrightarrow>
            fst (pkOpt s0) \<noteq> [] \<and> dataTypes T (snd (pkOpt s0)) \<noteq> None \<and>
            (fst (skOpt s0) \<noteq> [] \<longrightarrow> dataTypes T (snd (skOpt s0)) \<noteq> None) \<and>
            (\<forall>v \<in> set (lsiOpts s0).
               indexName (lsiOf v) = [] \<or>
               fieldName (lsiOf v) \<noteq> [] \<and> dataTypes T (fieldType (lsiOf v)) \<noteq> None) \<and>
            capOk (optsOf s0) ''RCU'' \<and> capOk (optsOf s0) ''WCU''" (is "?L \<longleftrightarrow> ?R")
  proof
    assume ?L
    then obtain s' where p: "parse T s0 = Inr s'" by blast
    note c = parse_Inr_checks [OF assms p]
    from c show ?R by (auto simp: lsiOk_def)
  next
    assume r: ?R
    then obtain rr ww where "given (optsOf s0) ''RCU'' rr" "given (optsOf s0) ''WCU'' ww"
      using capOk_given by blast
    moreover have "\<forall>v \<in> set (lsiOpts s0). lsiOk T v" using r by (auto simp: lsiOk_def)
    ultimately show ?L using r parse_Inr [OF assms, of T] by blast
  qed
  from 1 2 3 4 show ?thesis by (intro conjI)
qed

text \<open>
  The capacity options of a statement built by \<open>parseQuery\<close> on which \<open>parse\<close> succeeds: when
  the options \<open>RCU\<close> and \<open>WCU\<close> are both absent, the request has the pay-per-request billing
  mode and no provisioned throughput; when the capacities given are \<open>r\<close> and \<open>w\<close> (0 for an
  absent option) and one of them is positive, the request has no billing mode set (the
  remote default, provisioned) and the provisioned throughput of exactly \<open>r\<close> and \<open>w\<close>. When
  both options are absent, \<open>parse\<close> never fails on a capacity.
\<close>

theorem parse_capacity_billing:
  assumes "s0 = newStmtCreateTable q ine tn w"
  shows "(parse T s0 = Inr s \<longrightarrow>
            (optsOf s0 ''RCU'' = None \<and> optsOf s0 ''WCU'' = None \<longrightarrow>
               BillingMode (createTableInput T s) = Some BillingModePayPerRequest \<and>
               ProvisionedThroughput (createTableInput T s) = None) \<and>
            (\<forall>r w. given (optsOf s0) ''RCU'' r \<and> given (optsOf s0) ''WCU'' w \<and> (0 < r \<or> 0 < w) \<longrightarrow>
               BillingMode (createTableInput T s) = None \<and>
               ProvisionedThroughput (createTableInput T s) =
                 Some \<lparr>ReadCapacityUnits = r, WriteCapacityUnits = w\<rparr>)) \<and>
         (optsOf s0 ''RCU'' = None \<and> optsOf s0 ''WCU'' = None \<longrightarrow>
            (\<forall>x. parse T s0 \<noteq> Inl (InvalidRCU x) \<and> parse T s0 \<noteq> Inl (InvalidWCU x)))"
proof -
  have 1: "parse T s0 = Inr s \<longrightarrow>
            (optsOf s0 ''RCU'' = None \<and> optsOf s0 ''WCU'' = None \<longrightarrow>
               BillingMode (createTableInput T s) = Some BillingModePayPerRequest \<and>
               ProvisionedThroughput (createTableInput T s) = None) \<and>
            (\<forall>r w. given (optsOf s0) ''RCU'' r \<and> given (optsOf s0) ''WCU'' w \<and> (0 < r \<or> 0 < w) \<longrightarrow>
               BillingMode (createTableInput T s) = None \<and>
               ProvisionedThroughput (createTableInput T s) =
                 Some \<lparr>ReadCapacityUnits = r, WriteCapacityUnits = w\<rparr>)"
  proof
    assume p: "parse T s0 = Inr s"
    note f = parse_Inr_fields [OF assms p]
    have a: "optsOf s0 ''RCU'' = None \<and> optsOf s0 ''WCU'' = None \<longrightarrow>
               BillingMode (createTableInput T s) = Some BillingModePayPerRequest \<and>
               ProvisionedThroughput (createTableInput T s) = None"
      using f(6,7) by (auto simp: given_def createTableInput_def)
    have b: "\<forall>r w. given (optsOf s0) ''RCU'' r \<and> given (optsOf s0) ''WCU'' w \<and> (0 < r \<or> 0 < w) \<longrightarrow>
               BillingMode (createTableInput T s) = None \<and>
               ProvisionedThroughput (createTableInput T s) =
                 Some \<lparr>ReadCapacityUnits = r, WriteCapacityUnits = w\<rparr>"
    proof (intro allI impI)
      fix r w
      assume h: "given (optsOf s0) ''RCU'' r \<and> given (optsOf s0) ''WCU'' w \<and> (0 < r \<or> 0 < w)"
      then have "rcu s = r" "wcu s = w" using f(6,7) given_unique by blast+
      then show "BillingMode (createTableInput T s) = None \<and>
               ProvisionedThroughput (createTableInput T s) =
                 Some \<lparr>ReadCapacityUnits = r, WriteCapacityUnits = w\<rparr>"
        using h by (auto simp: createTableInput_def)
    qed
    from a b show "(optsOf s0 ''RCU'' = None \<and> optsOf s0 ''WCU'' = None \<longrightarrow>
               BillingMode (createTableInput T s) = Some BillingModePayPerRequest \<and>
               ProvisionedThroughput (createTableInput T s) = None) \<and>
            (\<forall>r w. given (optsOf s0) ''RCU'' r \<and> given (optsOf s0) ''WCU'' w \<and> (0 < r \<or> 0 < w) \<longrightarrow>
               BillingMode (createTableInput T s) = None \<and>
               ProvisionedThroughput (createTableInput T s) =
                 Some \<lparr>ReadCapacityUnits = r, WriteCapacityUnits = w\<rparr>)" ..
  qed
  have 2: "optsOf s0 ''RCU'' = None \<and> optsOf s0 ''WCU'' = None \<longrightarrow>
            (\<forall>x. parse T s0 \<noteq> Inl (InvalidRCU x) \<and> parse T s0 \<noteq> Inl (InvalidWCU x))"
  proof (intro impI allI)
    fix x
    assume h: "optsOf s0 ''RCU'' = None \<and> optsOf s0 ''WCU'' = None"
    have "parse T s0 \<noteq> Inl (InvalidRCU x)"
    proof
      assume "parse T s0 = Inl (InvalidRCU x)"
      from parse_Inl [OF assms this] h show False by (auto split: if_splits)
    qed
    moreover have "parse T s0 \<noteq> Inl (InvalidWCU x)"
    proof
      assume "parse T s0 = Inl (InvalidWCU x)"
      from parse_Inl [OF assms this] h show False by (auto split: if_splits)
    qed
    ultimately show "parse T s0 \<noteq> Inl (InvalidRCU x) \<and> parse T s0 \<noteq> Inl (InvalidWCU x)" ..
  qed
  from 1 2 show ?thesis ..
qed

text \<open>
  Claim C1, as amended. When the statement has \<open>IF NOT EXISTS\<close> and the remote call fails
  with \<open>ResourceInUseException\<close>, \<open>Exec\<close> returns no error, the success flag of its result
  is false and \<open>RowsAffected\<close> reports 0; in every other case the error of the remote call
  is returned as it is; the success flag is true exactly when the remote call succeeded.
\<close>

theorem Exec_if_not_exists:
  "(ifNotExists s \<and> IsAwsError (client (createTableInput T s)) ''ResourceInUseException'' \<longrightarrow>
      snd (Exec T client s) = None \<and> \<not> Successful (fst (Exec T client s)) \<and>
      RowsAffected (fst (Exec T client s)) = (0, None)) \<and>
   (\<not> (ifNotExists s \<and> IsAwsError (client (createTableInput T s)) ''ResourceInUseException'') \<longrightarrow>
      snd (Exec T client s) = client (createTableInput T s)) \<and>
   (Successful (fst (Exec T client s)) \<longleftrightarrow> client (createTableInput T s) = None)"
  by (auto simp: Exec_def Let_def IsAwsError_def RowsAffected_def split: option.splits)




text \<open>
  An instance: in \<open>CREATE TABLE t WITH PK=id:S WITH LSI=::S\<close> the definition has neither an
  index name nor a field name. The statement is prepared, the request holds the index and
  the attribute definition with their empty names, and the error of a remote service that
  refuses the request comes back as it is.
\<close>

theorem parse_lsi_empty_index_name_witness:
  "takeWhile (\<lambda>c. c \<noteq> CHR '':'') ''::S'' = [] \<and>
   (\<exists>s. prepareCreateTable specTables ''CREATE TABLE t WITH PK=id:S WITH LSI=::S'' [] ''t''
          '' WITH PK=id:S WITH LSI=::S'' = (Some s, None) \<and>
        lsi s = [\<lparr>indexName = [], fieldName = [], fieldType = ''S'', projectedFields = []\<rparr>] \<and>
        LocalSecondaryIndexes (createTableInput specTables s) =
          [\<lparr>IndexName = [],
            IndexKeySchema = [\<lparr>KeyAttributeName = ''id'', KeyType = ''HASH''\<rparr>,
                              \<lparr>KeyAttributeName = [], KeyType = ''RANGE''\<rparr>],
            Projection = \<lparr>ProjectionType = ProjectionTypeKeysOnly, NonKeyAttributes = []\<rparr>\<rparr>] \<and>
        AttributeDefinitions (createTableInput specTables s) =
          [\<lparr>AttributeName = ''id'', AttributeType = ''S''\<rparr>,
           \<lparr>AttributeName = [], AttributeType = ''S''\<rparr>] \<and>
        Exec specTables (\<lambda>i. Some (AwsError ''ValidationException'')) s =
          (\<lparr>Successful = False\<rparr>, Some (AwsError ''ValidationException'')))"
proof -
  let ?w = "'' WITH PK=id:S WITH LSI=::S''"
  let ?q = "''CREATE TABLE t WITH PK=id:S WITH LSI=::S''"
  let ?s0 = "newStmtCreateTable ?q [] ''t'' ?w"
  let ?cl = "\<lambda>i :: CreateTableInput. Some (AwsError ''ValidationException'')"
  have 1: "takeWhile (\<lambda>c. c \<noteq> CHR '':'') ''::S'' = []" by simp
  have e: "lsiOpts ?s0 = [''::S'']" "pkOpt ?s0 = (''id'', ''S'')" "skOpt ?s0 = ([], [])"
    "lsiOf ''::S'' = \<lparr>indexName = [], fieldName = [], fieldType = ''S'', projectedFields = []\<rparr>"
    "lookup (dataTypes specTables) ''S'' = ''S''"
    "lookup (keyTypes specTables) ''HASH'' = ''HASH''" "lookup (keyTypes specTables) ''RANGE'' = ''RANGE''"
    by code_simp+
  have "case prepareCreateTable specTables ?q [] ''t'' ?w of
          (Some s, None) \<Rightarrow> \<not> ifNotExists s | _ \<Rightarrow> False"
    by code_simp
  then obtain s where s: "prepareCreateTable specTables ?q [] ''t'' ?w = (Some s, None)"
      "\<not> ifNotExists s"
    by (auto split: prod.splits option.splits)
  have p: "parse specTables ?s0 = Inr s"
    using s(1) by (auto simp: prepareCreateTable_def split: sum.splits)
  note th = parse_lsi_empty_index_name [OF refl, where T = specTables and q = ?q and ine = "[]"
        and tn = "''t''" and w = ?w and s = s and client = ?cl,
        THEN conjunct2, THEN conjunct2, THEN conjunct1, THEN mp, OF p]
  have 2: "lsi s = [\<lparr>indexName = [], fieldName = [], fieldType = ''S'', projectedFields = []\<rparr>]"
    using th [THEN conjunct1] by (simp only: e list.map)
  have 3: "LocalSecondaryIndexes (createTableInput specTables s) =
          [\<lparr>IndexName = [],
            IndexKeySchema = [\<lparr>KeyAttributeName = ''id'', KeyType = ''HASH''\<rparr>,
                              \<lparr>KeyAttributeName = [], KeyType = ''RANGE''\<rparr>],
            Projection = \<lparr>ProjectionType = ProjectionTypeKeysOnly, NonKeyAttributes = []\<rparr>\<rparr>]"
    using th [THEN conjunct2, THEN conjunct1] by (simp add: e)
  have 4: "AttributeDefinitions (createTableInput specTables s) =
          [\<lparr>AttributeName = ''id'', AttributeType = ''S''\<rparr>,
           \<lparr>AttributeName = [], AttributeType = ''S''\<rparr>]"
    using th [THEN conjunct2, THEN conjunct2, THEN conjunct1] by (simp add: e)
  have "fst (Exec specTables ?cl s) = \<lparr>Successful = False\<rparr>"
    using th [THEN conjunct2, THEN conjunct2, THEN conjunct2, THEN conjunct1] by simp
  moreover have "snd (Exec specTables ?cl s) = Some (AwsError ''ValidationException'')"
    using th [THEN conjunct2, THEN conjunct2, THEN conjunct2, THEN conjunct2] s(2) by simp
  ultimately have 5: "Exec specTables ?cl s =
      (\<lparr>Successful = False\<rparr>, Some (AwsError ''ValidationException''))"
    by (cases "Exec specTables ?cl s") simp
  have "\<exists>s. prepareCreateTable specTables ?q [] ''t'' ?w = (Some s, None) \<and>
        lsi s = [\<lparr>indexName = [], fieldName = [], fieldType = ''S'', projectedFields = []\<rparr>] \<and>
        LocalSecondaryIndexes (createTableInput specTables s) =
          [\<lparr>IndexName = [],
            IndexKeySchema = [\<lparr>KeyAttributeName = ''id'', KeyType = ''HASH''\<rparr>,
                              \<lparr>KeyAttributeName = [], KeyType = ''RANGE''\<rparr>],
            Projection = \<lparr>ProjectionType = ProjectionTypeKeysOnly, NonKeyAttributes = []\<rparr>\<rparr>] \<and>
        AttributeDefinitions (createTableInput specTables s) =
          [\<lparr>AttributeName = ''id'', AttributeType = ''S''\<rparr>,
           \<lparr>AttributeName = [], AttributeType = ''S''\<rparr>] \<and>
        Exec specTables ?cl s = (\<lparr>Successful = False\<rparr>, Some (AwsError ''ValidationException''))"
    by (rule exI [of _ s]) (intro conjI s(1) 2 3 4 5)
  with 1 show ?thesis by (rule conjI)
qed

text \<open>
  Two instances: a read capacity of 5 alone, and no capacity option.
\<close>

theorem parse_capacity_billing_witness:
  "(\<exists>s. parse specTables (newStmtCreateTable ''q'' [] ''t'' '' WITH PK=i:STRING WITH RCU=5'') = Inr s \<and>
        BillingMode (createTableInput specTables s) = None \<and>
        ProvisionedThroughput (createTableInput specTables s) =
          Some \<lparr>ReadCapacityUnits = 5, WriteCapacityUnits = 0\<rparr>) \<and>
   (\<exists>s. parse specTables (newStmtCreateTable ''q'' [] ''t'' '' WITH PK=i:STRING'') = Inr s \<and>
        BillingMode (createTableInput specTables s) = Some BillingModePayPerRequest \<and>
        ProvisionedThroughput (createTableInput specTables s) = None)"
proof -
  let ?s0 = "newStmtCreateTable ''q'' [] ''t'' '' WITH PK=i:STRING WITH RCU=5''"
  let ?s1 = "newStmtCreateTable ''q'' [] ''t'' '' WITH PK=i:STRING''"
  have "case parse specTables ?s0 of Inl e \<Rightarrow> False | Inr s \<Rightarrow> True" by code_simp
  then obtain s where s: "parse specTables ?s0 = Inr s"
    by (cases "parse specTables ?s0") auto
  have g: "given (optsOf ?s0) ''RCU'' 5 \<and> given (optsOf ?s0) ''WCU'' 0 \<and> ((0::int) < 5 \<or> (0::int) < 0)"
    by code_simp
  note th = parse_capacity_billing [OF refl, where T = specTables and q = "''q''" and ine = "[]" and tn = "''t''" and w = "'' WITH PK=i:STRING WITH RCU=5''" and s = s,
        THEN conjunct1, THEN mp, OF s, THEN conjunct2, THEN spec, THEN spec, THEN mp, OF g]
  have a: "\<exists>s. parse specTables ?s0 = Inr s \<and>
        BillingMode (createTableInput specTables s) = None \<and>
        ProvisionedThroughput (createTableInput specTables s) =
          Some \<lparr>ReadCapacityUnits = 5, WriteCapacityUnits = 0\<rparr>"
    by (rule exI [of _ s]) (intro conjI s th [THEN conjunct1] th [THEN conjunct2])
  have "case parse specTables ?s1 of Inl e \<Rightarrow> False | Inr s \<Rightarrow> True" by code_simp
  then obtain s' where s': "parse specTables ?s1 = Inr s'"
    by (cases "parse specTables ?s1") auto
  have g': "optsOf ?s1 ''RCU'' = None \<and> optsOf ?s1 ''WCU'' = None" by code_simp
  note th' = parse_capacity_billing [OF refl, where T = specTables and q = "''q''" and ine = "[]" and tn = "''t''" and w = "'' WITH PK=i:STRING''" and s = s',
        THEN conjunct1, THEN mp, OF s', THEN conjunct1, THEN mp, OF g']
  have b: "\<exists>s. parse specTables ?s1 = Inr s \<and>
        BillingMode (createTableInput specTables s) = Some BillingModePayPerRequest \<and>
        ProvisionedThroughput (createTableInput specTables s) = None"
    by (rule exI [of _ s']) (intro conjI s' th' [THEN conjunct1] th' [THEN conjunct2])
  from a b show ?thesis by (rule conjI)
qed

text \<open>
  Claim C2 at capacities that are given as zero. In
  \<open>CREATE TABLE t WITH PK=id:S WITH RCU=0 WITH WCU=0\<close> both options are present and
  \<open>strconv.ParseInt\<close> reads each as 0. The claim, and the comment of \<open>StmtCreateTable\<close> (a table
  whose capacities are both 0 or not specified is created with the pay-per-request billing
  mode), have the request built with on-demand billing, and the test of \<open>Exec\<close>,
  \<open>s.rcu == 0 && s.wcu == 0\<close>, does so for a statement whose capacities are 0. \<open>parse\<close> refuses
  the read capacity before that (\<open>rcu <= 0\<close>): no statement is prepared and no request is
  built.
\<close>

theorem parse_capacity_zero_refused:
  "optsOf (newStmtCreateTable ''CREATE TABLE t WITH PK=id:S WITH RCU=0 WITH WCU=0'' [] ''t''
      '' WITH PK=id:S WITH RCU=0 WITH WCU=0'') ''RCU'' = Some [''0''] \<and>
   optsOf (newStmtCreateTable ''CREATE TABLE t WITH PK=id:S WITH RCU=0 WITH WCU=0'' [] ''t''
      '' WITH PK=id:S WITH RCU=0 WITH WCU=0'') ''WCU'' = Some [''0''] \<and>
   ParseInt ''0'' = Some 0 \<and>
   (case prepareCreateTable specTables ''CREATE TABLE t WITH PK=id:S WITH RCU=0 WITH WCU=0'' [] ''t''
      '' WITH PK=id:S WITH RCU=0 WITH WCU=0'' of
      (None, Some e) \<Rightarrow> e = InvalidRCU [''0'']
    | _ \<Rightarrow> False) \<and>
   (case prepareCreateTable specTables ''CREATE TABLE t WITH PK=id:S'' [] ''t'' '' WITH PK=id:S'' of
      (Some s, None) \<Rightarrow>
        rcu s = 0 \<and> wcu s = 0 \<and>
        BillingMode (createTableInput specTables s) = Some BillingModePayPerRequest
    | _ \<Rightarrow> False)"
  by code_simp

text \<open>
  The statement \<open>CREATE TABLE IF NOT EXISTS t WITH PK=id:S\<close> is prepared, and executed
  against a service that has the table already, against one that fails with another
  error, and against one that has no table; then the same statement without
  \<open>IF NOT EXISTS\<close> against the service that has the table.
\<close>

theorem Exec_if_not_exists_witness:
  "(\<exists>s. prepareCreateTable specTables ''CREATE TABLE IF NOT EXISTS t WITH PK=id:S''
           '' IF NOT EXISTS'' ''t'' '' WITH PK=id:S'' = (Some s, None) \<and>
        snd (Exec specTables (demoTables [''t'']) s) = None \<and>
        snd (Exec specTables (\<lambda>i. Some (AwsError ''LimitExceededException'')) s)
          = Some (AwsError ''LimitExceededException'') \<and>
        Exec specTables (demoTables []) s = (\<lparr>Successful = True\<rparr>, None)) \<and>
   (\<exists>s. prepareCreateTable specTables ''CREATE TABLE t WITH PK=id:S''
           [] ''t'' '' WITH PK=id:S'' = (Some s, None) \<and>
        snd (Exec specTables (demoTables [''t'']) s) = Some (AwsError ''ResourceInUseException''))"
proof -
  let ?limit = "\<lambda>i :: CreateTableInput. Some (AwsError ''LimitExceededException'')"
  have "case prepareCreateTable specTables ''CREATE TABLE IF NOT EXISTS t WITH PK=id:S''
           '' IF NOT EXISTS'' ''t'' '' WITH PK=id:S'' of
          (Some s, None) \<Rightarrow> ifNotExists s \<and> tableName s = ''t''
        | _ \<Rightarrow> False"
    by code_simp
  then obtain s where s: "prepareCreateTable specTables ''CREATE TABLE IF NOT EXISTS t WITH PK=id:S''
           '' IF NOT EXISTS'' ''t'' '' WITH PK=id:S'' = (Some s, None)"
      "ifNotExists s" "tableName s = ''t''"
    by (auto split: prod.splits option.splits)
  have tn: "TableName (createTableInput specTables s) = ''t''"
    using s(3) by (simp add: createTableInput_def)
  have h1: "ifNotExists s \<and>
      IsAwsError (demoTables [''t''] (createTableInput specTables s)) ''ResourceInUseException''"
    using s(2) tn by (simp add: demoTables_def IsAwsError_def)
  have h2: "\<not> (ifNotExists s \<and>
      IsAwsError (?limit (createTableInput specTables s)) ''ResourceInUseException'')"
    by (simp add: IsAwsError_def)
  have h3: "\<not> (ifNotExists s \<and>
      IsAwsError (demoTables [] (createTableInput specTables s)) ''ResourceInUseException'')"
    by (simp add: demoTables_def IsAwsError_def)
  have 1: "snd (Exec specTables (demoTables [''t'']) s) = None"
    by (rule Exec_if_not_exists [of s "demoTables [''t'']" specTables, THEN conjunct1, THEN mp, OF h1,
          THEN conjunct1])
  have 2: "snd (Exec specTables ?limit s) = Some (AwsError ''LimitExceededException'')"
    by (rule Exec_if_not_exists [of s ?limit specTables, THEN conjunct2, THEN conjunct1, THEN mp, OF h2])
  have "snd (Exec specTables (demoTables []) s) = None"
    using Exec_if_not_exists [of s "demoTables []" specTables, THEN conjunct2, THEN conjunct1, THEN mp, OF h3]
    by (simp add: demoTables_def)
  moreover have "Successful (fst (Exec specTables (demoTables []) s))"
    using Exec_if_not_exists [of s "demoTables []" specTables, THEN conjunct2, THEN conjunct2]
    by (simp add: demoTables_def)
  ultimately have 3: "Exec specTables (demoTables []) s = (\<lparr>Successful = True\<rparr>, None)"
    by (cases "Exec specTables (demoTables []) s") simp
  have a: "\<exists>s. prepareCreateTable specTables ''CREATE TABLE IF NOT EXISTS t WITH PK=id:S''
           '' IF NOT EXISTS'' ''t'' '' WITH PK=id:S'' = (Some s, None) \<and>
        snd (Exec specTables (demoTables [''t'']) s) = None \<and>
        snd (Exec specTables ?limit s) = Some (AwsError ''LimitExceededException'') \<and>
        Exec specTables (demoTables []) s = (\<lparr>Successful = True\<rparr>, None)"
    by (rule exI [of _ s]) (intro conjI s(1) 1 2 3)
  have "case prepareCreateTable specTables ''CREATE TABLE t WITH PK=id:S''
           [] ''t'' '' WITH PK=id:S'' of
          (Some s, None) \<Rightarrow> \<not> ifNotExists s \<and> tableName s = ''t''
        | _ \<Rightarrow> False"
    by code_simp
  then obtain n where n: "prepareCreateTable specTables ''CREATE TABLE t WITH PK=id:S''
           [] ''t'' '' WITH PK=id:S'' = (Some n, None)"
      "\<not> ifNotExists n" "tableName n = ''t''"
    by (auto split: prod.splits option.splits)
  have h4: "\<not> (ifNotExists n \<and>
      IsAwsError (demoTables [''t''] (createTableInput specTables n)) ''ResourceInUseException'')"
    using n(2) by simp
  have "snd (Exec specTables (demoTables [''t'']) n) = Some (AwsError ''ResourceInUseException'')"
    using Exec_if_not_exists [of n "demoTables [''t'']" specTables, THEN conjunct2, THEN conjunct1, THEN mp, OF h4]
      n(3)
    by (simp add: demoTables_def createTableInput_def)
  then have b: "\<exists>s. prepareCreateTable specTables ''CREATE TABLE t WITH PK=id:S''
           [] ''t'' '' WITH PK=id:S'' = (Some s, None) \<and>
        snd (Exec specTables (demoTables [''t'']) s) = Some (AwsError ''ResourceInUseException'')"
    using n(1) by blast
  from a b show ?thesis by (rule conjI)
qed

text \<open>
  Claim C1 as stated fails on the success flag. The statement
  \<open>CREATE TABLE IF NOT EXISTS t WITH PK=id:S\<close> is prepared and executed against a service
  that has the table \<open>t\<close> already (the second of two identical calls): the remote call
  fails with \<open>ResourceInUseException\<close>, \<open>Exec\<close> returns no error, and the result, built from
  the error of the remote call before the error is masked, has the success flag false, so
  \<open>RowsAffected\<close> reports 0.
\<close>

theorem Exec_success_flag_counterexample:
  "(case prepareCreateTable specTables ''CREATE TABLE IF NOT EXISTS t WITH PK=id:S''
           '' IF NOT EXISTS'' ''t'' '' WITH PK=id:S'' of
      (Some s, None) \<Rightarrow>
        ifNotExists s \<and>
        demoTables [''t''] (createTableInput specTables s) = Some (AwsError ''ResourceInUseException'') \<and>
        Exec specTables (demoTables [''t'']) s = (\<lparr>Successful = False\<rparr>, None) \<and>
        RowsAffected (fst (Exec specTables (demoTables [''t'']) s)) = (0, None)
    | _ \<Rightarrow> False)"
  by code_simp

section \<open>Properties of the transaction\<close>

lemmas demo_defs = demoQueue_def demoCodec_def demoRemote_def demoDirect_def newWorld_def
  BeginTx_def executeContext_def Let_def

lemma distribute_other: "a \<notin> set as \<Longrightarrow> distribute out i as h a = h a"
  by (induction as arbitrary: i h) auto

lemma distribute_nth:
  "distinct as \<Longrightarrow> j < length as \<Longrightarrow>
     distribute out i as h (as ! j) = (h (as ! j))\<lparr>stmt_output := Some (outputAt out (i + j))\<rparr>"
proof (induction as arbitrary: i j h)
  case Nil
  then show ?case by simp
next
  case (Cons a as)
  show ?case
  proof (cases j)
    case 0
    then show ?thesis using Cons.prems by (simp add: distribute_other)
  next
    case (Suc k)
    then have "distribute out (Suc i) as (h(a := (h a)\<lparr>stmt_output := Some (outputAt out i)\<rparr>)) (as ! k)
        = ((h(a := (h a)\<lparr>stmt_output := Some (outputAt out i)\<rparr>)) (as ! k))\<lparr>stmt_output := Some (outputAt out (Suc i + k))\<rparr>"
      using Cons.prems by (intro Cons.IH) auto
    moreover have "as ! k \<noteq> a" using Cons.prems Suc by auto
    ultimately show ?thesis using Suc by simp
  qed
qed

lemma txStatements_queries:
  "txStatements codec ts = Inr ps \<Longrightarrow> map Statement ps = map stmt_query ts"
  by (induction ts arbitrary: ps) (auto split: sum.splits prod.splits)

text \<open>The queue that \<open>executeContext\<close> builds: a new statement object at the end, and
  never the same object twice.\<close>

lemma BeginTx_queue:
  "tx (conn w) = None \<Longrightarrow> txStmtList (conn (snd (BeginTx w))) = [] \<and>
     txMode (conn (snd (BeginTx w))) = txStarted \<and> tx (conn (snd (BeginTx w))) \<noteq> None"
  by (simp add: BeginTx_def)

lemma executeContext_queue:
  assumes "txMode (conn w) = txStarted"
    and "distinct (txStmtList (conn w))" and "\<forall>a \<in> set (txStmtList (conn w)). a < nextAddr w"
  shows "txStmtList (conn (snd (executeContext direct q vs w))) = txStmtList (conn w) @ [nextAddr w] \<and>
     distinct (txStmtList (conn (snd (executeContext direct q vs w)))) \<and>
     (\<forall>a \<in> set (txStmtList (conn (snd (executeContext direct q vs w)))).
        a < nextAddr (snd (executeContext direct q vs w))) \<and>
     txMode (conn (snd (executeContext direct q vs w))) = txStarted \<and>
     tx (conn (snd (executeContext direct q vs w))) = tx (conn w)"
  using assms by (auto simp: executeContext_def Let_def)

lemma commit_started:
  assumes "tx (conn w) \<noteq> None" "txMode (conn w) = txStarted"
  shows "commit codec remote w =
     (fst (commitBody codec remote (w\<lparr>conn := (conn w)\<lparr>txMode := txCommitting\<rparr>\<rparr>)),
      (snd (commitBody codec remote (w\<lparr>conn := (conn w)\<lparr>txMode := txCommitting\<rparr>\<rparr>)))
        \<lparr>conn := (conn (snd (commitBody codec remote (w\<lparr>conn := (conn w)\<lparr>txMode := txCommitting\<rparr>\<rparr>))))
           \<lparr>tx := None, txMode := txNone, txStmtList := []\<rparr>\<rparr>)"
  using assms by (auto simp: commit_def split_beta)

lemma commitBody_empty:
  "txStmtList (conn w) = [] \<Longrightarrow> commitBody codec remote w = (None, w)"
  by (simp add: commitBody_def)

lemma commitBody_calls_heap:
  "txStatements codec (map (heap w) (txStmtList (conn w))) = Inr ps \<Longrightarrow>
   remote \<lparr>TransactStatements = ps, ReturnConsumedCapacity = ''TOTAL''\<rparr> = Inr out \<Longrightarrow>
   txStmtList (conn w) \<noteq> [] \<Longrightarrow>
   commitBody codec remote w =
     (None, w\<lparr>calls := calls w @ [\<lparr>TransactStatements = ps, ReturnConsumedCapacity = ''TOTAL''\<rparr>],
              heap := distribute out 0 (txStmtList (conn w)) (heap w)\<rparr>)"
  by (simp add: commitBody_def Let_def)

text \<open>
  Claim C3. A commit from the started state with a queue of \<open>n > 0\<close> statement objects
  (distinct, as \<open>executeContext\<close> allocates them) whose parameters the codec accepts and
  whose batch the remote service accepts returns no error, sends one request that lists the
  statements in queue order, and writes into the \<open>i\<close>-th queued statement, for every
  \<open>i < n\<close>: the \<open>i\<close>-th capacity record when the batch returned more than \<open>i\<close> of them,
  the item of the \<open>i\<close>-th response as a single row when the batch returned more than \<open>i\<close>
  responses, no continuation token, and the metadata of the batch.
\<close>

theorem commit_distributes_outputs:
  assumes "tx (conn w) \<noteq> None" and "txMode (conn w) = txStarted"
    and "txStmtList (conn w) \<noteq> []" and "distinct (txStmtList (conn w))"
    and "txStatements codec (map (heap w) (txStmtList (conn w))) = Inr ps"
    and "remote \<lparr>TransactStatements = ps, ReturnConsumedCapacity = ''TOTAL''\<rparr> = Inr out"
  shows "fst (commit codec remote w) = None \<and>
     calls (snd (commit codec remote w)) =
       calls w @ [\<lparr>TransactStatements = ps, ReturnConsumedCapacity = ''TOTAL''\<rparr>] \<and>
     map Statement ps = map (\<lambda>a. stmt_query (heap w a)) (txStmtList (conn w)) \<and>
     (\<forall>i < length (txStmtList (conn w)).
        heap (snd (commit codec remote w)) (txStmtList (conn w) ! i) =
          (heap w (txStmtList (conn w) ! i))
            \<lparr>stmt_output := Some
               \<lparr>ConsumedCapacity =
                  (if i < length (TxConsumedCapacity out) then Some (TxConsumedCapacity out ! i)
                   else None),
                Items = (if i < length (Responses out) then [Item (Responses out ! i)] else []),
                NextToken = None,
                ResultMetadata = TxResultMetadata out\<rparr>\<rparr>)"
proof -
  let ?w1 = "w\<lparr>conn := (conn w)\<lparr>txMode := txCommitting\<rparr>\<rparr>"
  let ?input = "\<lparr>TransactStatements = ps, ReturnConsumedCapacity = ''TOTAL''\<rparr>"
  have q: "txStmtList (conn ?w1) = txStmtList (conn w)" "heap ?w1 = heap w" "calls ?w1 = calls w"
    by simp_all
  have body: "commitBody codec remote ?w1 =
     (None, ?w1\<lparr>calls := calls w @ [?input],
                heap := distribute out 0 (txStmtList (conn w)) (heap w)\<rparr>)"
    using commitBody_calls_heap [of codec ?w1 ps remote out] assms(3,5,6) q by simp
  have c: "commit codec remote w =
     (None, (?w1\<lparr>calls := calls w @ [?input],
                 heap := distribute out 0 (txStmtList (conn w)) (heap w)\<rparr>)
              \<lparr>conn := (conn ?w1)\<lparr>tx := None, txMode := txNone, txStmtList := []\<rparr>\<rparr>)"
    using commit_started [OF assms(1,2), of codec remote] body by simp
  have 1: "fst (commit codec remote w) = None" using c by simp
  have 2: "calls (snd (commit codec remote w)) = calls w @ [?input]" using c by simp
  have 3: "map Statement ps = map (\<lambda>a. stmt_query (heap w a)) (txStmtList (conn w))"
    using txStatements_queries [OF assms(5)] by (simp add: comp_def)
  have 4: "\<forall>i < length (txStmtList (conn w)).
        heap (snd (commit codec remote w)) (txStmtList (conn w) ! i) =
          (heap w (txStmtList (conn w) ! i))
            \<lparr>stmt_output := Some
               \<lparr>ConsumedCapacity =
                  (if i < length (TxConsumedCapacity out) then Some (TxConsumedCapacity out ! i)
                   else None),
                Items = (if i < length (Responses out) then [Item (Responses out ! i)] else []),
                NextToken = None,
                ResultMetadata = TxResultMetadata out\<rparr>\<rparr>"
  proof (intro allI impI)
    fix i
    assume i: "i < length (txStmtList (conn w))"
    have "heap (snd (commit codec remote w)) = distribute out 0 (txStmtList (conn w)) (heap w)"
      using c by simp
    then show "heap (snd (commit codec remote w)) (txStmtList (conn w) ! i) =
          (heap w (txStmtList (conn w) ! i))
            \<lparr>stmt_output := Some
               \<lparr>ConsumedCapacity =
                  (if i < length (TxConsumedCapacity out) then Some (TxConsumedCapacity out ! i)
                   else None),
                Items = (if i < length (Responses out) then [Item (Responses out ! i)] else []),
                NextToken = None,
                ResultMetadata = TxResultMetadata out\<rparr>\<rparr>"
      using distribute_nth [OF assms(4) i, of out 0 "heap w"] by (simp add: outputAt_def)
  qed
  from 1 2 3 4 show ?thesis by (intro conjI)
qed

lemma commitBody_conn: "conn (snd (commitBody codec remote w)) = conn w"
  by (auto simp: commitBody_def Let_def split: sum.splits)

text \<open>
  Claim C4. After a commit from the started state, whatever the codec and the remote
  service do, the connection has no transaction, the state \<open>txNone\<close> and an empty queue,
  and \<open>BeginTx\<close> succeeds on it; with an empty queue the commit returns no error and sends
  no request.
\<close>

theorem commit_resets_state:
  assumes "tx (conn w) \<noteq> None" and "txMode (conn w) = txStarted"
  shows "tx (conn (snd (commit codec remote w))) = None \<and>
     txMode (conn (snd (commit codec remote w))) = txNone \<and>
     txStmtList (conn (snd (commit codec remote w))) = [] \<and>
     fst (BeginTx (snd (commit codec remote w))) = (Some Tx, None) \<and>
     txMode (conn (snd (BeginTx (snd (commit codec remote w))))) = txStarted \<and>
     (txStmtList (conn w) = [] \<longrightarrow>
        fst (commit codec remote w) = None \<and>
        calls (snd (commit codec remote w)) = calls w)"
proof -
  note c = commit_started [OF assms, of codec remote]
  have 1: "tx (conn (snd (commit codec remote w))) = None"
    "txMode (conn (snd (commit codec remote w))) = txNone"
    "txStmtList (conn (snd (commit codec remote w))) = []"
    by (simp_all add: c)
  have 2: "fst (BeginTx (snd (commit codec remote w))) = (Some Tx, None)"
    "txMode (conn (snd (BeginTx (snd (commit codec remote w))))) = txStarted"
    using 1 by (simp_all add: BeginTx_def)
  have 3: "txStmtList (conn w) = [] \<longrightarrow>
        fst (commit codec remote w) = None \<and> calls (snd (commit codec remote w)) = calls w"
  proof
    assume e: "txStmtList (conn w) = []"
    have "commitBody codec remote (w\<lparr>conn := (conn w)\<lparr>txMode := txCommitting\<rparr>\<rparr>)
        = (None, w\<lparr>conn := (conn w)\<lparr>txMode := txCommitting\<rparr>\<rparr>)"
      using e by (intro commitBody_empty) simp
    then show "fst (commit codec remote w) = None \<and> calls (snd (commit codec remote w)) = calls w"
      by (simp add: c)
  qed
  from 1 2 3 show ?thesis by (intro conjI)
qed

text \<open>
  Claim C8. A rollback from the started state returns no error, empties the queue, leaves
  the log of remote calls as it was and the state \<open>txNone\<close>, and \<open>BeginTx\<close> succeeds
  afterwards; without a transaction, \<open>rollback\<close> and \<open>commit\<close> both fail with \<open>ErrNoTx\<close> and
  change nothing.
\<close>

theorem rollback_discards_queue:
  "(tx (conn w) \<noteq> None \<and> txMode (conn w) = txStarted \<longrightarrow>
      fst (rollback w) = None \<and>
      tx (conn (snd (rollback w))) = None \<and>
      txMode (conn (snd (rollback w))) = txNone \<and>
      txStmtList (conn (snd (rollback w))) = [] \<and>
      calls (snd (rollback w)) = calls w \<and>
      fst (BeginTx (snd (rollback w))) = (Some Tx, None) \<and>
      txMode (conn (snd (BeginTx (snd (rollback w))))) = txStarted) \<and>
   (tx (conn w) = None \<longrightarrow>
      rollback w = (Some ErrNoTx, w) \<and> commit codec remote w = (Some ErrNoTx, w))"
  by (simp add: rollback_def commit_def BeginTx_def)

text \<open>
  The queue after two statements is \<open>[0, 1]\<close>, in the order of insertion; the first
  statement receives the first capacity record and the only item, the second statement the
  second capacity record and no row.
\<close>

theorem commit_distributes_outputs_witness:
  "txStmtList (conn (demoQueue [(''q0'', [''a'']), (''q1'', [''b''])])) = [0, 1] \<and>
   fst (commit demoCodec demoRemote (demoQueue [(''q0'', [''a'']), (''q1'', [''b''])])) = None \<and>
   stmt_output (heap (snd (commit demoCodec demoRemote (demoQueue [(''q0'', [''a'']), (''q1'', [''b''])]))) 0) =
     Some \<lparr>ConsumedCapacity = Some (Capacity ''c0''),
            Items = [[(''k'', AttributeValueMemberS ''v'')]],
            NextToken = None, ResultMetadata = Metadata ''m''\<rparr> \<and>
   stmt_output (heap (snd (commit demoCodec demoRemote (demoQueue [(''q0'', [''a'']), (''q1'', [''b''])]))) 1) =
     Some \<lparr>ConsumedCapacity = Some (Capacity ''c1''), Items = [],
            NextToken = None, ResultMetadata = Metadata ''m''\<rparr>"
proof -
  let ?w = "demoQueue [(''q0'', [''a'']), (''q1'', [''b''])]"
  let ?ps = "[\<lparr>Statement = ''q0'', Parameters = [AttributeValueMemberS ''a'']\<rparr>,
              \<lparr>Statement = ''q1'', Parameters = [AttributeValueMemberS ''b'']\<rparr>]"
  let ?out = "\<lparr>TxConsumedCapacity = [Capacity ''c0'', Capacity ''c1''],
                Responses = [\<lparr>Item = [(''k'', AttributeValueMemberS ''v'')]\<rparr>],
                TxResultMetadata = Metadata ''m''\<rparr>"
  have q: "txStmtList (conn ?w) = [0, 1]" by (simp add: demo_defs)
  have h1: "tx (conn ?w) \<noteq> None" by (simp add: demo_defs)
  have h2: "txMode (conn ?w) = txStarted" by (simp add: demo_defs)
  have h3: "txStmtList (conn ?w) \<noteq> []" using q by simp
  have h4: "distinct (txStmtList (conn ?w))" using q by simp
  have h5: "txStatements demoCodec (map (heap ?w) (txStmtList (conn ?w))) = Inr ?ps"
    by (simp add: demo_defs)
  have h6: "demoRemote \<lparr>TransactStatements = ?ps, ReturnConsumedCapacity = ''TOTAL''\<rparr> = Inr ?out"
    by (simp add: demoRemote_def)
  note th = commit_distributes_outputs [where w = ?w and codec = demoCodec and remote = demoRemote
      and ps = ?ps and out = ?out, OF h1 h2 h3 h4 h5 h6]
  have a: "fst (commit demoCodec demoRemote ?w) = None" by (rule th [THEN conjunct1])
  note all = th [THEN conjunct2, THEN conjunct2, THEN conjunct2]
  have b0: "stmt_output (heap (snd (commit demoCodec demoRemote ?w)) 0) =
     Some \<lparr>ConsumedCapacity = Some (Capacity ''c0''),
            Items = [[(''k'', AttributeValueMemberS ''v'')]],
            NextToken = None, ResultMetadata = Metadata ''m''\<rparr>"
    using all [THEN spec, of 0] q by simp
  have b1: "stmt_output (heap (snd (commit demoCodec demoRemote ?w)) 1) =
     Some \<lparr>ConsumedCapacity = Some (Capacity ''c1''), Items = [],
            NextToken = None, ResultMetadata = Metadata ''m''\<rparr>"
    using all [THEN spec, of 1] q by simp
  from q a b0 b1 show ?thesis by (intro conjI)
qed

text \<open>
  The three outcomes (success, a value the codec refuses, a batch the remote service
  refuses) and the empty transaction.
\<close>

theorem commit_resets_state_witness:
  "txMode (conn (snd (commit demoCodec demoRemote (demoQueue [(''q0'', [''a''])])))) = txNone \<and>
   txStmtList (conn (snd (commit demoCodec demoRemote (demoQueue [(''q0'', [''a''])])))) = [] \<and>
   fst (commit demoCodec demoRemote (demoQueue [(''q0'', [''a''])])) = None \<and>
   txMode (conn (snd (commit demoCodec demoRemote (demoQueue [(''q0'', [[]])])))) = txNone \<and>
   fst (commit demoCodec demoRemote (demoQueue [(''q0'', [[]])])) = Some (ErrMarshal 1 ''q0'' ''unsupported value'') \<and>
   txMode (conn (snd (commit demoCodec demoRemote
      (demoQueue [(''q0'', [''a'']), (''q1'', [''b'']), (''q2'', [''c''])])))) = txNone \<and>
   fst (commit demoCodec demoRemote (demoQueue [(''q0'', [''a'']), (''q1'', [''b'']), (''q2'', [''c''])]))
     = Some (ErrRemote (AwsError ''TransactionCanceledException'')) \<and>
   fst (commit demoCodec demoRemote (demoQueue [])) = None \<and>
   calls (snd (commit demoCodec demoRemote (demoQueue []))) = []"
proof -
  let ?ok = "demoQueue [(''q0'', [''a''])]"
  let ?bad = "demoQueue [(''q0'', [[]])]"
  let ?many = "demoQueue [(''q0'', [''a'']), (''q1'', [''b'']), (''q2'', [''c''])]"
  let ?none = "demoQueue [] :: string world"
  have ok: "tx (conn ?ok) \<noteq> None" "txMode (conn ?ok) = txStarted" by (simp_all add: demo_defs)
  have bad: "tx (conn ?bad) \<noteq> None" "txMode (conn ?bad) = txStarted" by (simp_all add: demo_defs)
  have many: "tx (conn ?many) \<noteq> None" "txMode (conn ?many) = txStarted" by (simp_all add: demo_defs)
  have none: "tx (conn ?none) \<noteq> None" "txMode (conn ?none) = txStarted"
    "txStmtList (conn ?none) = []" "calls ?none = []" by (simp_all add: demo_defs)
  note t1 = commit_resets_state [OF ok, of demoCodec demoRemote]
  note t2 = commit_resets_state [OF bad, of demoCodec demoRemote]
  note t3 = commit_resets_state [OF many, of demoCodec demoRemote]
  note t4 = commit_resets_state [OF none(1,2), of demoCodec demoRemote,
      THEN conjunct2, THEN conjunct2, THEN conjunct2, THEN conjunct2, THEN conjunct2, THEN mp,
      OF none(3)]
  have e1: "fst (commit demoCodec demoRemote ?ok) = None"
    by (simp add: commit_def commitBody_def demo_defs)
  have e2: "fst (commit demoCodec demoRemote ?bad) = Some (ErrMarshal 1 ''q0'' ''unsupported value'')"
    by (simp add: commit_def commitBody_def demo_defs)
  have e3: "fst (commit demoCodec demoRemote ?many) = Some (ErrRemote (AwsError ''TransactionCanceledException''))"
    by (simp add: commit_def commitBody_def demo_defs)
  have e4: "calls (snd (commit demoCodec demoRemote ?none)) = []"
    using t4 [THEN conjunct2] none(4) by simp
  show ?thesis
    by (intro conjI t1 [THEN conjunct2, THEN conjunct1]
        t1 [THEN conjunct2, THEN conjunct2, THEN conjunct1] e1
        t2 [THEN conjunct2, THEN conjunct1] e2
        t3 [THEN conjunct2, THEN conjunct1] e3 t4 [THEN conjunct1] e4)
qed

text \<open>
  Three queued statements, then a rollback; and both calls on a fresh connection.
\<close>

theorem rollback_discards_queue_witness:
  "fst (rollback (demoQueue [(''q0'', [''a'']), (''q1'', [''b'']), (''q2'', [''c''])])) = None \<and>
   txStmtList (conn (demoQueue [(''q0'', [''a'']), (''q1'', [''b'']), (''q2'', [''c''])])) = [0, 1, 2] \<and>
   txStmtList (conn (snd (rollback (demoQueue [(''q0'', [''a'']), (''q1'', [''b'']), (''q2'', [''c''])])))) = [] \<and>
   calls (snd (rollback (demoQueue [(''q0'', [''a'']), (''q1'', [''b'']), (''q2'', [''c''])]))) = [] \<and>
   fst (BeginTx (snd (rollback (demoQueue [(''q0'', [''a'']), (''q1'', [''b'']), (''q2'', [''c''])]))))
     = (Some Tx, None) \<and>
   rollback (newWorld :: string world) = (Some ErrNoTx, newWorld) \<and>
   commit demoCodec demoRemote newWorld = (Some ErrNoTx, newWorld)"
proof -
  let ?w = "demoQueue [(''q0'', [''a'']), (''q1'', [''b'']), (''q2'', [''c''])]"
  have h: "tx (conn ?w) \<noteq> None \<and> txMode (conn ?w) = txStarted" by (simp add: demo_defs)
  have q: "txStmtList (conn ?w) = [0, 1, 2]" "calls ?w = []" by (simp_all add: demo_defs)
  have n: "tx (conn (newWorld :: string world)) = None" by (simp add: newWorld_def)
  note t = rollback_discards_queue [of ?w, THEN conjunct1, THEN mp, OF h]
  note u = rollback_discards_queue [of "newWorld :: string world" demoCodec demoRemote,
      THEN conjunct2, THEN mp, OF n]
  have c: "calls (snd (rollback ?w)) = []"
    using t [THEN conjunct2, THEN conjunct2, THEN conjunct2, THEN conjunct2, THEN conjunct1] q(2)
    by simp
  show ?thesis
    by (intro conjI t [THEN conjunct1] q(1)
        t [THEN conjunct2, THEN conjunct2, THEN conjunct2, THEN conjunct1] c
        t [THEN conjunct2, THEN conjunct2, THEN conjunct2, THEN conjunct2, THEN conjunct2, THEN conjunct1]
        u [THEN conjunct1] u [THEN conjunct2])
qed

section \<open>Properties of the result cursor\<close>

lemma Next_err:
  "err r = Some e \<Longrightarrow> Next remote um (r, log) = Some (NextError e, (r, log))"
  by (subst Next.simps) simp

lemma Next_limit:
  "err r = None \<Longrightarrow> stmt r = Some st \<Longrightarrow> 0 < sint (limit st) \<Longrightarrow>
   sint (limit st) \<le> sint (read r) \<Longrightarrow>
   Next remote um (r, log) = Some (NextError io_EOF, (r, log))"
  by (subst Next.simps) simp

lemma NextN_fixed:
  "Next remote um s = Some (x, s) \<Longrightarrow> NextN remote um m s = Some (replicate m x, s)"
  by (induction m) auto

lemma sint_succ:
  fixes x :: "32 word"
  assumes "sint x < sint (L :: 32 word)"
  shows "sint (x + 1) = sint x + 1"
proof -
  have "sint L < 2 ^ 31" using sint_lt [of L] by simp
  moreover have "- (2 ^ 31) \<le> sint x" using sint_ge [of x] by simp
  ultimately have "- (2 ^ 31) \<le> sint x + 1" "sint x + 1 < 2 ^ 31" using assms by linarith+
  then show ?thesis by (simp add: sint_word_add signed_take_bit_int_eq_self)
qed

lemma fetchNext_Done:
  "fetchNext remote (r, log) = (Done e, (r', log')) \<Longrightarrow> stmt r = Some st \<Longrightarrow>
     \<exists>st'. stmt r' = Some st' \<and> limit st' = limit st \<and> read r' = read r \<and> err r' = err r"
  by (auto simp: fetchNext_def Let_def split: option.splits prod.splits if_splits)

lemma fetchNext_Panic: "fetchNext remote s = (Panic, s') \<Longrightarrow> s' = s"
  by (auto simp: fetchNext_def Let_def split: option.splits prod.splits if_splits)

lemma Next_step:
  assumes "Next remote um s = Some y"
  shows "stepOk remote um L s y"
proof (rule Next.raw_induct [where P = "\<lambda>rem u s y. stepOk rem u L s y", OF _ assms])
  fix N :: "(ExecuteStatementInput \<Rightarrow> ExecuteStatementOutput option \<times> remote_error option)
     \<Rightarrow> (AttributeValue option \<Rightarrow> 'a) \<Rightarrow> 'b rows_state \<Rightarrow> ('a next_result \<times> 'b rows_state) option"
  fix rem u s y
  assume IH: "\<And>u s b y. N u s b = Some y \<Longrightarrow> stepOk u s L b y"
  assume body: "(let (r, log) = s
      in case err r of
         None \<Rightarrow>
           (case stmt r of None \<Rightarrow> Some (NextPanic, s)
           | Some st \<Rightarrow>
               if 0 < sint (limit st) \<and> sint (limit st) \<le> sint (read r)
               then Some (NextError io_EOF, s)
               else if items r = []
                    then case fetchNext rem s of
                         (Panic, s') \<Rightarrow> Some (NextPanic, s')
                         | (Done e, r', log') \<Rightarrow>
                             (case e of
                             None \<Rightarrow> N rem u (r'\<lparr>err := e\<rparr>, log')
                             | Some x \<Rightarrow> Some (NextError x, r'\<lparr>err := e\<rparr>, log'))
                    else let rowData = hd (items r);
                             r1 = r\<lparr>items := tl (items r), read := read r + 1\<rparr>
                         in Some (NextRow (map (\<lambda>colName. u (map_of rowData colName)) (columnList r1)),
                              r1, log))
         | Some e \<Rightarrow> Some (NextError e, s)) = Some y"
  obtain r log where s: "s = (r, log)" by (cases s)
  show "stepOk rem u L s y"
  proof (cases "err r")
    case (Some e)
    then have y: "y = (NextError e, s)" using body s by simp
    show ?thesis using y s Some Next_err [of r e rem u log] by (auto simp: stepOk_def)
  next
    case None
    show ?thesis
    proof (cases "stmt r")
      case n: None
      then have y: "y = (NextPanic, s)" using body s None by simp
      then show ?thesis by (simp add: stepOk_def)
    next
      case (Some st)
      show ?thesis
      proof (cases "0 < sint (limit st) \<and> sint (limit st) \<le> sint (read r)")
        case True
        then have y: "y = (NextError io_EOF, s)" using body s None Some by simp
        show ?thesis using y s Next_limit [OF None Some, of rem u log] True
          by (auto simp: stepOk_def)
      next
        case notlim: False
        have below: "\<And>k. cursorInv L k s \<Longrightarrow> 0 < sint L \<Longrightarrow> int k < sint L"
          using notlim s Some by (auto simp: cursorInv_def)
        show ?thesis
        proof (cases "items r = []")
          case True
          obtain o' s' where f: "fetchNext rem s = (o', s')" by (cases "fetchNext rem s")
          show ?thesis
          proof (cases o')
            case Panic
            then have "y = (NextPanic, s')" using body s None Some notlim True f by simp
            moreover have "s' = s" using f Panic fetchNext_Panic by blast
            ultimately show ?thesis by (simp add: stepOk_def)
          next
            case (Done e)
            obtain r' log' where s': "s' = (r', log')" by (cases s')
            from fetchNext_Done [of rem r log e r' log' st] f Done s s' Some
            obtain st' where st': "stmt r' = Some st'" "limit st' = limit st" "read r' = read r"
              by auto
            show ?thesis
            proof (cases e)
              case en: None
              then have "N rem u (r'\<lparr>err := None\<rparr>, log') = Some y"
                using body s None Some notlim True f Done s' by simp
              from IH [OF this] have ih: "stepOk rem u L (r'\<lparr>err := None\<rparr>, log') y" .
              have "\<And>k. cursorInv L k s \<Longrightarrow> cursorInv L k (r'\<lparr>err := None\<rparr>, log')"
                using s st' Some by (auto simp: cursorInv_def)
              then show ?thesis using ih by (auto simp: stepOk_def)
            next
              case es: (Some x)
              then have y: "y = (NextError x, (r'\<lparr>err := Some x\<rparr>, log'))"
                using body s None Some notlim True f Done s' by simp
              have "\<And>k. cursorInv L k s \<Longrightarrow> 0 < sint L \<Longrightarrow> cursorInv L k (r'\<lparr>err := Some x\<rparr>, log')"
                using s st' Some below by (auto simp: cursorInv_def)
              moreover have "Next rem u (r'\<lparr>err := Some x\<rparr>, log') = Some (NextError x, (r'\<lparr>err := Some x\<rparr>, log'))"
                by (rule Next_err) simp
              ultimately show ?thesis using y by (auto simp: stepOk_def)
            qed
          qed
        next
          case False
          then have y: "y = (NextRow (map (\<lambda>colName. u (map_of (hd (items r)) colName)) (columnList r)),
                              (r\<lparr>items := tl (items r), read := read r + 1\<rparr>, log))"
            using body s None Some notlim by (simp add: Let_def)
          have "\<And>k. cursorInv L k s \<Longrightarrow> 0 < sint L \<Longrightarrow>
              cursorInv L (Suc k) (r\<lparr>items := tl (items r), read := read r + 1\<rparr>, log)"
          proof -
            fix k
            assume i: "cursorInv L k s" and p: "0 < sint L"
            have kl: "int k < sint L" using below [OF i p] .
            have rd: "sint (read r) = int k" using i s by (simp add: cursorInv_def)
            have "sint (read r + 1) = sint (read r) + 1"
              using kl rd by (intro sint_succ [of _ L]) simp
            then show "cursorInv L (Suc k) (r\<lparr>items := tl (items r), read := read r + 1\<rparr>, log)"
              using i s kl rd None by (auto simp: cursorInv_def)
          qed
          then show ?thesis using y by (auto simp: stepOk_def)
        qed
      qed
    qed
  qed
qed

lemma NextN_inv:
  "NextN remote um n s = Some (xs, s') \<Longrightarrow> cursorInv L k s \<Longrightarrow> 0 < sint L \<Longrightarrow>
     cursorInv L (k + rowsOf xs) s'"
proof (induction n arbitrary: s xs k)
  case 0
  then show ?case by (simp add: rowsOf_def)
next
  case (Suc n)
  from Suc.prems(1) obtain x s1 ys where
    x: "Next remote um s = Some (x, s1)" and ys: "NextN remote um n s1 = Some (ys, s')"
    and xs: "xs = x # ys"
    by (auto split: option.splits prod.splits)
  have "cursorInv L (k + (if isRow x then 1 else 0)) s1"
    using Next_step [OF x, of L] Suc.prems(2,3) by (auto simp: stepOk_def)
  from Suc.IH [OF ys this Suc.prems(3)] show ?case
    using xs by (cases "isRow x") (simp_all add: rowsOf_def add.assoc)
qed

lemma cursorInv_full:
  assumes "cursorInv L k s" and "int k = sint L" and "0 < sint L"
  shows "Next remote um s = Some (NextError io_EOF, s)"
proof -
  obtain r log where s: "s = (r, log)" by (cases s)
  from assms s obtain st where "stmt r = Some st" "limit st = L" "sint (read r) = int k"
    "err r = None"
    by (auto simp: cursorInv_def)
  then show ?thesis
    using assms(2,3) s Next_limit [of r st remote um log] by simp
qed

text \<open>
  Claim C6. For a cursor that starts without error and with \<open>read = 0\<close> under a positive
  limit \<open>L\<close>: after any sequence of returning calls of \<open>Next\<close> that yielded \<open>L\<close> rows, every
  further sequence of calls returns \<open>io.EOF\<close> each time and leaves the cursor and the log of
  remote fetches as they are. And for every cursor: once a call of \<open>Next\<close> has returned
  \<open>io.EOF\<close>, every further sequence of calls returns \<open>io.EOF\<close> each time and leaves the
  cursor and the log of remote fetches as they are.
\<close>

theorem Next_exhaustion:
  "(stmt r0 = Some st \<and> err r0 = None \<and> read r0 = 0 \<and> 0 < sint (limit st) \<and>
    NextN remote um n (r0, log0) = Some (xs, s) \<and> int (rowsOf xs) = sint (limit st) \<longrightarrow>
      (\<forall>m. NextN remote um m s = Some (replicate m (NextError io_EOF), s))) \<and>
   (Next remote um s1 = Some (NextError io_EOF, s2) \<longrightarrow>
      (\<forall>m. NextN remote um m s2 = Some (replicate m (NextError io_EOF), s2)))"
proof (intro conjI impI allI)
  fix m
  assume h: "stmt r0 = Some st \<and> err r0 = None \<and> read r0 = 0 \<and> 0 < sint (limit st) \<and>
    NextN remote um n (r0, log0) = Some (xs, s) \<and> int (rowsOf xs) = sint (limit st)"
  then have "cursorInv (limit st) 0 (r0, log0)" by (simp add: cursorInv_def)
  with h have "cursorInv (limit st) (0 + rowsOf xs) s"
    by (intro NextN_inv [of remote um n "(r0, log0)" xs s]) simp_all
  then have "Next remote um s = Some (NextError io_EOF, s)"
    using h by (intro cursorInv_full [of "limit st" "rowsOf xs"]) simp_all
  then show "NextN remote um m s = Some (replicate m (NextError io_EOF), s)"
    by (rule NextN_fixed)
next
  fix m
  assume "Next remote um s1 = Some (NextError io_EOF, s2)"
  from Next_step [OF this, of "0"] have "Next remote um s2 = Some (NextError io_EOF, s2)"
    by (simp add: stepOk_def)
  then show "NextN remote um m s2 = Some (replicate m (NextError io_EOF), s2)"
    by (rule NextN_fixed)
qed

text \<open>
  The limit is 2 and the page has three items: two calls yield two rows, one item stays in
  the buffer and the remote side has more pages, and three more calls return \<open>io.EOF\<close>
  with no fetch in the log. And a cursor over an empty last page: the first call returns
  \<open>io.EOF\<close> and stores it, and so do the next calls, with no fetch.
\<close>

theorem Next_exhaustion_witness:
  "(\<exists>xs s. NextN demoFetch id 2 (demoRows, []) = Some (xs, s) \<and>
      xs = [NextRow [Some (AttributeValueMemberN ''1'')], NextRow [Some (AttributeValueMemberN ''2'')]] \<and>
      items (fst s) = [[(''a'', AttributeValueMemberN ''3'')]] \<and> snd s = [] \<and>
      NextN demoFetch id 3 s = Some ([NextError io_EOF, NextError io_EOF, NextError io_EOF], s)) \<and>
   Next demoFetch id (demoPage [], []) =
     Some (NextError io_EOF, ((demoPage [])\<lparr>err := Some io_EOF\<rparr>, [])) \<and>
   NextN demoFetch id 2 ((demoPage [])\<lparr>err := Some io_EOF\<rparr>, []) =
     Some ([NextError io_EOF, NextError io_EOF], ((demoPage [])\<lparr>err := Some io_EOF\<rparr>, []))"
proof -
  have "case NextN demoFetch id 2 (demoRows, []) of None \<Rightarrow> False
        | Some (xs, s) \<Rightarrow>
            xs = [NextRow [Some (AttributeValueMemberN ''1'')], NextRow [Some (AttributeValueMemberN ''2'')]] \<and>
            items (fst s) = [[(''a'', AttributeValueMemberN ''3'')]] \<and> snd s = []"
    by (simp add: numeral_2_eq_2 Next.simps demoRows_def demoStatement_def)
  then obtain xs s where r: "NextN demoFetch id 2 (demoRows, []) = Some (xs, s)"
    "xs = [NextRow [Some (AttributeValueMemberN ''1'')], NextRow [Some (AttributeValueMemberN ''2'')]]"
    "items (fst s) = [[(''a'', AttributeValueMemberN ''3'')]]" "snd s = []"
    by (cases "NextN demoFetch id 2 (demoRows, [])") auto
  have n: "int (rowsOf xs) = 2" using r(2) by (simp add: rowsOf_def)
  have h: "stmt demoRows = Some demoStatement \<and> err demoRows = None \<and> read demoRows = 0 \<and>
      0 < sint (limit demoStatement) \<and>
      NextN demoFetch id 2 (demoRows, []) = Some (xs, s) \<and> int (rowsOf xs) = sint (limit demoStatement)"
    using r(1) n by (simp add: demoRows_def demoStatement_def)
  have "NextN demoFetch id 3 s = Some (replicate 3 (NextError io_EOF), s)"
    by (rule Next_exhaustion [THEN conjunct1, THEN mp, OF h, THEN spec])
  then have "NextN demoFetch id 3 s = Some ([NextError io_EOF, NextError io_EOF, NextError io_EOF], s)"
    by (simp add: numeral_3_eq_3)
  with r have 1: "\<exists>xs s. NextN demoFetch id 2 (demoRows, []) = Some (xs, s) \<and>
      xs = [NextRow [Some (AttributeValueMemberN ''1'')], NextRow [Some (AttributeValueMemberN ''2'')]] \<and>
      items (fst s) = [[(''a'', AttributeValueMemberN ''3'')]] \<and> snd s = [] \<and>
      NextN demoFetch id 3 s = Some ([NextError io_EOF, NextError io_EOF, NextError io_EOF], s)"
    by blast
  have e: "Next demoFetch id (demoPage [], []) =
     Some (NextError io_EOF, ((demoPage [])\<lparr>err := Some io_EOF\<rparr>, []))"
    by (simp add: Next.simps fetchNext_def demoPage_def)
  have "NextN demoFetch id 2 ((demoPage [])\<lparr>err := Some io_EOF\<rparr>, []) =
     Some (replicate 2 (NextError io_EOF), ((demoPage [])\<lparr>err := Some io_EOF\<rparr>, []))"
    by (rule Next_exhaustion [THEN conjunct2, THEN mp, OF e, THEN spec])
  then have 2: "NextN demoFetch id 2 ((demoPage [])\<lparr>err := Some io_EOF\<rparr>, []) =
     Some ([NextError io_EOF, NextError io_EOF], ((demoPage [])\<lparr>err := Some io_EOF\<rparr>, []))"
    by (simp add: numeral_2_eq_2)
  from 1 e 2 show ?thesis by (intro conjI)
qed

lemma initItem_col:
  "initItem tf nf item m = m' \<Longrightarrow>
     (fst m' col, snd m' col) =
       foldl (colStep tf nf) (fst m col, snd m col) (map snd (filter (\<lambda>e. fst e = col) item))"
proof (induction item arbitrary: m)
  case Nil
  then show ?case by simp
next
  case (Cons e item)
  obtain c av where e: "e = (c, av)" by (cases e)
  obtain ct cs where m: "m = (ct, cs)" by (cases m)
  let ?m1 = "if ct c = None then (ct(c := tf av), cs(c \<mapsto> nf av)) else (ct, cs)"
  have "initItem tf nf item ?m1 = m'" using Cons.prems e m by simp
  from Cons.IH [OF this] have ih: "(fst m' col, snd m' col) =
       foldl (colStep tf nf) (fst ?m1 col, snd ?m1 col) (map snd (filter (\<lambda>e. fst e = col) item))" .
  show ?case
  proof (cases "c = col")
    case True
    then have "(fst ?m1 col, snd ?m1 col) = colStep tf nf (fst m col, snd m col) av"
      using m by (simp add: colStep_def)
    then show ?thesis using ih e True by simp
  next
    case False
    then have "(fst ?m1 col, snd ?m1 col) = (fst m col, snd m col)" using m by simp
    then show ?thesis using ih e False by simp
  qed
qed

lemma initItems_col:
  "foldl (\<lambda>m item. initItem tf nf item m) m page = m' \<Longrightarrow>
     (fst m' col, snd m' col) = foldl (colStep tf nf) (fst m col, snd m col) (colValues col page)"
proof (induction page arbitrary: m)
  case Nil
  then show ?case by (simp add: colValues_def)
next
  case (Cons item page)
  have "foldl (\<lambda>m item. initItem tf nf item m) (initItem tf nf item m) page = m'"
    using Cons.prems by simp
  from Cons.IH [OF this] initItem_col [OF refl, of tf nf item m col]
  show ?case by (simp add: colValues_def)
qed

lemma colStep_known:
  "t \<noteq> None \<Longrightarrow> foldl (colStep tf nf) (t, s) vs = (t, s)"
  by (induction vs) (auto simp: colStep_def)

lemma colStep_fold:
  "foldl (colStep tf nf) (None, s) vs =
     (case find (\<lambda>av. tf av \<noteq> None) vs of
        Some av \<Rightarrow> (tf av, Some (nf av))
      | None \<Rightarrow> (None, if vs = [] then s else Some (nf (last vs))))"
proof (induction vs arbitrary: s)
  case Nil
  then show ?case by simp
next
  case (Cons v vs)
  show ?case
  proof (cases "tf v")
    case None
    then have "foldl (colStep tf nf) (None, s) (v # vs) = foldl (colStep tf nf) (None, Some (nf v)) vs"
      by (simp add: colStep_def)
    then show ?thesis using Cons.IH [of "Some (nf v)"] None by (auto split: option.splits)
  next
    case (Some a)
    then have "foldl (colStep tf nf) (None, s) (v # vs) = foldl (colStep tf nf) (Some a, Some (nf v)) vs"
      by (simp add: colStep_def)
    then show ?thesis using Some colStep_known [of "Some a" tf nf "Some (nf v)" vs] by simp
  qed
qed

lemma init_page:
  assumes "stmt r = Some st" and "st_output st = Some out"
  shows "init tf nf r =
     (let m = foldl (\<lambda>m item. initItem tf nf item m) (columnTypes r, columnSourceTypes r) (Items out);
          r1 = r\<lparr>items := Items out, columnTypes := fst m, columnSourceTypes := snd m\<rparr>
      in if columnList r \<noteq> [] then r1
         else r1\<lparr>columnList := sort (remdups (concat (map (map fst) (Items out))))\<rparr>)"
  using assms by (simp add: init_def Let_def split_beta)

text \<open>
  Claim C7, as amended. For a fresh result set initialised from a first page: the buffer is
  the page; when no output columns were named, the column list is sorted, without
  repetition, and holds exactly the attribute keys of the items of the page; when output
  columns were named, the list is kept; and the type and the tag of a column come from the
  first value of that column, in the order of the items, that has a type, or, when no value
  of the column has a type, the type is \<open>nil\<close> and the tag is that of the last value.
\<close>

theorem init_columns:
  assumes "stmt r = Some st" and "st_output st = Some out"
    and "columnTypes r = Map.empty" and "columnSourceTypes r = Map.empty"
  shows "items (init typeOf nameOf r) = Items out \<and>
     (columnList r = [] \<longrightarrow>
        sorted (columnList (init typeOf nameOf r)) \<and> distinct (columnList (init typeOf nameOf r)) \<and>
        set (columnList (init typeOf nameOf r)) = (\<Union>item \<in> set (Items out). fst ` set item)) \<and>
     (columnList r \<noteq> [] \<longrightarrow> columnList (init typeOf nameOf r) = columnList r) \<and>
     (case find (\<lambda>av. typeOf av \<noteq> None) (colValues col (Items out)) of
        Some av \<Rightarrow>
          columnTypes (init typeOf nameOf r) col = typeOf av \<and>
          columnSourceTypes (init typeOf nameOf r) col = Some (nameOf av)
      | None \<Rightarrow>
          columnTypes (init typeOf nameOf r) col = None \<and>
          columnSourceTypes (init typeOf nameOf r) col =
            (if colValues col (Items out) = [] then None
             else Some (nameOf (last (colValues col (Items out))))))"
proof -
  define m where "m = foldl (\<lambda>m item. initItem typeOf nameOf item m)
      (columnTypes r, columnSourceTypes r) (Items out)"
  note i = init_page [OF assms(1,2), of typeOf nameOf, unfolded Let_def, folded m_def]
  have 1: "items (init typeOf nameOf r) = Items out" by (simp add: i)
  have 2: "columnList r = [] \<longrightarrow>
        sorted (columnList (init typeOf nameOf r)) \<and> distinct (columnList (init typeOf nameOf r)) \<and>
        set (columnList (init typeOf nameOf r)) = (\<Union>item \<in> set (Items out). fst ` set item)"
    by (auto simp: i)
  have 3: "columnList r \<noteq> [] \<longrightarrow> columnList (init typeOf nameOf r) = columnList r"
    by (simp add: i)
  have ct: "columnTypes (init typeOf nameOf r) = fst m" "columnSourceTypes (init typeOf nameOf r) = snd m"
    by (simp_all add: i)
  have "(fst m col, snd m col) =
      foldl (colStep typeOf nameOf) (None, None) (colValues col (Items out))"
    using initItems_col [OF m_def [symmetric], of col] assms(3,4) by simp
  then have 4: "(columnTypes (init typeOf nameOf r) col, columnSourceTypes (init typeOf nameOf r) col) =
     (case find (\<lambda>av. typeOf av \<noteq> None) (colValues col (Items out)) of
        Some av \<Rightarrow> (typeOf av, Some (nameOf av))
      | None \<Rightarrow> (None, if colValues col (Items out) = [] then None
                      else Some (nameOf (last (colValues col (Items out))))))"
    by (simp add: ct colStep_fold)
  have 5: "case find (\<lambda>av. typeOf av \<noteq> None) (colValues col (Items out)) of
        Some av \<Rightarrow>
          columnTypes (init typeOf nameOf r) col = typeOf av \<and>
          columnSourceTypes (init typeOf nameOf r) col = Some (nameOf av)
      | None \<Rightarrow>
          columnTypes (init typeOf nameOf r) col = None \<and>
          columnSourceTypes (init typeOf nameOf r) col =
            (if colValues col (Items out) = [] then None
             else Some (nameOf (last (colValues col (Items out)))))"
    using 4 by (cases "find (\<lambda>av. typeOf av \<noteq> None) (colValues col (Items out))") simp_all
  from 1 2 3 5 show ?thesis by (intro conjI)
qed

text \<open>
  Two pages. In the first, of two items, the columns are sorted, and the column \<open>a\<close>, a
  number in the first item and a string in the second, has the type and the tag of the
  number. In the second the number of the first item is out of the range of a \<open>float64\<close>:
  the decoder refuses it, its type is \<open>nil\<close>, and the column has the type and the tag of the
  string of the second item.
\<close>

theorem init_columns_witness:
  "columnList (init scanType nameFromAttributeValue
      (demoPage [[(''b'', AttributeValueMemberS ''x''), (''a'', AttributeValueMemberN ''1'')],
                 [(''a'', AttributeValueMemberS ''y''), (''c'', AttributeValueMemberBOOL True)]]))
     = [''a'', ''b'', ''c''] \<and>
   columnTypes (init scanType nameFromAttributeValue
      (demoPage [[(''b'', AttributeValueMemberS ''x''), (''a'', AttributeValueMemberN ''1'')],
                 [(''a'', AttributeValueMemberS ''y''), (''c'', AttributeValueMemberBOOL True)]])) ''a''
     = Some ''float64'' \<and>
   columnSourceTypes (init scanType nameFromAttributeValue
      (demoPage [[(''b'', AttributeValueMemberS ''x''), (''a'', AttributeValueMemberN ''1'')],
                 [(''a'', AttributeValueMemberS ''y''), (''c'', AttributeValueMemberBOOL True)]])) ''a''
     = Some ''N'' \<and>
   columnTypes (init scanType nameFromAttributeValue
      (demoPage [[(''a'', AttributeValueMemberN ''1e999'')], [(''a'', AttributeValueMemberS ''x'')]])) ''a''
     = Some ''string'' \<and>
   columnSourceTypes (init scanType nameFromAttributeValue
      (demoPage [[(''a'', AttributeValueMemberN ''1e999'')], [(''a'', AttributeValueMemberS ''x'')]])) ''a''
     = Some ''S''"
proof -
  let ?page = "[[(''b'', AttributeValueMemberS ''x''), (''a'', AttributeValueMemberN ''1'')],
                 [(''a'', AttributeValueMemberS ''y''), (''c'', AttributeValueMemberBOOL True)]]"
  let ?out = "\<lparr>ConsumedCapacity = None, Items = ?page, NextToken = None,
               ResultMetadata = Metadata ''m''\<rparr>"
  let ?st = "\<lparr>limit = 0, st_input = None, st_output = Some ?out\<rparr>"
  have h: "stmt (demoPage ?page) = Some ?st" "st_output ?st = Some ?out"
    "columnTypes (demoPage ?page) = Map.empty" "columnSourceTypes (demoPage ?page) = Map.empty"
    by (simp_all add: demoPage_def)
  note th = init_columns [where r = "demoPage ?page" and st = ?st and out = ?out
      and typeOf = scanType and nameOf = nameFromAttributeValue and col = "''a''", OF h]
  have f: "find (\<lambda>av. scanType av \<noteq> None) (colValues ''a'' (Items ?out))
      = Some (AttributeValueMemberN ''1'')"
    by code_simp
  have t: "ParseFloatOk ''1''" by code_simp
  have a: "columnTypes (init scanType nameFromAttributeValue (demoPage ?page)) ''a'' = Some ''float64''"
    "columnSourceTypes (init scanType nameFromAttributeValue (demoPage ?page)) ''a'' = Some ''N''"
    using th [THEN conjunct2, THEN conjunct2, THEN conjunct2] f t by simp_all
  have c: "columnList (init scanType nameFromAttributeValue (demoPage ?page)) = [''a'', ''b'', ''c'']"
    by code_simp
  let ?page2 = "[[(''a'', AttributeValueMemberN ''1e999'')], [(''a'', AttributeValueMemberS ''x'')]]"
  let ?out2 = "\<lparr>ConsumedCapacity = None, Items = ?page2, NextToken = None,
               ResultMetadata = Metadata ''m''\<rparr>"
  let ?st2 = "\<lparr>limit = 0, st_input = None, st_output = Some ?out2\<rparr>"
  have h2: "stmt (demoPage ?page2) = Some ?st2" "st_output ?st2 = Some ?out2"
    "columnTypes (demoPage ?page2) = Map.empty" "columnSourceTypes (demoPage ?page2) = Map.empty"
    by (simp_all add: demoPage_def)
  note th2 = init_columns [where r = "demoPage ?page2" and st = ?st2 and out = ?out2
      and typeOf = scanType and nameOf = nameFromAttributeValue and col = "''a''", OF h2]
  have f2: "find (\<lambda>av. scanType av \<noteq> None) (colValues ''a'' (Items ?out2))
      = Some (AttributeValueMemberS ''x'')"
    by code_simp
  have b: "columnTypes (init scanType nameFromAttributeValue (demoPage ?page2)) ''a'' = Some ''string''"
    "columnSourceTypes (init scanType nameFromAttributeValue (demoPage ?page2)) ''a'' = Some ''S''"
    using th2 [THEN conjunct2, THEN conjunct2, THEN conjunct2] f2 by simp_all
  from c a b show ?thesis by (intro conjI)
qed

text \<open>
  Claim C7 as stated fails when the first item has a \<open>NULL\<close> in the column: its decoded value
  is \<open>nil\<close>, the entry of \<open>columnTypes\<close> stays \<open>nil\<close>, and the next item overwrites the type
  and the tag.
\<close>

theorem init_first_item_counterexample:
  "colValues ''a'' [[(''a'', AttributeValueMemberNULL True)], [(''a'', AttributeValueMemberS ''x'')]]
     = [AttributeValueMemberNULL True, AttributeValueMemberS ''x''] \<and>
   nameFromAttributeValue (AttributeValueMemberNULL True) = ''NULL'' \<and>
   columnSourceTypes (init scanType nameFromAttributeValue
      (demoPage [[(''a'', AttributeValueMemberNULL True)], [(''a'', AttributeValueMemberS ''x'')]])) ''a''
     = Some ''S'' \<and>
   columnTypes (init scanType nameFromAttributeValue
      (demoPage [[(''a'', AttributeValueMemberNULL True)], [(''a'', AttributeValueMemberS ''x'')]])) ''a''
     = Some ''string''"
  by (simp add: colValues_def init_def demoPage_def)

end
